(* ===== verification/Prelude.thy ===== *)
theory Prelude
  imports Main "HOL-Library.Word" "HOL-Library.Multiset"
begin

text \<open>
  What every theory of the development shares: the error type of
  \<^verbatim>\<open>pg_raggraph_core/src/error.rs\<close>, results as sums, a state-and-result monad for code that
  threads a mutable client, decimal printing, the machine integers, and a stable sort with its laws.

  A Rust \<open>str\<close> or \<open>String\<close> is the list of its UTF-8 bytes: an Isabelle \<open>char\<close> is an 8-bit
  value, so \<open>string\<close> serves for both \<open>str\<close> and \<open>Vec<u8>\<close>; \<open>as_bytes\<close> is the identity and
  \<open>str::len\<close> is \<open>length\<close>.
\<close>

named_theorems res_simps \<open>unfolding of the result and state-result combinators\<close>

section \<open>Types\<close>

type_synonym bytes = "char list"
type_synonym i32 = "32 word"
type_synonym i64 = "64 word"
type_synonym u64 = "64 word"
type_synonym u16 = "16 word"

text \<open>A \<open>Uuid\<close> is 16 bytes of opaque identity; only equality is used by the code.\<close>

datatype uuid = Uuid int

definition uuid_nil :: uuid where
  "uuid_nil = Uuid 0"

section \<open>Errors and results\<close>

text \<open>
  \<open>CoreError\<close>. The wrapped \<open>serde_json::Error\<close> of the \<open>Json\<close> variant is kept as its rendered text.
\<close>

datatype core_error =
    NamespaceNotFound string
  | ProviderNotFound string
  | InvalidConfig string
  | Json string
  | Crypto string
  | Http string
  | Llm string

type_synonym 'a core_result = "core_error + 'a"

text \<open>\<open>Display\<close> of \<open>CoreError\<close>: the \<open>#[error(...)]\<close> attributes.\<close>

fun core_error_display :: "core_error \<Rightarrow> string" where
  "core_error_display (NamespaceNotFound s) = ''namespace `'' @ s @ ''` not found''"
| "core_error_display (ProviderNotFound s) = ''provider `'' @ s @ ''` not found''"
| "core_error_display (InvalidConfig s) = ''invalid configuration: '' @ s"
| "core_error_display (Json s) = s"
| "core_error_display (Crypto s) = ''crypto error: '' @ s"
| "core_error_display (Http s) = ''http error: '' @ s"
| "core_error_display (Llm s) = ''llm error: '' @ s"

text \<open>\<open>?\<close> on a result, \<open>map_err\<close>, \<open>ok_or_else\<close> and \<open>ok\<close>.\<close>

definition res_bind :: "'e + 'a \<Rightarrow> ('a \<Rightarrow> 'e + 'b) \<Rightarrow> 'e + 'b" where
  "res_bind r f = (case r of Inl e \<Rightarrow> Inl e | Inr a \<Rightarrow> f a)"

definition map_err :: "('e \<Rightarrow> 'f) \<Rightarrow> 'e + 'a \<Rightarrow> 'f + 'a" where
  "map_err g r = (case r of Inl e \<Rightarrow> Inl (g e) | Inr a \<Rightarrow> Inr a)"

definition ok_or :: "'e \<Rightarrow> 'a option \<Rightarrow> 'e + 'a" where
  "ok_or e x = (case x of None \<Rightarrow> Inl e | Some a \<Rightarrow> Inr a)"

definition res_ok :: "'e + 'a \<Rightarrow> 'a option" where
  "res_ok r = (case r of Inl _ \<Rightarrow> None | Inr a \<Rightarrow> Some a)"

definition unwrap_or :: "'a \<Rightarrow> 'a option \<Rightarrow> 'a" where
  "unwrap_or d x = (case x of None \<Rightarrow> d | Some a \<Rightarrow> a)"

lemma res_bind_simps [simp, res_simps]:
  "res_bind (Inl e) f = Inl e"
  "res_bind (Inr a) f = f a"
  by (simp_all add: res_bind_def)

lemma res_bind_Inr_iff: "res_bind r f = Inr b \<longleftrightarrow> (\<exists>a. r = Inr a \<and> f a = Inr b)"
  by (cases r) auto

lemma res_bind_Inl_iff:
  "res_bind r f = Inl e \<longleftrightarrow> r = Inl e \<or> (\<exists>a. r = Inr a \<and> f a = Inl e)"
  by (cases r) auto

lemma map_err_simps [simp, res_simps]:
  "map_err g (Inl e) = Inl (g e)"
  "map_err g (Inr a) = Inr a"
  by (simp_all add: map_err_def)

lemma map_err_Inr_iff [simp]: "map_err g r = Inr a \<longleftrightarrow> r = Inr a"
  by (cases r) auto

lemma ok_or_simps [simp, res_simps]:
  "ok_or e None = Inl e"
  "ok_or e (Some a) = Inr a"
  by (simp_all add: ok_or_def)

lemma ok_or_Inr_iff [simp]: "ok_or e x = Inr a \<longleftrightarrow> x = Some a"
  by (cases x) auto

lemma res_ok_simps [simp, res_simps]:
  "res_ok (Inl e) = None"
  "res_ok (Inr a) = Some a"
  by (simp_all add: res_ok_def)

lemma unwrap_or_simps [simp, res_simps]:
  "unwrap_or d None = d"
  "unwrap_or d (Some a) = a"
  by (simp_all add: unwrap_or_def)

section \<open>State and result\<close>

text \<open>
  Code that takes \<open>&mut dyn Client\<close> and returns a result is a function of the state returning both
  the result and the new state; an error keeps the state reached so far.
\<close>

type_synonym ('s, 'a) sr = "'s \<Rightarrow> 'a core_result \<times> 's"

definition sr_return :: "'a \<Rightarrow> ('s, 'a) sr" where
  "sr_return a s = (Inr a, s)"

definition sr_fail :: "core_error \<Rightarrow> ('s, 'a) sr" where
  "sr_fail e s = (Inl e, s)"

definition sr_bind :: "('s, 'a) sr \<Rightarrow> ('a \<Rightarrow> ('s, 'b) sr) \<Rightarrow> ('s, 'b) sr" where
  "sr_bind m f s = (case m s of (Inl e, s') \<Rightarrow> (Inl e, s') | (Inr a, s') \<Rightarrow> f a s')"

definition sr_lift :: "'a core_result \<Rightarrow> ('s, 'a) sr" where
  "sr_lift r s = (r, s)"

text \<open>\<open>for x in xs { f(x)?; }\<close>\<close>

fun sr_for :: "('a \<Rightarrow> ('s, unit) sr) \<Rightarrow> 'a list \<Rightarrow> ('s, unit) sr" where
  "sr_for f [] = sr_return ()"
| "sr_for f (x # xs) = sr_bind (f x) (\<lambda>_. sr_for f xs)"

lemma sr_return_apply: "sr_return a s = (Inr a, s)"
  by (simp add: sr_return_def)

lemma sr_fail_apply: "sr_fail e s = (Inl e, s)"
  by (simp add: sr_fail_def)

lemma sr_lift_apply: "sr_lift r s = (r, s)"
  by (simp add: sr_lift_def)

lemma sr_bind_Inr [simp, res_simps]: "m s = (Inr a, s') \<Longrightarrow> sr_bind m f s = f a s'"
  by (simp add: sr_bind_def)

lemma sr_bind_Inl [simp, res_simps]: "m s = (Inl e, s') \<Longrightarrow> sr_bind m f s = (Inl e, s')"
  by (simp add: sr_bind_def)

lemmas sr_apply = sr_return_apply sr_fail_apply sr_lift_apply

lemma sr_bind_return [simp]: "sr_bind (sr_return a) f = f a"
  by (rule ext) (simp add: sr_apply)

lemma sr_bind_fail [simp]: "sr_bind (sr_fail e) f = sr_fail e"
  by (rule ext) (simp add: sr_apply)

lemma sr_bind_lift [simp]:
  "sr_bind (sr_lift (Inl e)) f = sr_fail e"
  "sr_bind (sr_lift (Inr a)) f = f a"
  by (rule ext, simp add: sr_apply sr_bind_def)+

lemma sr_bind_assoc: "sr_bind (sr_bind m f) g = sr_bind m (\<lambda>a. sr_bind (f a) g)"
  by (rule ext) (simp add: sr_bind_def split: prod.splits sum.splits)

lemma sr_bind_InrE:
  assumes "sr_bind m f s = (Inr b, t)"
  obtains a s' where "m s = (Inr a, s')" and "f a s' = (Inr b, t)"
  using assms by (auto simp: sr_bind_def split: prod.splits sum.splits)

lemma sr_bind_InlE:
  assumes "sr_bind m f s = (Inl e, t)"
  obtains "m s = (Inl e, t)" | a s' where "m s = (Inr a, s')" and "f a s' = (Inl e, t)"
  using assms by (auto simp: sr_bind_def split: prod.splits sum.splits)

text \<open>
  A relation between the states before and after that a step keeps whatever its result:
  \<open>sr_keeps R m\<close>. It composes, so a pipeline keeps what each of its steps keeps.
\<close>

definition sr_keeps :: "('s \<Rightarrow> 's \<Rightarrow> bool) \<Rightarrow> ('s, 'a) sr \<Rightarrow> bool" where
  "sr_keeps R m \<longleftrightarrow> (\<forall>s. R s (snd (m s)))"

lemma sr_keepsI: "(\<And>s. R s (snd (m s))) \<Longrightarrow> sr_keeps R m"
  by (simp add: sr_keeps_def)

lemma sr_keepsD: "sr_keeps R m \<Longrightarrow> m s = (r, t) \<Longrightarrow> R s t"
  by (metis sr_keeps_def snd_conv)

lemma sr_keeps_return: "reflp R \<Longrightarrow> sr_keeps R (sr_return a)"
  by (simp add: sr_keeps_def sr_apply reflpD)

lemma sr_keeps_fail: "reflp R \<Longrightarrow> sr_keeps R (sr_fail e)"
  by (simp add: sr_keeps_def sr_apply reflpD)

lemma sr_keeps_lift: "reflp R \<Longrightarrow> sr_keeps R (sr_lift r)"
  by (simp add: sr_keeps_def sr_apply reflpD)

lemma sr_keeps_bind:
  assumes "transp R" and "sr_keeps R m" and "\<And>a. sr_keeps R (f a)"
  shows "sr_keeps R (sr_bind m f)"
proof (rule sr_keepsI)
  fix s
  obtain r s' where m: "m s = (r, s')" by fastforce
  then have 1: "R s s'" using assms(2) by (rule sr_keepsD[rotated])
  show "R s (snd (sr_bind m f s))"
  proof (cases r)
    case (Inl e)
    with m 1 show ?thesis by simp
  next
    case (Inr a)
    have "R s' (snd (f a s'))" using assms(3) by (simp add: sr_keeps_def)
    with 1 have "R s (snd (f a s'))" using assms(1) by (blast dest: transpD)
    with m Inr show ?thesis by simp
  qed
qed

lemma sr_keeps_for:
  assumes "reflp R" and "transp R" and "\<And>x. x \<in> set xs \<Longrightarrow> sr_keeps R (f x)"
  shows "sr_keeps R (sr_for f xs)"
  using assms(3)
proof (induction xs)
  case Nil
  have "sr_keeps R (sr_return ())" using assms(1) by (rule sr_keeps_return)
  then show ?case by simp
next
  case (Cons x xs)
  then show ?case using assms(2) by (auto intro!: sr_keeps_bind)
qed

text \<open>\<open>sr_ok I m\<close>: from a state satisfying \<open>I\<close>, a step that succeeds leads to such a state.\<close>

definition sr_ok :: "('s \<Rightarrow> bool) \<Rightarrow> ('s, 'a) sr \<Rightarrow> bool" where
  "sr_ok I m \<longleftrightarrow> (\<forall>s a t. m s = (Inr a, t) \<longrightarrow> I s \<longrightarrow> I t)"

lemma sr_okD: "sr_ok I m \<Longrightarrow> m s = (Inr a, t) \<Longrightarrow> I s \<Longrightarrow> I t"
  by (auto simp: sr_ok_def)

lemma sr_ok_all: "(\<And>s. I s \<Longrightarrow> I (snd (m s))) \<Longrightarrow> sr_ok I m"
  unfolding sr_ok_def by (metis snd_conv)

lemma sr_ok_pure: "sr_ok I (sr_return a)" "sr_ok I (sr_fail e)" "sr_ok I (sr_lift r)"
  by (simp_all add: sr_ok_def sr_apply)

lemma sr_ok_bind: "sr_ok I m \<Longrightarrow> (\<And>a. sr_ok I (f a)) \<Longrightarrow> sr_ok I (sr_bind m f)"
  unfolding sr_ok_def by (blast elim: sr_bind_InrE)

lemma sr_ok_for: "(\<And>x. sr_ok I (f x)) \<Longrightarrow> sr_ok I (sr_for f xs)"
proof (induction xs)
  case Nil
  show ?case by (simp add: sr_ok_pure)
next
  case (Cons x xs)
  then show ?case by (simp add: sr_ok_bind)
qed

lemma sr_ok_option:
  "sr_ok I x \<Longrightarrow> (\<And>a. sr_ok I (f a)) \<Longrightarrow> sr_ok I (case q of None \<Rightarrow> x | Some a \<Rightarrow> f a)"
  by (simp split: option.split)

lemma sr_ok_case: "(\<And>a b. sr_ok I (f a b)) \<Longrightarrow> sr_ok I (case p of (a, b) \<Rightarrow> f a b)"
  by (simp split: prod.split)

section \<open>Decimal printing\<close>

definition digit_char :: "nat \<Rightarrow> char" where
  "digit_char d = char_of (48 + d)"

fun show_nat :: "nat \<Rightarrow> string" where
  "show_nat n = (if n < 10 then [digit_char n] else show_nat (n div 10) @ [digit_char (n mod 10)])"

declare show_nat.simps [simp del]

definition show_int :: "int \<Rightarrow> string" where
  "show_int i = (if i < 0 then CHR ''-'' # show_nat (nat (- i)) else show_nat (nat i))"

definition is_digit :: "char \<Rightarrow> bool" where
  "is_digit c \<longleftrightarrow> 48 \<le> (of_char c :: nat) \<and> (of_char c :: nat) \<le> 57"

definition digit_val :: "char \<Rightarrow> nat" where
  "digit_val c = of_char c - 48"

lemma of_digit_char [simp]: "d < 10 \<Longrightarrow> (of_char (digit_char d) :: nat) = 48 + d"
  by (simp add: digit_char_def)

lemma is_digit_digit_char [simp]: "d < 10 \<Longrightarrow> is_digit (digit_char d)"
  by (simp add: is_digit_def)

lemma digit_val_digit_char [simp]: "d < 10 \<Longrightarrow> digit_val (digit_char d) = d"
  by (simp add: digit_val_def)

lemma show_nat_digits: "\<forall>c \<in> set (show_nat n). is_digit c"
proof (induction n rule: show_nat.induct)
  case (1 n)
  then show ?case by (subst show_nat.simps) auto
qed

lemma show_nat_nonempty [simp]: "show_nat n \<noteq> []"
  by (subst show_nat.simps) simp

text \<open>Reading a run of digits back, most significant first.\<close>

definition digits_val :: "string \<Rightarrow> nat" where
  "digits_val ds = foldl (\<lambda>a c. 10 * a + digit_val c) 0 ds"

lemma digits_val_snoc [simp]: "digits_val (ds @ [c]) = 10 * digits_val ds + digit_val c"
  by (simp add: digits_val_def)

lemma digits_val_Nil [simp]: "digits_val [] = 0"
  by (simp add: digits_val_def)

lemma digits_val_show_nat [simp]: "digits_val (show_nat n) = n"
proof (induction n rule: show_nat.induct)
  case (1 n)
  show ?case
  proof (cases "n < 10")
    case True
    then show ?thesis by (subst show_nat.simps) (simp add: digits_val_def)
  next
    case False
    with 1 show ?thesis by (subst show_nat.simps) simp
  qed
qed

text \<open>\<open>str::parse::<usize>\<close> on a 64-bit host: an optional \<open>+\<close>, then digits, then the range check.\<close>

definition parse_usize :: "string \<Rightarrow> nat option" where
  "parse_usize s =
     (let ds = (case s of c # cs \<Rightarrow> if c = CHR ''+'' then cs else s | [] \<Rightarrow> [])
      in if ds = [] \<or> \<not> list_all is_digit ds then None
         else if digits_val ds < 2 ^ 64 then Some (digits_val ds) else None)"

lemma parse_usize_show_nat: "n < 2 ^ 64 \<Longrightarrow> parse_usize (show_nat n) = Some n"
proof -
  assume n: "n < 2 ^ 64"
  have plus: "\<not> is_digit (CHR ''+'')" by (simp add: is_digit_def)
  obtain c cs where s: "show_nat n = c # cs" by (cases "show_nat n") auto
  have "is_digit c" using show_nat_digits[of n] s by simp
  with plus have "c \<noteq> CHR ''+''" by metis
  moreover have "list_all is_digit (show_nat n)"
    using show_nat_digits by (simp add: list_all_iff)
  ultimately show ?thesis
    using n s digits_val_show_nat[of n] by (simp add: parse_usize_def)
qed

section \<open>Integer conversions\<close>

definition i32_max :: int where "i32_max = 2147483647"

text \<open>\<open>i32::try_from(n).unwrap_or(i32::MAX)\<close> on a \<open>usize\<close>.\<close>

definition i32_from_usize_or_max :: "nat \<Rightarrow> i32" where
  "i32_from_usize_or_max n = (if int n \<le> i32_max then word_of_nat n else word_of_int i32_max)"

lemma sint_i32_from_usize_or_max:
  "sint (i32_from_usize_or_max n) = min (int n) i32_max"
proof (cases "int n \<le> i32_max")
  case True
  then have "sint (word_of_int (int n) :: i32) = int n"
    by (simp only: sint_sbintrunc') (simp add: i32_max_def signed_take_bit_int_eq_self)
  with True show ?thesis by (simp add: i32_from_usize_or_max_def)
next
  case False
  then show ?thesis by (simp add: i32_from_usize_or_max_def i32_max_def)
qed

section \<open>Stable sorting\<close>

text \<open>
  \<open>slice::sort_by\<close> is a stable sort. \<open>le x y\<close> stands for "the comparator of \<open>x\<close> and \<open>y\<close> is not
  \<open>Greater\<close>"; for a total preorder the stable sorted permutation is unique, so insertion sort computes
  what any stable sort does.
\<close>

fun sort_insert :: "('a \<Rightarrow> 'a \<Rightarrow> bool) \<Rightarrow> 'a \<Rightarrow> 'a list \<Rightarrow> 'a list" where
  "sort_insert le x [] = [x]"
| "sort_insert le x (y # ys) = (if le x y then x # y # ys else y # sort_insert le x ys)"

definition stable_sort :: "('a \<Rightarrow> 'a \<Rightarrow> bool) \<Rightarrow> 'a list \<Rightarrow> 'a list" where
  "stable_sort le xs = foldr (sort_insert le) xs []"

lemma stable_sort_simps [simp]:
  "stable_sort le [] = []"
  "stable_sort le (x # xs) = sort_insert le x (stable_sort le xs)"
  by (simp_all add: stable_sort_def)

lemma mset_sort_insert [simp]: "mset (sort_insert le x xs) = add_mset x (mset xs)"
  by (induction xs) auto

lemma mset_stable_sort [simp]: "mset (stable_sort le xs) = mset xs"
  by (induction xs) auto

lemma set_stable_sort [simp]: "set (stable_sort le xs) = set xs"
  by (metis mset_stable_sort set_mset_mset)

lemma length_stable_sort [simp]: "length (stable_sort le xs) = length xs"
  by (metis mset_stable_sort size_mset)

locale sort_order =
  fixes le :: "'a \<Rightarrow> 'a \<Rightarrow> bool" and D :: "'a set"
  assumes le_total: "x \<in> D \<Longrightarrow> y \<in> D \<Longrightarrow> le x y \<or> le y x"
    and le_trans: "x \<in> D \<Longrightarrow> y \<in> D \<Longrightarrow> z \<in> D \<Longrightarrow> le x y \<Longrightarrow> le y z \<Longrightarrow> le x z"
begin

lemma sorted_sort_insert:
  assumes "insert x (set xs) \<subseteq> D" and "sorted_wrt le xs"
  shows "sorted_wrt le (sort_insert le x xs)"
  using assms
proof (induction xs)
  case Nil
  then show ?case by simp
next
  case (Cons y ys)
  have set_ins: "set (sort_insert le x ys) = insert x (set ys)"
    by (metis mset_sort_insert set_mset_add_mset_insert set_mset_mset)
  show ?case
  proof (cases "le x y")
    case True
    have "le x z" if "z \<in> set ys" for z
      using True Cons.prems that le_trans[of x y z] by auto
    with True Cons.prems show ?thesis by simp
  next
    case False
    then have "le y x" using Cons.prems(1) le_total[of x y] by auto
    with False Cons set_ins show ?thesis by simp
  qed
qed

lemma sorted_stable_sort: "set xs \<subseteq> D \<Longrightarrow> sorted_wrt le (stable_sort le xs)"
  by (induction xs) (simp_all add: sorted_sort_insert)

text \<open>Stability: elements the predicate \<open>P\<close> groups, all mutually \<open>le\<close>, keep their order.\<close>

lemma filter_sort_insert:
  assumes "insert x (set xs) \<subseteq> D" and "\<And>y z. P y \<Longrightarrow> P z \<Longrightarrow> le y z"
  shows "filter P (sort_insert le x xs) = (if P x then x # filter P xs else filter P xs)"
  using assms(1)
proof (induction xs)
  case Nil
  then show ?case by simp
next
  case (Cons y ys)
  then show ?case using assms(2)[of x y] by auto
qed

lemma stable_sort_stable:
  assumes "set xs \<subseteq> D" and "\<And>y z. P y \<Longrightarrow> P z \<Longrightarrow> le y z"
  shows "filter P (stable_sort le xs) = filter P xs"
  using assms(1)
proof (induction xs)
  case Nil
  then show ?case by simp
next
  case (Cons x xs)
  then have "insert x (set (stable_sort le xs)) \<subseteq> D" by simp
  with Cons show ?case using assms(2) by (simp add: filter_sort_insert)
qed

end

end
