(* ===== verification/RustStr.thy ===== *)
theory RustStr
  imports Prelude
begin

text \<open>
  The string operations of the Rust standard library that the program uses, on UTF-8 byte lists:
  validity and decoding (\<open>str::from_utf8\<close>, \<open>chars\<close>, \<open>char_indices\<close>), searching and splitting at
  ASCII patterns (\<open>find\<close>, \<open>split\<close>, \<open>split_once\<close>, \<open>strip_prefix\<close>, \<open>strip_suffix\<close>,
  \<open>starts_with\<close>, \<open>contains\<close>, \<open>replacen\<close>), \<open>trim\<close> and \<open>split_whitespace\<close>. An ASCII byte never
  occurs inside a multi-byte sequence, so searching for ASCII patterns works on bytes.
\<close>

section \<open>UTF-8\<close>

definition cont_byte :: "nat \<Rightarrow> bool" where
  "cont_byte b \<longleftrightarrow> 128 \<le> b \<and> b \<le> 191"

text \<open>
  One well-formed UTF-8 sequence at the head: the code point and the length in bytes. The ranges are
  those of the Unicode table of well-formed sequences (no overlong forms, no surrogates).
\<close>

fun utf8_head :: "nat list \<Rightarrow> (nat \<times> nat) option" where
  "utf8_head [] = None"
| "utf8_head (a # r) =
     (if a < 128 then Some (a, 1)
      else if 194 \<le> a \<and> a \<le> 223 then
        (case r of b # _ \<Rightarrow>
           if cont_byte b then Some ((a - 192) * 64 + (b - 128), 2) else None
         | [] \<Rightarrow> None)
      else if 224 \<le> a \<and> a \<le> 239 then
        (case r of b # c # _ \<Rightarrow>
           if cont_byte b \<and> cont_byte c \<and> (a = 224 \<longrightarrow> 160 \<le> b) \<and> (a = 237 \<longrightarrow> b \<le> 159)
           then Some ((a - 224) * 4096 + (b - 128) * 64 + (c - 128), 3) else None
         | _ \<Rightarrow> None)
      else if 240 \<le> a \<and> a \<le> 244 then
        (case r of b # c # d # _ \<Rightarrow>
           if cont_byte b \<and> cont_byte c \<and> cont_byte d \<and> (a = 240 \<longrightarrow> 144 \<le> b)
              \<and> (a = 244 \<longrightarrow> b \<le> 143)
           then Some ((a - 240) * 262144 + (b - 128) * 4096 + (c - 128) * 64 + (d - 128), 4)
           else None
         | _ \<Rightarrow> None)
      else None)"

text \<open>
  The characters of a string, each with its bytes. A Rust \<open>str\<close> is always well formed; a stray byte
  (which no \<open>str\<close> contains) is kept as one replacement character so that the function is total.
\<close>

function uchars :: "bytes \<Rightarrow> (nat \<times> bytes) list" where
  "uchars s =
     (case s of [] \<Rightarrow> []
      | c # cs \<Rightarrow>
        (case utf8_head (map of_char s) of
           None \<Rightarrow> (65533, [c]) # uchars cs
         | Some (cp, n) \<Rightarrow> (cp, take (max 1 n) s) # uchars (drop (max 1 n) s)))"
  by pat_completeness auto
termination
  by (relation "measure length") auto

declare uchars.simps [simp del]

lemma uchars_Nil [simp]: "uchars [] = []"
  by (simp add: uchars.simps)

function is_utf8 :: "bytes \<Rightarrow> bool" where
  "is_utf8 s =
     (case s of [] \<Rightarrow> True
      | c # cs \<Rightarrow>
        (case utf8_head (map of_char s) of
           None \<Rightarrow> False
         | Some (cp, n) \<Rightarrow> is_utf8 (drop (max 1 n) s)))"
  by pat_completeness auto
termination
  by (relation "measure length") auto

declare is_utf8.simps [simp del]

definition chars :: "string \<Rightarrow> nat list" where
  "chars s = map fst (uchars s)"

text \<open>\<open>char_indices\<close>: every character with the byte offset it starts at.\<close>

fun char_indices_from :: "nat \<Rightarrow> (nat \<times> bytes) list \<Rightarrow> (nat \<times> nat) list" where
  "char_indices_from i [] = []"
| "char_indices_from i ((c, bs) # us) = (i, c) # char_indices_from (i + length bs) us"

definition char_indices :: "string \<Rightarrow> (nat \<times> nat) list" where
  "char_indices s = char_indices_from 0 (uchars s)"

lemma utf8_head_ascii: "a < 128 \<Longrightarrow> utf8_head (a # r) = Some (a, 1)"
  by simp

declare utf8_head.simps [simp del]

lemma uchars_None:
  "utf8_head (map of_char (c # cs)) = None \<Longrightarrow> uchars (c # cs) = (65533, [c]) # uchars cs"
  by (simp add: uchars.simps [of "c # cs"])

lemma uchars_Some:
  "utf8_head (map of_char (c # cs)) = Some (cp, n) \<Longrightarrow>
   uchars (c # cs) = (cp, take (max 1 n) (c # cs)) # uchars (drop (max 1 n) (c # cs))"
  by (simp add: uchars.simps [of "c # cs"])

lemma uchars_cases:
  obtains (Nil) "s = []"
  | (Step) cp bs rest where "s = bs @ rest" "bs \<noteq> []" "uchars s = (cp, bs) # uchars rest"
proof (cases s)
  case Nil
  with that(1) show ?thesis .
next
  case (Cons c cs)
  show ?thesis
  proof (cases "utf8_head (map of_char (c # cs))")
    case None
    show ?thesis by (rule that(2)[of "[c]" cs 65533]) (use Cons uchars_None[OF None] in simp_all)
  next
    case (Some p)
    obtain cp n where "p = (cp, n)" by fastforce
    with Some have *: "utf8_head (map of_char (c # cs)) = Some (cp, n)" by simp
    show ?thesis
      by (rule that(2)[of "take (max 1 n) s" "drop (max 1 n) s" cp])
        (use Cons uchars_Some[OF *] in \<open>simp_all only: append_take_drop_id\<close>, simp)
  qed
qed

lemma uchars_concat: "concat (map snd (uchars s)) = s"
proof (induction s rule: length_induct)
  case (1 s)
  show ?case
  proof (cases s rule: uchars_cases)
    case Nil
    then show ?thesis by simp
  next
    case (Step cp bs rest)
    with 1 have "concat (map snd (uchars rest)) = rest" by simp
    with Step(1,3) show ?thesis by simp
  qed
qed

lemma uchars_snd_nonempty: "u \<in> set (uchars s) \<Longrightarrow> snd u \<noteq> []"
proof (induction s rule: length_induct)
  case (1 s)
  show ?case
  proof (cases s rule: uchars_cases)
    case Nil
    with "1.prems" show ?thesis by simp
  next
    case (Step cp bs rest)
    with 1 show ?thesis by auto
  qed
qed

subsection \<open>ASCII strings\<close>

definition ascii :: "string \<Rightarrow> bool" where
  "ascii s \<longleftrightarrow> (\<forall>c \<in> set s. (of_char c :: nat) < 128)"

lemma ascii_simps [simp]:
  "ascii []"
  "ascii (c # s) \<longleftrightarrow> (of_char c :: nat) < 128 \<and> ascii s"
  "ascii (s @ t) \<longleftrightarrow> ascii s \<and> ascii t"
  by (auto simp: ascii_def)

lemma uchars_ascii_Cons:
  "(of_char c :: nat) < 128 \<Longrightarrow> uchars (c # s) = (of_char c, [c]) # uchars s"
  using uchars_Some[of c s "of_char c" 1] by (simp add: utf8_head_ascii)

lemma uchars_ascii: "ascii s \<Longrightarrow> uchars s = map (\<lambda>c. (of_char c, [c])) s"
  by (induction s) (simp_all add: uchars_ascii_Cons)

lemma is_utf8_ascii: "ascii s \<Longrightarrow> is_utf8 s"
proof (induction s)
  case Nil
  then show ?case by (subst is_utf8.simps) simp
next
  case (Cons c s)
  then show ?case by (simp add: is_utf8.simps [of "c # s"] utf8_head_ascii)
qed

section \<open>Searching and splitting\<close>

definition starts_with :: "string \<Rightarrow> string \<Rightarrow> bool" where
  "starts_with p s \<longleftrightarrow> take (length p) s = p"

definition strip_prefix :: "string \<Rightarrow> string \<Rightarrow> string option" where
  "strip_prefix p s = (if starts_with p s then Some (drop (length p) s) else None)"

definition strip_suffix :: "string \<Rightarrow> string \<Rightarrow> string option" where
  "strip_suffix p s =
     (if length p \<le> length s \<and> drop (length s - length p) s = p
      then Some (take (length s - length p) s) else None)"

lemma starts_with_append [simp]: "starts_with p (p @ s)"
  by (simp add: starts_with_def)

lemma starts_with_length: "starts_with p s \<Longrightarrow> length p \<le> length s"
  unfolding starts_with_def by (metis length_take min.cobounded1)

lemma strip_prefix_append [simp]: "strip_prefix p (p @ s) = Some s"
  by (simp add: strip_prefix_def)

lemma strip_prefix_Some: "strip_prefix p s = Some r \<Longrightarrow> s = p @ r"
  by (auto simp: strip_prefix_def starts_with_def split: if_splits) (metis append_take_drop_id)

lemma strip_suffix_append [simp]: "strip_suffix p (s @ p) = Some s"
  by (simp add: strip_suffix_def)

fun split_on :: "char \<Rightarrow> string \<Rightarrow> string list" where
  "split_on c [] = [[]]"
| "split_on c (x # xs) =
     (if x = c then [] # split_on c xs
      else (case split_on c xs of [] \<Rightarrow> [[x]] | p # ps \<Rightarrow> (x # p) # ps))"

fun split_once :: "char \<Rightarrow> string \<Rightarrow> (string \<times> string) option" where
  "split_once c [] = None"
| "split_once c (x # xs) =
     (if x = c then Some ([], xs)
      else (case split_once c xs of None \<Rightarrow> None | Some (a, b) \<Rightarrow> Some (x # a, b)))"

fun find_sub :: "string \<Rightarrow> string \<Rightarrow> nat option" where
  "find_sub p [] = (if p = [] then Some 0 else None)"
| "find_sub p (x # xs) =
     (if starts_with p (x # xs) then Some 0 else map_option Suc (find_sub p xs))"

definition str_contains :: "string \<Rightarrow> string \<Rightarrow> bool" where
  "str_contains p s \<longleftrightarrow> find_sub p s \<noteq> None"

text \<open>\<open>s.replacen(p, r, 1)\<close>.\<close>

definition replace_first :: "string \<Rightarrow> string \<Rightarrow> string \<Rightarrow> string" where
  "replace_first p r s =
     (case find_sub p s of None \<Rightarrow> s | Some i \<Rightarrow> take i s @ r @ drop (i + length p) s)"

lemma split_on_nonempty [simp]: "split_on c s \<noteq> []"
  by (induction s) (auto split: list.splits)

lemma length_split_on: "length (split_on c s) = Suc (count_list s c)"
proof (induction s)
  case Nil
  then show ?case by simp
next
  case (Cons x xs)
  then show ?case by (cases "split_on c xs") auto
qed

lemma split_on_no_sep: "c \<notin> set s \<Longrightarrow> split_on c s = [s]"
  by (induction s) auto

lemma split_on_append_sep:
  "c \<notin> set a \<Longrightarrow> split_on c (a @ c # b) = a # split_on c b"
  by (induction a) auto

lemma split_once_append:
  "c \<notin> set a \<Longrightarrow> split_once c (a @ c # b) = Some (a, b)"
  by (induction a) auto

lemma split_once_None_iff: "split_once c s = None \<longleftrightarrow> c \<notin> set s"
  by (induction s) (auto split: option.splits prod.splits)

lemma split_once_Some:
  "split_once c s = Some (a, b) \<Longrightarrow> s = a @ c # b \<and> c \<notin> set a"
  by (induction s arbitrary: a) (auto split: option.splits prod.splits if_splits)

lemma find_sub_char_None: "find_sub [c] s = None \<longleftrightarrow> c \<notin> set s"
  by (induction s) (auto simp: starts_with_def)

lemma find_sub_char_append:
  "c \<notin> set a \<Longrightarrow> find_sub [c] (a @ c # b) = Some (length a)"
  by (induction a) (auto simp: starts_with_def)

lemma find_sub_Some:
  "find_sub p s = Some i \<Longrightarrow> i + length p \<le> length s \<and> take (length p) (drop i s) = p"
proof (induction s arbitrary: i)
  case Nil
  then show ?case by (auto split: if_splits)
next
  case (Cons x xs)
  show ?case
  proof (cases "starts_with p (x # xs)")
    case True
    with Cons.prems have "i = 0" by simp
    moreover have "length p \<le> length (x # xs)"
      using starts_with_length[OF True] .
    ultimately show ?thesis using True by (simp add: starts_with_def)
  next
    case False
    with Cons.prems obtain j where "find_sub p xs = Some j" "i = Suc j" by auto
    with Cons.IH show ?thesis by simp
  qed
qed

lemma find_sub_split: "find_sub p s = Some i \<Longrightarrow> s = take i s @ p @ drop (i + length p) s"
  using find_sub_Some[of p s i] by (metis add.commute append_take_drop_id drop_drop)

text \<open>The first occurrence: no match starts earlier.\<close>

lemma find_sub_first:
  "find_sub p s = Some i \<Longrightarrow> j < i \<Longrightarrow> \<not> starts_with p (drop j s)"
proof (induction s arbitrary: i j)
  case Nil
  then show ?case by (auto split: if_splits)
next
  case (Cons x xs)
  then show ?case by (cases j) (auto split: if_splits)
qed

lemma find_sub_append:
  assumes "\<And>j. j < length a \<Longrightarrow> \<not> starts_with p (drop j (a @ p @ b))"
  shows "find_sub p (a @ p @ b) = Some (length a)"
  using assms
proof (induction a)
  case Nil
  have "starts_with p (p @ b)" by simp
  then show ?case by (cases "p @ b") (auto simp del: starts_with_append)
next
  case (Cons x a)
  have "\<not> starts_with p ((x # a) @ p @ b)" using Cons.prems[of 0] by simp
  moreover have "find_sub p (a @ p @ b) = Some (length a)"
    using Cons.prems[of "Suc _"] by (intro Cons.IH) simp
  ultimately show ?case by simp
qed

section \<open>White space\<close>

definition is_whitespace :: "nat \<Rightarrow> bool" where
  "is_whitespace c \<longleftrightarrow> (9 \<le> c \<and> c \<le> 13) \<or> c = 32 \<or> c = 133 \<or> c = 160 \<or> c = 5760
     \<or> (8192 \<le> c \<and> c \<le> 8202) \<or> c = 8232 \<or> c = 8233 \<or> c = 8239 \<or> c = 8287 \<or> c = 12288"

definition trim_by :: "('a \<Rightarrow> bool) \<Rightarrow> 'a list \<Rightarrow> 'a list" where
  "trim_by P xs = rev (dropWhile P (rev (dropWhile P xs)))"

definition trim :: "string \<Rightarrow> string" where
  "trim s = concat (map snd (trim_by (\<lambda>u. is_whitespace (fst u)) (uchars s)))"

text \<open>\<open>split_whitespace().count()\<close>: the number of maximal runs of non-white-space characters.\<close>

fun word_count_from :: "bool \<Rightarrow> nat list \<Rightarrow> nat" where
  "word_count_from inw [] = 0"
| "word_count_from inw (c # cs) =
     (if is_whitespace c then word_count_from False cs
      else (if inw then 0 else 1) + word_count_from True cs)"

definition split_whitespace_count :: "string \<Rightarrow> nat" where
  "split_whitespace_count s = word_count_from False (chars s)"

lemma trim_by_id:
  assumes "xs \<noteq> []" and "\<not> P (hd xs)" and "\<not> P (last xs)"
  shows "trim_by P xs = xs"
proof -
  have "dropWhile P xs = xs" using assms by (cases xs) auto
  moreover have "dropWhile P (rev xs) = rev xs"
    using assms by (cases xs rule: rev_cases) auto
  ultimately show ?thesis by (simp add: trim_by_def)
qed

lemma trim_ascii_id:
  assumes "ascii s" and "\<And>c. c \<in> set s \<Longrightarrow> \<not> is_whitespace (of_char c)"
  shows "trim s = s"
proof (cases "s = []")
  case True
  then show ?thesis by (simp add: trim_def trim_by_def)
next
  case False
  have "trim_by (\<lambda>u. is_whitespace (fst u)) (uchars s) = uchars s"
    using False assms by (intro trim_by_id) (simp_all add: uchars_ascii hd_map last_map)
  then show ?thesis by (simp add: trim_def uchars_concat)
qed

lemma word_count_le: "word_count_from b cs \<le> length cs"
  by (induction b cs rule: word_count_from.induct) auto

lemma word_count_pos: "(\<exists>c \<in> set cs. \<not> is_whitespace c) \<Longrightarrow> 0 < word_count_from False cs"
  by (induction cs) auto

lemma word_count_zero_iff: "word_count_from False cs = 0 \<longleftrightarrow> (\<forall>c \<in> set cs. is_whitespace c)"
  by (induction cs) auto

end
