(* ===== verification/IEEE.thy ===== *)
theory IEEE
  imports Complex_Main Prelude
begin

text \<open>
  IEEE 754 binary floating point as Rust's \<open>f32\<close> and \<open>f64\<close> compute it: finite values are rationals,
  every operation is the exact rational result rounded to nearest, ties to even, with signed zeros,
  infinities and one quiet NaN. Everything is executable. The laws proved here are the ones the
  ranking and threshold code rests on: rounding is monotone, hence so are addition and division.
\<close>

section \<open>Formats and values\<close>

text \<open>\<open>qmin\<close> is the exponent of the smallest subnormal, \<open>emax\<close> the largest exponent.\<close>

record fl_fmt =
  prec :: nat
  qmin :: int
  emax :: int

definition binary32 :: fl_fmt where
  "binary32 = \<lparr>prec = 24, qmin = - 149, emax = 127\<rparr>"

definition binary64 :: fl_fmt where
  "binary64 = \<lparr>prec = 53, qmin = - 1074, emax = 1023\<rparr>"

text \<open>\<open>Fin 0\<close> is the positive zero.\<close>

datatype fl = NaN | PInf | NInf | NZero | Fin rat

type_synonym f32 = fl
type_synonym f64 = fl

fun fval :: "fl \<Rightarrow> rat" where
  "fval (Fin r) = r"
| "fval _ = 0"

fun fneg_sign :: "fl \<Rightarrow> bool" where
  "fneg_sign NInf = True"
| "fneg_sign NZero = True"
| "fneg_sign (Fin r) = (r < 0)"
| "fneg_sign _ = False"

fun is_finite :: "fl \<Rightarrow> bool" where
  "is_finite NZero = True"
| "is_finite (Fin r) = True"
| "is_finite _ = False"

definition is_zero :: "fl \<Rightarrow> bool" where
  "is_zero a \<longleftrightarrow> a = NZero \<or> a = Fin 0"

section \<open>Rounding\<close>

text \<open>Bit length of a positive integer, on \<open>int\<close> so that it evaluates on binary numerals.\<close>

function bit_len :: "int \<Rightarrow> int" where
  "bit_len n = (if n \<le> 0 then 0 else 1 + bit_len (n div 2))"
  by pat_completeness auto
termination
  by (relation "measure nat") auto

declare bit_len.simps [simp del]

text \<open>The exponent \<open>e\<close> with \<open>2\<^sup>e \<le> |x| < 2\<^sup>e\<^sup>+\<^sup>1\<close>, from the bit lengths of numerator and denominator.\<close>

definition rat_exp :: "rat \<Rightarrow> int" where
  "rat_exp x =
     (let (n, d) = quotient_of \<bar>x\<bar>;
          e = bit_len n - bit_len d
      in if 2 powi e \<le> \<bar>x\<bar> then e else e - 1)"

text \<open>Nearest integer, ties to even.\<close>

definition rhe :: "rat \<Rightarrow> int" where
  "rhe r = (let f = \<lfloor>r\<rfloor>; t = r - of_int f
            in if t < 1 / 2 then f else if 1 / 2 < t then f + 1 else if even f then f else f + 1)"

definition quantum_exp :: "fl_fmt \<Rightarrow> rat \<Rightarrow> int" where
  "quantum_exp f x = max (rat_exp x - int (prec f) + 1) (qmin f)"

definition rnd_val :: "fl_fmt \<Rightarrow> rat \<Rightarrow> rat" where
  "rnd_val f x = of_int (rhe (x / 2 powi quantum_exp f x)) * 2 powi quantum_exp f x"

definition rnd :: "fl_fmt \<Rightarrow> rat \<Rightarrow> fl" where
  "rnd f x =
     (if x = 0 then Fin 0
      else let y = rnd_val f x
           in if 2 powi (emax f + 1) \<le> \<bar>y\<bar> then (if x < 0 then NInf else PInf)
              else if y = 0 then (if x < 0 then NZero else Fin 0)
              else Fin y)"

text \<open>A value of the format: a finite one is its own rounding.\<close>

definition is_fl :: "fl_fmt \<Rightarrow> fl \<Rightarrow> bool" where
  "is_fl f a = (case a of Fin r \<Rightarrow> rnd f r = Fin r | _ \<Rightarrow> True)"

section \<open>Operations\<close>

definition inf_of :: "bool \<Rightarrow> fl" where
  "inf_of neg = (if neg then NInf else PInf)"

definition zero_of :: "bool \<Rightarrow> fl" where
  "zero_of neg = (if neg then NZero else Fin 0)"

fun fadd :: "fl_fmt \<Rightarrow> fl \<Rightarrow> fl \<Rightarrow> fl" where
  "fadd f NaN b = NaN"
| "fadd f a NaN = NaN"
| "fadd f PInf NInf = NaN"
| "fadd f NInf PInf = NaN"
| "fadd f PInf b = PInf"
| "fadd f NInf b = NInf"
| "fadd f a PInf = PInf"
| "fadd f a NInf = NInf"
| "fadd f NZero NZero = NZero"
| "fadd f a b = rnd f (fval a + fval b)"

definition fneg :: "fl \<Rightarrow> fl" where
  "fneg a = (case a of NaN \<Rightarrow> NaN | PInf \<Rightarrow> NInf | NInf \<Rightarrow> PInf | NZero \<Rightarrow> Fin 0
             | Fin r \<Rightarrow> if r = 0 then NZero else Fin (- r))"

definition fsub :: "fl_fmt \<Rightarrow> fl \<Rightarrow> fl \<Rightarrow> fl" where
  "fsub f a b = fadd f a (fneg b)"

definition fmul :: "fl_fmt \<Rightarrow> fl \<Rightarrow> fl \<Rightarrow> fl" where
  "fmul f a b =
     (let neg = (fneg_sign a \<noteq> fneg_sign b)
      in if a = NaN \<or> b = NaN then NaN
         else if \<not> is_finite a \<or> \<not> is_finite b
         then (if is_zero a \<or> is_zero b then NaN else inf_of neg)
         else if is_zero a \<or> is_zero b then zero_of neg
         else rnd f (fval a * fval b))"

definition fdiv :: "fl_fmt \<Rightarrow> fl \<Rightarrow> fl \<Rightarrow> fl" where
  "fdiv f a b =
     (let neg = (fneg_sign a \<noteq> fneg_sign b)
      in if a = NaN \<or> b = NaN then NaN
         else if \<not> is_finite a then (if is_finite b then inf_of neg else NaN)
         else if \<not> is_finite b then zero_of neg
         else if is_zero b then (if is_zero a then NaN else inf_of neg)
         else if is_zero a then zero_of neg
         else rnd f (fval a / fval b))"

text \<open>Integer square root, then a correctly rounded square root through a sticky half unit.\<close>

function isqrt :: "int \<Rightarrow> int" where
  "isqrt n = (if n \<le> 0 then 0
              else let r = 2 * isqrt (n div 4) in if (r + 1) * (r + 1) \<le> n then r + 1 else r)"
  by pat_completeness auto
termination
  by (relation "measure nat") auto

declare isqrt.simps [simp del]

definition sqrt_sticky :: "nat \<Rightarrow> rat \<Rightarrow> rat" where
  "sqrt_sticky k x =
     (let y = x * 4 ^ k; s = isqrt \<lfloor>y\<rfloor>
      in (of_int s + (if of_int (s * s) = y then 0 else 1 / 2)) / 2 ^ k)"

definition fsqrt :: "fl_fmt \<Rightarrow> fl \<Rightarrow> fl" where
  "fsqrt f a =
     (case a of NaN \<Rightarrow> NaN | PInf \<Rightarrow> PInf | NInf \<Rightarrow> NaN | NZero \<Rightarrow> NZero
      | Fin r \<Rightarrow> if r = 0 then Fin 0 else if r < 0 then NaN
        else rnd f (sqrt_sticky (nat (max 0 (int (prec f) + 1 - rat_exp r div 2))) r))"

text \<open>\<open>iter().sum()\<close> on floats starts from \<open>-0.0\<close>.\<close>

definition fsum :: "fl_fmt \<Rightarrow> fl list \<Rightarrow> fl" where
  "fsum f xs = foldl (fadd f) NZero xs"

definition fof_int :: "fl_fmt \<Rightarrow> int \<Rightarrow> fl" where
  "fof_int f i = rnd f (of_int i)"

text \<open>\<open>as f32\<close> of an \<open>f64\<close> rounds; \<open>f64::from\<close> of an \<open>f32\<close> is exact.\<close>

definition fcast :: "fl_fmt \<Rightarrow> fl \<Rightarrow> fl" where
  "fcast f a = (case a of Fin r \<Rightarrow> rnd f r | _ \<Rightarrow> a)"

section \<open>Comparison\<close>

definition fkey :: "fl \<Rightarrow> int \<times> rat" where
  "fkey a = (case a of NInf \<Rightarrow> (- 1, 0) | PInf \<Rightarrow> (1, 0) | Fin r \<Rightarrow> (0, r) | _ \<Rightarrow> (0, 0))"

definition fle :: "fl \<Rightarrow> fl \<Rightarrow> bool" where
  "fle a b \<longleftrightarrow> a \<noteq> NaN \<and> b \<noteq> NaN \<and>
     (fst (fkey a) < fst (fkey b) \<or> fst (fkey a) = fst (fkey b) \<and> snd (fkey a) \<le> snd (fkey b))"

definition flt :: "fl \<Rightarrow> fl \<Rightarrow> bool" where
  "flt a b \<longleftrightarrow> a \<noteq> NaN \<and> b \<noteq> NaN \<and> \<not> fle b a"

definition feq :: "fl \<Rightarrow> fl \<Rightarrow> bool" where
  "feq a b \<longleftrightarrow> fle a b \<and> fle b a"

text \<open>\<open>a.partial_cmp(&b).unwrap_or(Equal)\<close> is not \<open>Greater\<close>.\<close>

definition fcmp_le :: "fl \<Rightarrow> fl \<Rightarrow> bool" where
  "fcmp_le a b \<longleftrightarrow> \<not> flt b a"

text \<open>\<open>total_cmp\<close>: negative zero below positive zero, (positive) NaN above everything.\<close>

definition ftotal_le :: "fl \<Rightarrow> fl \<Rightarrow> bool" where
  "ftotal_le a b \<longleftrightarrow> b = NaN \<or> flt a b \<or> a = NZero \<and> feq a b \<or> (a = b) \<or> (feq a b \<and> b \<noteq> NZero)"

text \<open>\<open>f64::max\<close>: the other operand when one is NaN.\<close>

definition fmax :: "fl \<Rightarrow> fl \<Rightarrow> fl" where
  "fmax a b = (if a = NaN then b else if b = NaN then a else if flt a b then b else a)"

lemma fle_refl [simp]: "fle a a \<longleftrightarrow> a \<noteq> NaN"
  by (simp add: fle_def)

lemma fle_trans: "fle a b \<Longrightarrow> fle b c \<Longrightarrow> fle a c"
  by (auto simp: fle_def)

lemma fle_total: "a \<noteq> NaN \<Longrightarrow> b \<noteq> NaN \<Longrightarrow> fle a b \<or> fle b a"
  by (auto simp: fle_def)

lemma fle_Fin [simp]: "fle (Fin a) (Fin b) \<longleftrightarrow> a \<le> b"
  by (simp add: fle_def fkey_def)

lemma fle_PInf [simp]: "fle a PInf \<longleftrightarrow> a \<noteq> NaN"
  by (cases a) (auto simp: fle_def fkey_def)

lemma fle_NInf [simp]: "fle NInf a \<longleftrightarrow> a \<noteq> NaN"
  by (cases a) (auto simp: fle_def fkey_def)

lemma fle_NZero [simp]:
  "fle NZero b = fle (Fin 0) b" "fle a NZero = fle a (Fin 0)"
  by (cases b; auto simp: fle_def fkey_def) (cases a; auto simp: fle_def fkey_def)

lemma fle_infinities [simp]:
  "fle PInf (Fin r) \<longleftrightarrow> False" "fle (Fin r) NInf \<longleftrightarrow> False" "fle PInf NInf \<longleftrightarrow> False"
  by (simp_all add: fle_def fkey_def)

lemma fle_NaN [simp]: "\<not> fle NaN a" "\<not> fle a NaN"
  by (simp_all add: fle_def)

lemma fcmp_le_iff: "a \<noteq> NaN \<Longrightarrow> b \<noteq> NaN \<Longrightarrow> fcmp_le a b \<longleftrightarrow> fle a b"
  by (auto simp: fcmp_le_def flt_def)

interpretation desc: sort_order "\<lambda>a b. fcmp_le b a" "{a. a \<noteq> NaN}"
  by unfold_locales (auto simp: fcmp_le_iff dest: fle_total intro: fle_trans)

section \<open>Laws of rounding\<close>

lemma powi2_pos [simp]: "(0::rat) < 2 powi e"
  by (simp add: zero_less_power_int)

lemma powi2_le_iff: "(2::rat) powi a \<le> 2 powi b \<longleftrightarrow> a \<le> b"
proof
  assume "(2::rat) powi a \<le> 2 powi b"
  then show "a \<le> b"
    using power_int_strict_increasing[of b a "2::rat"] by (cases "a \<le> b") auto
next
  assume "a \<le> b"
  then show "(2::rat) powi a \<le> 2 powi b" by (intro power_int_increasing) auto
qed

lemma powi2_less_iff: "(2::rat) powi a < 2 powi b \<longleftrightarrow> a < b"
  by (meson linorder_not_le powi2_le_iff)

lemma powi2_add: "(2::rat) powi (a + b) = 2 powi a * 2 powi b"
  by (simp add: power_int_add)

lemma bit_len_nonneg: "0 \<le> bit_len n"
proof (induction n rule: bit_len.induct)
  case (1 n)
  then show ?case by (simp add: bit_len.simps [of n])
qed

lemma bit_len_bounds:
  assumes "0 < n"
  shows "(2::rat) powi (bit_len n - 1) \<le> of_int n \<and> of_int n < (2::rat) powi bit_len n"
  using assms
proof (induction n rule: bit_len.induct)
  case (1 n)
  then have rec: "bit_len n = 1 + bit_len (n div 2)" by (simp add: bit_len.simps [of n])
  show ?case
  proof (cases "n = 1")
    case True
    have "bit_len n = 1" using rec True by (simp add: bit_len.simps [of 0])
    then show ?thesis using True by simp
  next
    case False
    define m where "m = n div 2"
    have n2: "2 * m \<le> n" "n \<le> 2 * m + 1" by (simp_all add: m_def)
    have IH: "(2::rat) powi (bit_len m - 1) \<le> of_int m" "of_int m < (2::rat) powi bit_len m"
      using 1 False by (auto simp: m_def)
    have 0: "0 \<le> bit_len m" by (rule bit_len_nonneg)
    have two: "(2::rat) powi (1 + k) = 2 * 2 powi k" for k by (simp add: powi2_add)
    have "(2::rat) powi (bit_len n - 1) = 2 * 2 powi (bit_len m - 1)"
      using rec two[of "bit_len m - 1"] by (simp add: m_def)
    also have "\<dots> \<le> of_int (2 * m)" using IH(1) by simp
    also have "\<dots> \<le> of_int n" using n2(1) by (simp only: of_int_le_iff)
    finally have lo: "(2::rat) powi (bit_len n - 1) \<le> of_int n" .
    have "(2::rat) powi bit_len m = of_int (2 ^ nat (bit_len m))" using 0 by (simp add: power_int_def)
    then have "m < 2 ^ nat (bit_len m)" using IH(2) by (simp only: of_int_less_iff)
    then have "n < 2 * 2 ^ nat (bit_len m)" using n2(2) by simp
    then have "(of_int n :: rat) < of_int (2 * 2 ^ nat (bit_len m))" by (simp only: of_int_less_iff)
    also have "\<dots> = 2 powi bit_len n" using rec 0 two[of "bit_len m"] by (simp add: m_def power_int_def)
    finally show ?thesis using lo by simp
  qed
qed

lemma rat_exp_bounds:
  assumes "x \<noteq> 0"
  shows "2 powi rat_exp x \<le> \<bar>x\<bar>" and "\<bar>x\<bar> < 2 powi (rat_exp x + 1)"
proof -
  obtain n d where q: "quotient_of \<bar>x\<bar> = (n, d)" by fastforce
  have d: "0 < d" using quotient_of_denom_pos[OF q] .
  have x: "\<bar>x\<bar> = of_int n / of_int d" using quotient_of_div[OF q] .
  have "0 < (of_int n :: rat) / of_int d" using x assms by simp
  then have n: "0 < n" using d by (simp add: zero_less_divide_iff)
  define a where "a = bit_len n"
  define b where "b = bit_len d"
  have nb: "(2::rat) powi (a - 1) \<le> of_int n" "of_int n < (2::rat) powi a"
    using bit_len_bounds[OF n] by (simp_all add: a_def)
  have db: "(2::rat) powi (b - 1) \<le> of_int d" "of_int d < (2::rat) powi b"
    using bit_len_bounds[OF d] by (simp_all add: b_def)
  have D: "(0::rat) < of_int d" using d by simp
  have lo: "2 powi (a - b - 1) \<le> \<bar>x\<bar>"
  proof -
    have "2 powi (a - b - 1) * of_int d \<le> 2 powi (a - b - 1) * (2::rat) powi b"
      using db(2) by (intro mult_left_mono) (simp_all add: less_imp_le)
    also have "\<dots> = 2 powi (a - 1)" by (simp flip: powi2_add)
    also have "\<dots> \<le> of_int n" by (rule nb(1))
    finally show ?thesis using D by (simp add: x pos_le_divide_eq)
  qed
  have hi: "\<bar>x\<bar> < 2 powi (a - b + 1)"
  proof -
    have "of_int n < (2::rat) powi (a - b + 1) * 2 powi (b - 1)" using nb(2) by (simp flip: powi2_add)
    also have "\<dots> \<le> 2 powi (a - b + 1) * of_int d" using db(1) by (intro mult_left_mono) (simp_all add: less_imp_le)
    finally show ?thesis using D by (simp add: x pos_divide_less_eq)
  qed
  have e: "rat_exp x = (if 2 powi (a - b) \<le> \<bar>x\<bar> then a - b else a - b - 1)"
    by (simp add: rat_exp_def q a_def b_def Let_def)
  show "2 powi rat_exp x \<le> \<bar>x\<bar>" using e lo by simp
  show "\<bar>x\<bar> < 2 powi (rat_exp x + 1)" using e hi by (auto simp: algebra_simps)
qed

lemma rat_exp_minus [simp]: "rat_exp (- x) = rat_exp x"
  by (simp add: rat_exp_def)

lemma rat_exp_mono:
  assumes "x \<noteq> 0" and "\<bar>x\<bar> \<le> \<bar>y\<bar>"
  shows "rat_exp x \<le> rat_exp y"
proof -
  have "y \<noteq> 0" using assms by auto
  have "(2::rat) powi rat_exp x < 2 powi (rat_exp y + 1)"
    using rat_exp_bounds(1)[OF assms(1)] assms(2) rat_exp_bounds(2)[OF \<open>y \<noteq> 0\<close>] by linarith
  then show ?thesis by (simp add: powi2_less_iff)
qed

lemma rhe_cases:
  obtains "rhe r = \<lfloor>r\<rfloor>" "r - of_int \<lfloor>r\<rfloor> \<le> 1 / 2"
  | "rhe r = \<lfloor>r\<rfloor> + 1" "1 / 2 \<le> r - of_int \<lfloor>r\<rfloor>"
proof -
  define t where "t = r - of_int \<lfloor>r\<rfloor>"
  have r: "rhe r = (if t < 1 / 2 then \<lfloor>r\<rfloor> else if 1 / 2 < t then \<lfloor>r\<rfloor> + 1
                    else if even \<lfloor>r\<rfloor> then \<lfloor>r\<rfloor> else \<lfloor>r\<rfloor> + 1)"
    by (simp add: rhe_def t_def Let_def)
  consider "t < 1 / 2" | "1 / 2 < t" | "t = 1 / 2" by linarith
  then show ?thesis using that r by cases (auto simp: t_def split: if_splits)
qed

lemma rhe_near: "\<bar>of_int (rhe r) - r\<bar> \<le> 1 / 2"
proof -
  have "of_int \<lfloor>r\<rfloor> \<le> r" "r < of_int \<lfloor>r\<rfloor> + 1" by (rule of_int_floor_le) linarith
  then show ?thesis by (cases rule: rhe_cases[of r]) (simp_all add: abs_le_iff; linarith)+
qed

lemma rhe_of_int [simp]: "rhe (of_int n) = n"
  by (simp add: rhe_def)

lemma rhe_mono:
  assumes "r \<le> s"
  shows "rhe r \<le> rhe s"
proof (cases "\<lfloor>r\<rfloor> = \<lfloor>s\<rfloor>")
  case True
  with assms show ?thesis by (auto simp: rhe_def Let_def)
next
  case False
  have "\<lfloor>r\<rfloor> \<le> \<lfloor>s\<rfloor>" using assms by (rule floor_mono)
  with False have "\<lfloor>r\<rfloor> + 1 \<le> \<lfloor>s\<rfloor>" by simp
  moreover have "rhe r \<le> \<lfloor>r\<rfloor> + 1" by (rule rhe_cases[of r]) auto
  moreover have "\<lfloor>s\<rfloor> \<le> rhe s" by (rule rhe_cases[of s]) auto
  ultimately show ?thesis by linarith
qed

lemma rhe_minus: "rhe (- r) = - rhe r"
proof (cases "r = of_int \<lfloor>r\<rfloor>")
  case True
  then show ?thesis by (metis of_int_minus rhe_of_int)
next
  case False
  have f: "\<lfloor>- r\<rfloor> = - \<lfloor>r\<rfloor> - 1"
  proof (rule floor_unique)
    have "of_int \<lfloor>r\<rfloor> \<le> r" by (rule of_int_floor_le)
    with False have "of_int \<lfloor>r\<rfloor> < r" by linarith
    then show "- r < of_int (- \<lfloor>r\<rfloor> - 1) + 1" by simp
    show "of_int (- \<lfloor>r\<rfloor> - 1) \<le> - r" using floor_correct[of r] by simp
  qed
  show ?thesis unfolding rhe_def Let_def f by (auto simp: field_simps)
qed

lemma rnd_val_minus: "rnd_val f (- x) = - rnd_val f x"
  by (simp add: rnd_val_def quantum_exp_def rhe_minus flip: minus_divide_left)

lemma rnd_val_nonneg: "0 \<le> x \<Longrightarrow> 0 \<le> rnd_val f x"
proof -
  assume "0 \<le> x"
  then have "rhe (of_int 0) \<le> rhe (x / 2 powi quantum_exp f x)" by (intro rhe_mono) simp
  then have "0 \<le> rhe (x / 2 powi quantum_exp f x)" by (simp only: rhe_of_int)
  then show ?thesis by (simp add: rnd_val_def)
qed

text \<open>A multiple of the quantum bounds the rounding from the side it lies on.\<close>

lemma rnd_val_le_multiple: "x \<le> of_int m * 2 powi quantum_exp f x \<Longrightarrow> rnd_val f x \<le> of_int m * 2 powi quantum_exp f x"
proof -
  assume "x \<le> of_int m * 2 powi quantum_exp f x"
  then have "x / 2 powi quantum_exp f x \<le> of_int m" by (simp add: pos_divide_le_eq)
  then have "rhe (x / 2 powi quantum_exp f x) \<le> m" using rhe_mono rhe_of_int by metis
  then show ?thesis by (simp add: rnd_val_def mult_right_mono less_imp_le)
qed

lemma rnd_val_ge_multiple: "of_int m * 2 powi quantum_exp f x \<le> x \<Longrightarrow> of_int m * 2 powi quantum_exp f x \<le> rnd_val f x"
proof -
  assume "of_int m * 2 powi quantum_exp f x \<le> x"
  then have "of_int m \<le> x / 2 powi quantum_exp f x" by (simp add: pos_le_divide_eq)
  then have "m \<le> rhe (x / 2 powi quantum_exp f x)" using rhe_mono rhe_of_int by metis
  then show ?thesis by (simp add: rnd_val_def mult_right_mono less_imp_le)
qed

lemma powi2_multiple: "q \<le> e \<Longrightarrow> \<exists>m. (2::rat) powi e = of_int m * 2 powi q"
proof -
  assume "q \<le> e"
  then have "(2::rat) powi (e - q) = of_int (2 ^ nat (e - q))" by (simp add: power_int_def)
  moreover have "(2::rat) powi e = 2 powi (e - q) * 2 powi q" by (simp flip: powi2_add)
  ultimately show ?thesis by metis
qed

lemma rnd_val_mono_pos:
  assumes "0 < x" and "x \<le> y" and "0 < prec f"
  shows "rnd_val f x \<le> rnd_val f y"
proof -
  have y: "0 < y" using assms by simp
  have ee: "rat_exp x \<le> rat_exp y" using assms by (intro rat_exp_mono) auto
  have qq: "quantum_exp f x \<le> quantum_exp f y" using ee by (auto simp: quantum_exp_def)
  show ?thesis
  proof (cases "quantum_exp f x = quantum_exp f y")
    case True
    have "rhe (x / 2 powi quantum_exp f x) \<le> rhe (y / 2 powi quantum_exp f y)"
      using assms True by (intro rhe_mono) (simp add: divide_right_mono less_imp_le)
    then show ?thesis by (simp add: rnd_val_def True mult_right_mono less_imp_le)
  next
    case False
    with qq have lt: "quantum_exp f x < quantum_exp f y" by simp
    then have "quantum_exp f y = rat_exp y - int (prec f) + 1" "rat_exp x < rat_exp y"
      using ee by (auto simp: quantum_exp_def max_def split: if_splits)
    then have qe: "quantum_exp f y \<le> rat_exp y" using assms(3) by simp
    obtain m where m: "(2::rat) powi rat_exp y = of_int m * 2 powi quantum_exp f x"
      using powi2_multiple[of "quantum_exp f x" "rat_exp y"] qe lt by auto
    obtain n where n: "(2::rat) powi rat_exp y = of_int n * 2 powi quantum_exp f y"
      using powi2_multiple[OF qe] by auto
    have "x < 2 powi (rat_exp x + 1)" using rat_exp_bounds(2)[of x] assms(1) by simp
    also have "\<dots> \<le> 2 powi rat_exp y" using \<open>rat_exp x < rat_exp y\<close> by (simp add: powi2_le_iff)
    finally have "rnd_val f x \<le> 2 powi rat_exp y"
      using rnd_val_le_multiple[of x m f] by (simp add: m)
    moreover have "2 powi rat_exp y \<le> rnd_val f y"
      using rnd_val_ge_multiple[of n f y] rat_exp_bounds(1)[of y] y by (simp add: n)
    ultimately show ?thesis by simp
  qed
qed

lemma rnd_val_zero [simp]: "rnd_val f 0 = 0"
  using rhe_of_int[of 0] by (simp add: rnd_val_def)

theorem rnd_val_mono:
  assumes "x \<le> y" and "0 < prec f"
  shows "rnd_val f x \<le> rnd_val f y"
proof -
  consider "0 < x" | "y < 0" | "x \<le> 0" "0 \<le> y" by linarith
  then show ?thesis
  proof cases
    case 1
    then show ?thesis using assms by (rule rnd_val_mono_pos)
  next
    case 2
    then have "rnd_val f (- y) \<le> rnd_val f (- x)" using assms by (intro rnd_val_mono_pos) auto
    then show ?thesis by (simp add: rnd_val_minus)
  next
    case 3
    have "0 \<le> rnd_val f (- x)" using 3(1) by (intro rnd_val_nonneg) simp
    then show ?thesis using rnd_val_nonneg[OF 3(2), of f] by (simp add: rnd_val_minus)
  qed
qed

section \<open>Monotone operations\<close>

lemma rnd_val_nonpos: "x \<le> 0 \<Longrightarrow> rnd_val f x \<le> 0"
  using rnd_val_nonneg[of "- x" f] by (simp add: rnd_val_minus)

lemma rnd_alt:
  "rnd f x =
     (let y = rnd_val f x; r = 2 powi (emax f + 1)
      in if r \<le> y then PInf else if y \<le> - r then NInf
         else if y = 0 \<and> x < 0 then NZero else Fin y)"
proof -
  have r: "(0::rat) < 2 powi (emax f + 1)" by simp
  then have nr: "\<not> (2::rat) powi (emax f + 1) \<le> 0" by (simp only: not_le)
  consider "x = 0" | "0 < x" | "x < 0" by linarith
  then show ?thesis
  proof cases
    case 1
    then show ?thesis using nr by (simp add: rnd_def Let_def)
  next
    case 2
    then have "0 \<le> rnd_val f x" by (intro rnd_val_nonneg) simp
    with 2 r show ?thesis by (auto simp: rnd_def Let_def)
  next
    case 3
    then have y: "rnd_val f x \<le> 0" by (intro rnd_val_nonpos) simp
    have "\<not> 2 powi (emax f + 1) \<le> rnd_val f x" using y r by linarith
    with 3 y nr show ?thesis by (auto simp: rnd_def Let_def)
  qed
qed

lemma rnd_not_NaN [simp]: "rnd f x \<noteq> NaN"
  by (simp add: rnd_alt Let_def)

lemma rnd_zero [simp]: "rnd f 0 = Fin 0"
  by (simp add: rnd_def)

lemma rnd_mono:
  assumes "x \<le> y" and "0 < prec f"
  shows "fle (rnd f x) (rnd f y)"
proof -
  have "rnd_val f x \<le> rnd_val f y" using assms by (rule rnd_val_mono)
  moreover have "(0::rat) < 2 powi (emax f + 1)" by simp
  ultimately show ?thesis by (simp add: rnd_alt Let_def)
qed

text \<open>A number with at most \<open>prec\<close> significant bits in range is its own rounding.\<close>

lemma rnd_val_exact:
  assumes "x = of_int m * 2 powi e" and "\<bar>m\<bar> < 2 ^ prec f" and "qmin f \<le> e"
  shows "rnd_val f x = x"
proof (cases "m = 0")
  case True
  then show ?thesis using assms(1) by simp
next
  case False
  then have x: "x \<noteq> 0" using assms(1) by simp
  have "(of_int \<bar>m\<bar> :: rat) < of_int (2 ^ prec f)" using assms(2) by (simp only: of_int_less_iff)
  then have "\<bar>x\<bar> < 2 ^ prec f * 2 powi e" using assms(1) by (simp add: abs_mult)
  also have "\<dots> = 2 powi (int (prec f) + e)" by (simp add: powi2_add)
  finally have "(2::rat) powi rat_exp x < 2 powi (int (prec f) + e)"
    using rat_exp_bounds(1)[OF x] by linarith
  then have "rat_exp x < int (prec f) + e" by (simp add: powi2_less_iff)
  then have "quantum_exp f x \<le> e" using assms(3) by (simp add: quantum_exp_def)
  then obtain k where "(2::rat) powi e = of_int k * 2 powi quantum_exp f x" using powi2_multiple by blast
  then have "x = of_int (m * k) * 2 powi quantum_exp f x" using assms(1) by simp
  then have "x / 2 powi quantum_exp f x = of_int (m * k)" by (simp add: field_simps)
  then have "rnd_val f x = of_int (m * k) * 2 powi quantum_exp f x"
    unfolding rnd_val_def by (simp only: rhe_of_int)
  then show ?thesis using \<open>x = of_int (m * k) * 2 powi quantum_exp f x\<close> by simp
qed

lemma rnd_exact:
  assumes "x = of_int m * 2 powi e" and "\<bar>m\<bar> < 2 ^ prec f" and "qmin f \<le> e"
    and "\<bar>x\<bar> < 2 powi (emax f + 1)"
  shows "rnd f x = Fin x"
  using rnd_val_exact[OF assms(1-3)] assms(4) by (auto simp: rnd_def)

lemma rnd_small_int:
  assumes "\<bar>n\<bar> < 2 ^ prec f" and "qmin f \<le> 0" and "int (prec f) \<le> emax f + 1"
  shows "rnd f (of_int n) = Fin (of_int n)"
proof (rule rnd_exact[where m = n and e = 0])
  have "(of_int \<bar>n\<bar> :: rat) < of_int (2 ^ prec f)" using assms(1) by (simp only: of_int_less_iff)
  also have "\<dots> = 2 powi int (prec f)" by simp
  also have "\<dots> \<le> 2 powi (emax f + 1)" using assms(3) by (simp only: powi2_le_iff)
  finally show "\<bar>of_int n :: rat\<bar> < 2 powi (emax f + 1)" by simp
qed (use assms in simp_all)

lemma rnd_nonneg: "0 \<le> x \<Longrightarrow> 0 < prec f \<Longrightarrow> fle (Fin 0) (rnd f x)"
  using rnd_mono[of 0 x f] by simp

text \<open>Positive or not, zeros compare by value, so sums of finite values compare as their roundings.\<close>

lemma fadd_finite:
  assumes "is_finite a" and "is_finite b"
  shows "fadd f a b = rnd f (fval a + fval b) \<or> fadd f a b = NZero \<and> fval a + fval b = 0"
  using assms by (cases a; cases b) auto

lemma fle_fadd_finite:
  assumes "is_finite a" and "is_finite b"
  shows "fle (fadd f a b) z \<longleftrightarrow> fle (rnd f (fval a + fval b)) z"
    and "fle z (fadd f a b) \<longleftrightarrow> fle z (rnd f (fval a + fval b))"
  using fadd_finite[OF assms, of f] by auto

lemma fle_fval: "is_finite a \<Longrightarrow> is_finite b \<Longrightarrow> fle a b \<longleftrightarrow> fval a \<le> fval b"
  by (cases a; cases b) auto

lemma fadd_mono_left:
  assumes "fle a b" and "fadd f a c \<noteq> NaN" and "fadd f b c \<noteq> NaN" and "0 < prec f"
  shows "fle (fadd f a c) (fadd f b c)"
proof (cases "is_finite a \<and> is_finite b \<and> is_finite c")
  case True
  then have "fval a + fval c \<le> fval b + fval c" using assms(1) by (simp add: fle_fval)
  then show ?thesis using True assms(4) by (simp add: fle_fadd_finite rnd_mono)
next
  case False
  then show ?thesis using assms(1-3) by (cases a; cases b; cases c) auto
qed

lemma fadd_comm: "fadd f a b = fadd f b a"
  by (cases a; cases b) (simp_all add: add.commute)

lemma fadd_mono:
  assumes "fle a b" and "fle c d" and "0 < prec f"
    and "fadd f a c \<noteq> NaN" and "fadd f b c \<noteq> NaN" and "fadd f b d \<noteq> NaN"
  shows "fle (fadd f a c) (fadd f b d)"
proof -
  have "fle (fadd f a c) (fadd f b c)" using assms by (intro fadd_mono_left)
  also have "fle (fadd f b c) (fadd f b d)"
    using fadd_mono_left[of c d f b] assms by (simp add: fadd_comm)
  finally (fle_trans) show ?thesis .
qed

text \<open>Non-negative values are closed under addition and never meet the \<open>inf - inf\<close> case.\<close>

definition fnonneg :: "fl \<Rightarrow> bool" where
  "fnonneg a \<longleftrightarrow> fle (Fin 0) a"

lemma fnonneg_not_NaN: "fnonneg a \<Longrightarrow> a \<noteq> NaN"
  by (auto simp: fnonneg_def)

lemma fnonneg_add_not_NaN: "fnonneg a \<Longrightarrow> fnonneg b \<Longrightarrow> fadd f a b \<noteq> NaN"
  by (cases a; cases b) (auto simp: fnonneg_def)

lemma fnonneg_add: "fnonneg a \<Longrightarrow> fnonneg b \<Longrightarrow> 0 < prec f \<Longrightarrow> fnonneg (fadd f a b)"
  using rnd_nonneg[of "fval a + fval b" f]
  by (cases a; cases b) (auto simp: fnonneg_def)

lemma fnonneg_add_mono:
  assumes "fnonneg a" and "fnonneg c" and "fle a b" and "fle c d" and "0 < prec f"
  shows "fle (fadd f a c) (fadd f b d)"
proof -
  have "fnonneg b" "fnonneg d" using assms(1-4) by (auto simp: fnonneg_def intro: fle_trans)
  with assms show ?thesis by (intro fadd_mono) (auto simp: fnonneg_add_not_NaN)
qed

text \<open>Dividing a non-negative value by a positive finite one is antitone in the divisor.\<close>

lemma fdiv_Fin_pos:
  assumes "fnonneg w" and "0 < d"
  shows "fdiv f w (Fin d) =
    (if w = PInf then PInf else if w = NZero then NZero else rnd f (fval w / d))"
  using assms by (cases w) (auto simp: fdiv_def fnonneg_def is_zero_def zero_of_def inf_of_def)

lemma fnonneg_fdiv:
  assumes "fnonneg w" and "0 < d" and "0 < prec f"
  shows "fnonneg (fdiv f w (Fin d))"
  using assms rnd_nonneg[of "fval w / d" f]
  by (cases w) (auto simp: fdiv_Fin_pos fnonneg_def)

lemma fdiv_antimono:
  assumes "fnonneg w" and "0 < d" and "d \<le> e" and "0 < prec f"
  shows "fle (fdiv f w (Fin e)) (fdiv f w (Fin d))"
proof (cases "w = PInf \<or> w = NZero")
  case True
  then show ?thesis using assms by (auto simp: fdiv_Fin_pos)
next
  case False
  have "0 \<le> fval w" using assms(1) by (cases w) (auto simp: fnonneg_def)
  then have "fval w / e \<le> fval w / d" using assms by (intro divide_left_mono) auto
  then show ?thesis using assms False by (simp add: fdiv_Fin_pos rnd_mono)
qed

lemma prec_pos [simp]: "0 < prec binary32" "0 < prec binary64"
  by (simp_all add: binary32_def binary64_def)

end
