(* ===== verification/CoreTypes.thy ===== *)
theory CoreTypes
  imports Prelude
begin

text \<open>
  The enumerations that cross the SQL boundary as strings, with their \<open>as_str\<close> and \<open>parse\<close>:
  \<open>ProviderKind\<close> (\<^verbatim>\<open>types.rs\<close>), retrieval \<open>Mode\<close> (\<^verbatim>\<open>retrieval/mode.rs\<close>), \<open>IngestProfile\<close> and its
  concurrency (\<^verbatim>\<open>ingest/profile.rs\<close>, \<^verbatim>\<open>ingest/profile_resolve.rs\<close>) and \<open>ChunkStrategy\<close>
  (\<^verbatim>\<open>chunking/strategy.rs\<close>). The contract they share, that the label is a stable round-trip name, is
  the locale \<open>labelled_enum\<close>, interpreted on each.
\<close>

section \<open>The contract of a labelled enumeration\<close>

locale labelled_enum =
  fixes as_str :: "'a :: enum \<Rightarrow> string" and parse :: "string \<Rightarrow> 'a option"
  assumes parse_as_str: "parse (as_str x) = Some x"
    and as_str_parse: "parse s = Some x \<Longrightarrow> as_str x = s"
begin

lemma as_str_inj: "as_str x = as_str y \<longleftrightarrow> x = y"
  by (metis option.inject parse_as_str)

lemma parse_iff: "parse s = Some x \<longleftrightarrow> s = as_str x"
  using parse_as_str as_str_parse by blast

lemma parse_None_iff: "parse s = None \<longleftrightarrow> s \<notin> range as_str"
  by (metis as_str_parse not_None_eq parse_as_str rangeE rangeI)

lemma parse_inj: "parse s = Some x \<Longrightarrow> parse t = Some x \<Longrightarrow> s = t"
  by (simp add: parse_iff)

text \<open>The reference parser: the first value of the enumeration with that label.\<close>

lemma parse_find: "parse s = find (\<lambda>x. as_str x = s) Enum.enum"
proof (cases "find (\<lambda>x. as_str x = s) Enum.enum")
  case None
  then have "s \<notin> range as_str" by (auto simp: find_None_iff enum_UNIV)
  with None show ?thesis by (simp add: parse_None_iff)
next
  case (Some x)
  then have "as_str x = s" by (auto simp: find_Some_iff)
  with Some show ?thesis by (auto simp: parse_as_str)
qed

end

section \<open>Provider kinds\<close>

datatype provider_kind = KLlm | KEmbedding

instantiation provider_kind :: enum
begin

definition "enum_provider_kind = [KLlm, KEmbedding]"
definition "enum_all_provider_kind P \<longleftrightarrow> P KLlm \<and> P KEmbedding"
definition "enum_ex_provider_kind P \<longleftrightarrow> P KLlm \<or> P KEmbedding"

instance
proof
  have univ: "(UNIV :: provider_kind set) = {KLlm, KEmbedding}"
    by (auto intro: provider_kind.exhaust)
  show "(UNIV :: provider_kind set) = set Enum.enum" by (simp add: univ enum_provider_kind_def)
  show "distinct (Enum.enum :: provider_kind list)" by (simp add: enum_provider_kind_def)
  show "Enum.enum_all P \<longleftrightarrow> Ball UNIV P" for P :: "provider_kind \<Rightarrow> bool" by (simp add: univ enum_all_provider_kind_def)
  show "Enum.enum_ex P \<longleftrightarrow> Bex UNIV P" for P :: "provider_kind \<Rightarrow> bool" by (simp add: univ enum_ex_provider_kind_def)
qed

end

fun provider_kind_as_str :: "provider_kind \<Rightarrow> string" where
  "provider_kind_as_str KLlm = ''llm''"
| "provider_kind_as_str KEmbedding = ''embedding''"

definition provider_kind_parse :: "string \<Rightarrow> provider_kind option" where
  "provider_kind_parse s =
     (if s = ''llm'' then Some KLlm
      else if s = ''embedding'' then Some KEmbedding
      else None)"

interpretation provider_kind: labelled_enum provider_kind_as_str provider_kind_parse
proof unfold_locales
  show "provider_kind_parse (provider_kind_as_str x) = Some x" for x
    by (cases x) (simp_all add: provider_kind_parse_def)
  show "provider_kind_parse s = Some x \<Longrightarrow> provider_kind_as_str x = s" for s x
    by (auto simp: provider_kind_parse_def split: if_splits)
qed

section \<open>Retrieval modes\<close>

datatype mode = Hybrid | Vector | Bm25 | Graph

instantiation mode :: enum
begin

definition "enum_mode = [Hybrid, Vector, Bm25, Graph]"
definition "enum_all_mode P \<longleftrightarrow> P Hybrid \<and> P Vector \<and> P Bm25 \<and> P Graph"
definition "enum_ex_mode P \<longleftrightarrow> P Hybrid \<or> P Vector \<or> P Bm25 \<or> P Graph"

instance
proof
  have univ: "(UNIV :: mode set) = {Hybrid, Vector, Bm25, Graph}"
    by (auto intro: mode.exhaust)
  show "(UNIV :: mode set) = set Enum.enum" by (simp add: univ enum_mode_def)
  show "distinct (Enum.enum :: mode list)" by (simp add: enum_mode_def)
  show "Enum.enum_all P \<longleftrightarrow> Ball UNIV P" for P :: "mode \<Rightarrow> bool" by (simp add: univ enum_all_mode_def)
  show "Enum.enum_ex P \<longleftrightarrow> Bex UNIV P" for P :: "mode \<Rightarrow> bool" by (simp add: univ enum_ex_mode_def)
qed

end

definition mode_default :: mode where
  "mode_default = Hybrid"

fun mode_as_str :: "mode \<Rightarrow> string" where
  "mode_as_str Hybrid = ''hybrid''"
| "mode_as_str Vector = ''vector''"
| "mode_as_str Bm25 = ''bm25''"
| "mode_as_str Graph = ''graph''"

definition mode_parse :: "string \<Rightarrow> mode option" where
  "mode_parse s =
     (if s = ''hybrid'' then Some Hybrid
      else if s = ''vector'' then Some Vector
      else if s = ''bm25'' then Some Bm25
      else if s = ''graph'' then Some Graph
      else None)"

definition uses_vector :: "mode \<Rightarrow> bool" where
  "uses_vector m = (case m of Hybrid \<Rightarrow> True | Vector \<Rightarrow> True | _ \<Rightarrow> False)"

definition uses_bm25 :: "mode \<Rightarrow> bool" where
  "uses_bm25 m = (case m of Hybrid \<Rightarrow> True | Bm25 \<Rightarrow> True | _ \<Rightarrow> False)"

definition uses_graph :: "mode \<Rightarrow> bool" where
  "uses_graph m = (case m of Hybrid \<Rightarrow> True | Graph \<Rightarrow> True | _ \<Rightarrow> False)"

interpretation mode: labelled_enum mode_as_str mode_parse
proof unfold_locales
  show "mode_parse (mode_as_str x) = Some x" for x
    by (cases x) (simp_all add: mode_parse_def)
  show "mode_parse s = Some x \<Longrightarrow> mode_as_str x = s" for s x
    by (auto simp: mode_parse_def split: if_splits)
qed

lemma uses_simps [simp]:
  "uses_vector m \<longleftrightarrow> m = Hybrid \<or> m = Vector"
  "uses_bm25 m \<longleftrightarrow> m = Hybrid \<or> m = Bm25"
  "uses_graph m \<longleftrightarrow> m = Hybrid \<or> m = Graph"
  by (cases m; simp add: uses_vector_def uses_bm25_def uses_graph_def)+

section \<open>Ingest profiles\<close>

datatype ingest_profile = Conservative | Balanced | Aggressive | MaxProfile

instantiation ingest_profile :: enum
begin

definition "enum_ingest_profile = [Conservative, Balanced, Aggressive, MaxProfile]"
definition "enum_all_ingest_profile P \<longleftrightarrow> P Conservative \<and> P Balanced \<and> P Aggressive \<and> P MaxProfile"
definition "enum_ex_ingest_profile P \<longleftrightarrow> P Conservative \<or> P Balanced \<or> P Aggressive \<or> P MaxProfile"

instance
proof
  have univ: "(UNIV :: ingest_profile set) = {Conservative, Balanced, Aggressive, MaxProfile}"
    by (auto intro: ingest_profile.exhaust)
  show "(UNIV :: ingest_profile set) = set Enum.enum" by (simp add: univ enum_ingest_profile_def)
  show "distinct (Enum.enum :: ingest_profile list)" by (simp add: enum_ingest_profile_def)
  show "Enum.enum_all P \<longleftrightarrow> Ball UNIV P" for P :: "ingest_profile \<Rightarrow> bool" by (simp add: univ enum_all_ingest_profile_def)
  show "Enum.enum_ex P \<longleftrightarrow> Bex UNIV P" for P :: "ingest_profile \<Rightarrow> bool" by (simp add: univ enum_ex_ingest_profile_def)
qed

end

definition ingest_profile_default :: ingest_profile where
  "ingest_profile_default = Balanced"

fun ingest_profile_as_str :: "ingest_profile \<Rightarrow> string" where
  "ingest_profile_as_str Conservative = ''conservative''"
| "ingest_profile_as_str Balanced = ''balanced''"
| "ingest_profile_as_str Aggressive = ''aggressive''"
| "ingest_profile_as_str MaxProfile = ''max''"

definition ingest_profile_parse :: "string \<Rightarrow> ingest_profile option" where
  "ingest_profile_parse s =
     (if s = ''conservative'' then Some Conservative
      else if s = ''balanced'' then Some Balanced
      else if s = ''aggressive'' then Some Aggressive
      else if s = ''max'' then Some MaxProfile
      else None)"

fun profile_extract_concurrency :: "ingest_profile \<Rightarrow> 32 word" where
  "profile_extract_concurrency Conservative = 2"
| "profile_extract_concurrency Balanced = 4"
| "profile_extract_concurrency Aggressive = 8"
| "profile_extract_concurrency MaxProfile = 16"

definition resolve_concurrency :: "ingest_profile option \<Rightarrow> 32 word \<Rightarrow> 32 word" where
  "resolve_concurrency profile guc_default =
     (case profile of None \<Rightarrow> guc_default | Some p \<Rightarrow> profile_extract_concurrency p)"

interpretation ingest_profile: labelled_enum ingest_profile_as_str ingest_profile_parse
proof unfold_locales
  show "ingest_profile_parse (ingest_profile_as_str x) = Some x" for x
    by (cases x) (simp_all add: ingest_profile_parse_def)
  show "ingest_profile_parse s = Some x \<Longrightarrow> ingest_profile_as_str x = s" for s x
    by (auto simp: ingest_profile_parse_def split: if_splits)
qed

section \<open>Chunking strategies\<close>

datatype chunk_strategy = Auto | Hierarchy | Semantic | SentenceAware | FixedOverlap | NeighborExpand

instantiation chunk_strategy :: enum
begin

definition "enum_chunk_strategy = [Auto, Hierarchy, Semantic, SentenceAware, FixedOverlap, NeighborExpand]"
definition "enum_all_chunk_strategy P \<longleftrightarrow> P Auto \<and> P Hierarchy \<and> P Semantic \<and> P SentenceAware \<and> P FixedOverlap \<and> P NeighborExpand"
definition "enum_ex_chunk_strategy P \<longleftrightarrow> P Auto \<or> P Hierarchy \<or> P Semantic \<or> P SentenceAware \<or> P FixedOverlap \<or> P NeighborExpand"

instance
proof
  have univ: "(UNIV :: chunk_strategy set) = {Auto, Hierarchy, Semantic, SentenceAware, FixedOverlap, NeighborExpand}"
    by (auto intro: chunk_strategy.exhaust)
  show "(UNIV :: chunk_strategy set) = set Enum.enum" by (simp add: univ enum_chunk_strategy_def)
  show "distinct (Enum.enum :: chunk_strategy list)" by (simp add: enum_chunk_strategy_def)
  show "Enum.enum_all P \<longleftrightarrow> Ball UNIV P" for P :: "chunk_strategy \<Rightarrow> bool" by (simp add: univ enum_all_chunk_strategy_def)
  show "Enum.enum_ex P \<longleftrightarrow> Bex UNIV P" for P :: "chunk_strategy \<Rightarrow> bool" by (simp add: univ enum_ex_chunk_strategy_def)
qed

end

definition chunk_strategy_default :: chunk_strategy where
  "chunk_strategy_default = Auto"

fun chunk_strategy_as_str :: "chunk_strategy \<Rightarrow> string" where
  "chunk_strategy_as_str Auto = ''auto''"
| "chunk_strategy_as_str Hierarchy = ''hierarchy''"
| "chunk_strategy_as_str Semantic = ''semantic''"
| "chunk_strategy_as_str SentenceAware = ''sentence_aware''"
| "chunk_strategy_as_str FixedOverlap = ''fixed_overlap''"
| "chunk_strategy_as_str NeighborExpand = ''neighbor_expand''"

definition chunk_strategy_parse :: "string \<Rightarrow> chunk_strategy option" where
  "chunk_strategy_parse s =
     (if s = ''auto'' then Some Auto
      else if s = ''hierarchy'' then Some Hierarchy
      else if s = ''semantic'' then Some Semantic
      else if s = ''sentence_aware'' then Some SentenceAware
      else if s = ''fixed_overlap'' then Some FixedOverlap
      else if s = ''neighbor_expand'' then Some NeighborExpand
      else None)"

interpretation chunk_strategy: labelled_enum chunk_strategy_as_str chunk_strategy_parse
proof unfold_locales
  show "chunk_strategy_parse (chunk_strategy_as_str x) = Some x" for x
    by (cases x) (simp_all add: chunk_strategy_parse_def)
  show "chunk_strategy_parse s = Some x \<Longrightarrow> chunk_strategy_as_str x = s" for s x
    by (auto simp: chunk_strategy_parse_def split: if_splits)
qed

end
