(* ===== verification/Rrf.thy ===== *)
theory Rrf
  imports IEEE RustStr
begin

text \<open>
  Reciprocal rank fusion (\<^verbatim>\<open>pg_raggraph_core/src/retrieval/rrf.rs\<close>): per-chunk scores accumulated in a
  hash map and sorted by descending score. The iteration order of the hash map is not specified, so
  it is the argument \<open>hash_iter\<close>, of which the code relies on one fact: it yields every entry once.
\<close>

section \<open>Data\<close>

definition RRF_K :: f64 where
  "RRF_K = Fin 60"

record lane_hit =
  hit_id :: i64
  hit_lane :: string
  hit_rk :: i64

record rrf_weights =
  w_vec :: f64
  w_bm25 :: f64
  w_graph :: f64

record scored_chunk =
  sc_id :: i64
  sc_score :: f64

definition rrf_weights_default :: rrf_weights where
  "rrf_weights_default = \<lparr>w_vec = Fin 1, w_bm25 = Fin 1, w_graph = Fin 1\<rparr>"

definition weight_for :: "rrf_weights \<Rightarrow> string \<Rightarrow> f64" where
  "weight_for w lane =
     (if lane = ''vec'' then w_vec w
      else if lane = ''bm25'' then w_bm25 w
      else if lane = ''graph'' then w_graph w
      else Fin 0)"

section \<open>Fusion\<close>

text \<open>\<open>hit.rk as f64\<close> reads the signed rank.\<close>

definition contribution :: "rrf_weights \<Rightarrow> lane_hit \<Rightarrow> f64" where
  "contribution w h =
     fdiv binary64 (weight_for w (hit_lane h))
       (fadd binary64 RRF_K (fof_int binary64 (sint (hit_rk h))))"

text \<open>\<open>*acc.entry(id).or_insert(0.0) += c\<close> on the map, kept as an association list.\<close>

fun acc_add :: "(i64 \<times> f64) list \<Rightarrow> i64 \<Rightarrow> f64 \<Rightarrow> (i64 \<times> f64) list" where
  "acc_add [] i c = [(i, fadd binary64 (Fin 0) c)]"
| "acc_add ((j, x) # m) i c =
     (if i = j then (j, fadd binary64 x c) # m else (j, x) # acc_add m i c)"

definition accumulate :: "rrf_weights \<Rightarrow> lane_hit list \<Rightarrow> (i64 \<times> f64) list" where
  "accumulate w hits = foldl (\<lambda>m h. acc_add m (hit_id h) (contribution w h)) [] hits"

definition fuse ::
  "((i64 \<times> f64) list \<Rightarrow> (i64 \<times> f64) list) \<Rightarrow> lane_hit list \<Rightarrow> rrf_weights \<Rightarrow> scored_chunk list" where
  "fuse hash_iter hits w =
     stable_sort (\<lambda>a b. fcmp_le (sc_score b) (sc_score a))
       (map (\<lambda>(i, s). \<lparr>sc_id = i, sc_score = s\<rparr>) (hash_iter (accumulate w hits)))"

text \<open>The score a chunk ends with: its contributions added in slice order, starting from \<open>0.0\<close>.\<close>

definition rrf_score :: "rrf_weights \<Rightarrow> lane_hit list \<Rightarrow> i64 \<Rightarrow> f64" where
  "rrf_score w hits i =
     foldl (fadd binary64) (Fin 0) (map (contribution w) (filter (\<lambda>h. hit_id h = i) hits))"

section \<open>The accumulated map\<close>

lemma map_of_acc_add:
  "map_of (acc_add m i c) =
     (map_of m)(i \<mapsto> fadd binary64 (case map_of m i of None \<Rightarrow> Fin 0 | Some x \<Rightarrow> x) c)"
  by (induction m i c rule: acc_add.induct) (auto simp: fun_eq_iff)

lemma fst_acc_add: "set (map fst (acc_add m i c)) = insert i (set (map fst m))"
  by (induction m i c rule: acc_add.induct) auto

lemma distinct_acc_add: "distinct (map fst m) \<Longrightarrow> distinct (map fst (acc_add m i c))"
proof (induction m i c rule: acc_add.induct)
  case (1 i c)
  then show ?case by simp
next
  case (2 j x m i c)
  then show ?case using fst_acc_add[of m i c] by auto
qed

lemma accumulate_snoc:
  "accumulate w (hits @ [h]) = acc_add (accumulate w hits) (hit_id h) (contribution w h)"
  by (simp add: accumulate_def)

lemma rrf_score_snoc:
  "rrf_score w (hits @ [h]) i =
     (if hit_id h = i then fadd binary64 (rrf_score w hits i) (contribution w h)
      else rrf_score w hits i)"
  by (simp add: rrf_score_def)

lemma distinct_accumulate: "distinct (map fst (accumulate w hits))"
proof (induction hits rule: rev_induct)
  case Nil
  then show ?case by (simp add: accumulate_def)
next
  case (snoc h hits)
  then show ?case by (simp add: accumulate_snoc distinct_acc_add)
qed

lemma fst_accumulate: "set (map fst (accumulate w hits)) = hit_id ` set hits"
proof (induction hits rule: rev_induct)
  case Nil
  then show ?case by (simp add: accumulate_def)
next
  case (snoc h hits)
  then show ?case
    using fst_acc_add[of "accumulate w hits" "hit_id h" "contribution w h"]
    by (simp add: accumulate_snoc)
qed

lemma map_of_accumulate:
  "map_of (accumulate w hits) i =
     (if i \<in> hit_id ` set hits then Some (rrf_score w hits i) else None)"
proof (induction hits rule: rev_induct)
  case Nil
  then show ?case by (simp add: accumulate_def)
next
  case (snoc h hits)
  have "hit_id h \<notin> hit_id ` set hits \<Longrightarrow> filter (\<lambda>k. hit_id k = hit_id h) hits = []"
    by (metis (mono_tags, lifting) filter_False image_eqI)
  then have "hit_id h \<notin> hit_id ` set hits \<Longrightarrow> rrf_score w hits (hit_id h) = Fin 0"
    by (simp add: rrf_score_def)
  with snoc show ?case by (auto simp: accumulate_snoc map_of_acc_add rrf_score_snoc)
qed

lemma set_accumulate:
  "set (accumulate w hits) = (\<lambda>i. (i, rrf_score w hits i)) ` (hit_id ` set hits)"
proof -
  have "(i, s) \<in> set (accumulate w hits) \<longleftrightarrow> i \<in> hit_id ` set hits \<and> s = rrf_score w hits i" for i s
    by (simp only: map_of_eq_Some_iff [OF distinct_accumulate, symmetric] map_of_accumulate) auto
  then show ?thesis by auto
qed

lemma distinct_fuse:
  assumes "\<And>m. mset (hash_iter m) = mset m"
  shows "distinct (map sc_id (fuse hash_iter hits w))"
proof -
  define mk where "mk = (\<lambda>(i::i64, s). \<lparr>sc_id = i, sc_score = s\<rparr>)"
  have "mset (map sc_id (fuse hash_iter hits w))
    = image_mset sc_id (image_mset mk (mset (hash_iter (accumulate w hits))))"
    by (simp only: fuse_def mset_map mset_stable_sort mk_def)
  also have "\<dots> = image_mset fst (mset (accumulate w hits))"
    by (simp add: assms image_mset.compositionality comp_def mk_def case_prod_beta)
  also have "\<dots> = mset (map fst (accumulate w hits))" by simp
  finally show ?thesis using distinct_accumulate[of w hits]
    by (metis mset_eq_imp_distinct_iff)
qed

lemma set_fuse:
  assumes "\<And>m. mset (hash_iter m) = mset m"
  shows "set (fuse hash_iter hits w) =
    (\<lambda>i. \<lparr>sc_id = i, sc_score = rrf_score w hits i\<rparr>) ` (hit_id ` set hits)"
proof -
  have "set (hash_iter m) = set m" for m
    using assms[of m] by (metis set_mset_mset)
  then show ?thesis by (auto simp: fuse_def set_accumulate)
qed

section \<open>Non-negative weights\<close>

definition weights_ok :: "rrf_weights \<Rightarrow> bool" where
  "weights_ok w \<longleftrightarrow> fnonneg (w_vec w) \<and> fnonneg (w_bm25 w) \<and> fnonneg (w_graph w)"

text \<open>Ranks are 1-indexed within the lane.\<close>

definition ranks_ok :: "lane_hit list \<Rightarrow> bool" where
  "ranks_ok hits \<longleftrightarrow> (\<forall>h \<in> set hits. 1 \<le> sint (hit_rk h))"

lemma weight_for_nonneg: "weights_ok w \<Longrightarrow> fnonneg (weight_for w lane)"
  by (simp add: weights_ok_def weight_for_def) (simp add: fnonneg_def)


text \<open>The divisor \<open>60 + rank\<close> is a positive finite number that grows with the rank.\<close>

definition rank_divisor :: "i64 \<Rightarrow> f64" where
  "rank_divisor r = fadd binary64 RRF_K (fof_int binary64 (sint r))"

lemma rnd64_int: "\<bar>n\<bar> < 2 ^ 53 \<Longrightarrow> rnd binary64 (of_int n) = Fin (of_int n)"
  by (rule rnd_small_int) (simp_all add: binary64_def)

lemma rnd64_pow2:
  assumes "0 \<le> k" and "k \<le> 1000"
  shows "rnd binary64 (2 powi k) = Fin (2 powi k)"
proof -
  have "(2::rat) powi k < 2 powi 1024" using assms(2) by (simp only: powi2_less_iff)
  then have "\<bar>(2::rat) powi k\<bar> < 2 powi (emax binary64 + 1)" by (simp add: binary64_def)
  then show ?thesis
    by (intro rnd_exact[where m = 1 and e = k]) (use assms(1) in \<open>simp_all add: binary64_def\<close>)
qed

lemma fof_int_64_const:
  "fadd binary64 RRF_K (fof_int binary64 1) = Fin 61"
  using rnd64_int[of 1] rnd64_int[of 61] by (simp add: fof_int_def RRF_K_def)

lemma fof_int_mono: "i \<le> j \<Longrightarrow> fle (fof_int binary64 i) (fof_int binary64 j)"
  by (simp add: fof_int_def rnd_mono)

lemma fof_int_nonneg: "0 \<le> i \<Longrightarrow> fnonneg (fof_int binary64 i)"
  by (simp add: fof_int_def fnonneg_def rnd_nonneg)

lemma rank_divisor_mono:
  assumes "0 \<le> sint r" and "sint r \<le> sint s"
  shows "fle (rank_divisor r) (rank_divisor s)"
  using assms unfolding rank_divisor_def
  by (intro fnonneg_add_mono fof_int_mono fof_int_nonneg) (auto simp: fnonneg_def RRF_K_def)

text \<open>\<open>2\<^sup>6\<^sup>4\<close> bounds both the largest rank and \<open>60\<close> more than it.\<close>

lemma rank_divisor_upper:
  assumes "0 \<le> sint r"
  shows "fle (rank_divisor r) (Fin (2 powi 64))"
proof -
  have "sint r < 2 ^ (LENGTH(64) - 1)" by (rule sint_lt)
  then have "(of_int (sint r) :: rat) \<le> of_int (2 ^ 63)" by (simp only: of_int_le_iff) simp
  then have "fle (fof_int binary64 (sint r)) (rnd binary64 (2 powi 63))"
    by (simp add: fof_int_def rnd_mono)
  then have le: "fle (fof_int binary64 (sint r)) (Fin (2 powi 63))"
    using rnd64_pow2[of 63] by simp
  have nn: "fnonneg (fof_int binary64 (sint r))" using assms by (rule fof_int_nonneg)
  obtain q where q: "fof_int binary64 (sint r) = NZero \<and> q = 0 \<or> fof_int binary64 (sint r) = Fin q"
      "0 \<le> q" "q \<le> 2 ^ 63"
    using le nn by (cases "fof_int binary64 (sint r)") (auto simp: fnonneg_def)
  then have "rank_divisor r = rnd binary64 (60 + q)"
    by (auto simp: rank_divisor_def RRF_K_def)
  moreover have "fle (rnd binary64 (60 + q)) (rnd binary64 (2 powi 64))"
    using q by (intro rnd_mono) simp_all
  ultimately show ?thesis using rnd64_pow2[of 64] by simp
qed

lemma rank_divisor_Fin:
  assumes "1 \<le> sint r"
  obtains d where "rank_divisor r = Fin d" and "61 \<le> d"
proof -
  have lo: "fle (fadd binary64 RRF_K (fof_int binary64 1)) (rank_divisor r)"
    unfolding rank_divisor_def using assms
    by (intro fnonneg_add_mono fof_int_mono fof_int_nonneg) (auto simp: fnonneg_def RRF_K_def)
  have up: "fle (rank_divisor r) (Fin (2 powi 64))" using assms by (intro rank_divisor_upper) simp
  from lo up that show ?thesis
    by (cases "rank_divisor r") (auto simp: fof_int_64_const)
qed

lemma contribution_divisor: "contribution w h = fdiv binary64 (weight_for w (hit_lane h)) (rank_divisor (hit_rk h))"
  by (simp add: contribution_def rank_divisor_def)

lemma contribution_nonneg:
  assumes "weights_ok w" and "1 \<le> sint (hit_rk h)"
  shows "fnonneg (contribution w h)"
proof -
  obtain d where "rank_divisor (hit_rk h) = Fin d" "61 \<le> d" using assms(2) by (rule rank_divisor_Fin)
  then show ?thesis
    using assms by (simp add: contribution_divisor fnonneg_fdiv weight_for_nonneg)
qed

text \<open>In one lane, a better (smaller) rank never contributes less.\<close>

lemma contribution_antimono:
  assumes "weights_ok w" and "hit_lane g = hit_lane h"
    and "1 \<le> sint (hit_rk g)" and "sint (hit_rk g) \<le> sint (hit_rk h)"
  shows "fle (contribution w h) (contribution w g)"
proof -
  obtain d where d: "rank_divisor (hit_rk g) = Fin d" "61 \<le> d" using assms(3) by (rule rank_divisor_Fin)
  have "1 \<le> sint (hit_rk h)" using assms(3,4) by simp
  then obtain e where e: "rank_divisor (hit_rk h) = Fin e" "61 \<le> e" by (rule rank_divisor_Fin)
  have "fle (Fin d) (Fin e)" using rank_divisor_mono[of "hit_rk g" "hit_rk h"] assms(3,4) d e by simp
  with d e assms show ?thesis
    by (simp add: contribution_divisor fdiv_antimono weight_for_nonneg)
qed

lemma foldl_fadd_nonneg:
  "fnonneg a \<Longrightarrow> (\<forall>c \<in> set cs. fnonneg c) \<Longrightarrow> fnonneg (foldl (fadd binary64) a cs)"
  by (induction cs arbitrary: a) (simp_all add: fnonneg_add)

lemma foldl_fadd_mono:
  assumes "list_all2 fle cs ds" and "fle a b" and "fnonneg a" and "\<forall>c \<in> set cs. fnonneg c"
  shows "fle (foldl (fadd binary64) a cs) (foldl (fadd binary64) b ds)"
  using assms
proof (induction cs ds arbitrary: a b rule: list_all2_induct)
  case Nil
  then show ?case by simp
next
  case (Cons c cs d ds)
  then have "fle (fadd binary64 a c) (fadd binary64 b d)" by (simp add: fnonneg_add_mono)
  with Cons show ?case by (simp add: fnonneg_add)
qed

lemma rrf_score_nonneg: "weights_ok w \<Longrightarrow> ranks_ok hits \<Longrightarrow> fnonneg (rrf_score w hits i)"
  unfolding rrf_score_def
  by (intro foldl_fadd_nonneg) (auto simp: fnonneg_def ranks_ok_def contribution_nonneg [unfolded fnonneg_def])

interpretation by_score: sort_order
  "\<lambda>a b :: scored_chunk. fcmp_le (sc_score b) (sc_score a)" "{c. sc_score c \<noteq> NaN}"
  by unfold_locales (auto simp: fcmp_le_iff dest: fle_total intro: fle_trans)

lemma sorted_fuse:
  assumes "\<And>m. mset (hash_iter m) = mset m" and "\<And>i. i \<in> hit_id ` set hits \<Longrightarrow> rrf_score w hits i \<noteq> NaN"
  shows "sorted_wrt (\<lambda>a b. fle (sc_score b) (sc_score a)) (fuse hash_iter hits w)"
proof -
  let ?r = "fuse hash_iter hits w"
  have num: "sc_score c \<noteq> NaN" if "c \<in> set ?r" for c
    using that assms(2) by (auto simp: set_fuse [OF assms(1)])
  have "sorted_wrt (\<lambda>a b. fcmp_le (sc_score b) (sc_score a)) ?r"
    unfolding fuse_def by (rule by_score.sorted_stable_sort) (use num in \<open>auto simp: fuse_def\<close>)
  then show ?thesis
    by (rule sorted_wrt_mono_rel [rotated]) (simp add: fcmp_le_iff num)
qed

section \<open>Properties\<close>

text \<open>
  C27 (fusion): for non-negative weights and 1-indexed ranks, whatever order the hash map iterates in,
  the result lists every chunk that some lane hit exactly once, with the sum of its lane
  contributions as its score, in descending order of score, and no score is NaN or negative.
\<close>

theorem fuse_correct:
  assumes "\<And>m. mset (hash_iter m) = mset m" and "weights_ok w" and "ranks_ok hits"
  shows "distinct (map sc_id (fuse hash_iter hits w))
    \<and> set (fuse hash_iter hits w) =
        (\<lambda>i. \<lparr>sc_id = i, sc_score = rrf_score w hits i\<rparr>) ` (hit_id ` set hits)
    \<and> sorted_wrt (\<lambda>a b. fle (sc_score b) (sc_score a)) (fuse hash_iter hits w)
    \<and> (\<forall>c \<in> set (fuse hash_iter hits w). fle (Fin 0) (sc_score c))"
proof -
  have nn: "fnonneg (rrf_score w hits i)" for i using assms(2,3) by (rule rrf_score_nonneg)
  have "rrf_score w hits i \<noteq> NaN" for i using nn by (rule fnonneg_not_NaN)
  then show ?thesis
    using distinct_fuse[OF assms(1)] set_fuse[OF assms(1)] sorted_fuse[OF assms(1)] nn
    by (auto simp: fnonneg_def)
qed

definition demo_hits :: "lane_hit list" where
  "demo_hits = [\<lparr>hit_id = 1, hit_lane = ''vec'', hit_rk = 1\<rparr>, \<lparr>hit_id = 2, hit_lane = ''vec'', hit_rk = 2\<rparr>,
                \<lparr>hit_id = 2, hit_lane = ''bm25'', hit_rk = 1\<rparr>]"

lemma demo_hits_ok: "ranks_ok demo_hits" "weights_ok rrf_weights_default"
  by (simp_all add: ranks_ok_def demo_hits_def weights_ok_def rrf_weights_default_def fnonneg_def)

theorem fuse_correct_witness:
  "distinct (map sc_id (fuse rev demo_hits rrf_weights_default))
   \<and> sorted_wrt (\<lambda>a b. fle (sc_score b) (sc_score a)) (fuse rev demo_hits rrf_weights_default)
   \<and> sc_id ` set (fuse rev demo_hits rrf_weights_default) = {1, 2}"
proof -
  have "hit_id ` set demo_hits = {1, 2}" by (auto simp: demo_hits_def)
  moreover have "\<And>m :: (i64 \<times> f64) list. mset (rev m) = mset m" by simp
  ultimately show ?thesis
    using fuse_correct[of rev rrf_weights_default demo_hits] demo_hits_ok by (simp add: image_image)
qed

text \<open>
  Rank dominance: if, lane by lane, chunk \<open>i\<close> is ranked at least as well as chunk \<open>j\<close>, then \<open>i\<close>
  scores at least as high as \<open>j\<close>, in spite of floating-point rounding.
\<close>

theorem rrf_score_dominates:
  assumes "weights_ok w" and "ranks_ok hits"
    and "list_all2 (\<lambda>h g. hit_lane h = hit_lane g \<and> sint (hit_rk g) \<le> sint (hit_rk h))
           (filter (\<lambda>h. hit_id h = j) hits) (filter (\<lambda>h. hit_id h = i) hits)"
  shows "fle (rrf_score w hits j) (rrf_score w hits i)"
proof -
  let ?hj = "filter (\<lambda>h. hit_id h = j) hits" and ?hi = "filter (\<lambda>h. hit_id h = i) hits"
  have r: "1 \<le> sint (hit_rk h)" if "h \<in> set hits" for h using that assms(2) by (simp add: ranks_ok_def)
  have "list_all2 (\<lambda>h g. fle (contribution w h) (contribution w g)) ?hj ?hi"
    using assms(3) by (rule list.rel_mono_strong) (use assms(1) r in \<open>auto intro: contribution_antimono\<close>)
  then have "list_all2 fle (map (contribution w) ?hj) (map (contribution w) ?hi)"
    by (simp add: list_all2_map1 list_all2_map2)
  then show ?thesis unfolding rrf_score_def
    by (rule foldl_fadd_mono) (use assms(1) r in \<open>auto simp: fnonneg_def intro: contribution_nonneg [unfolded fnonneg_def]\<close>)
qed

theorem rrf_score_dominates_witness:
  "fle (rrf_score rrf_weights_default
         [\<lparr>hit_id = 1, hit_lane = ''vec'', hit_rk = 1\<rparr>, \<lparr>hit_id = 3, hit_lane = ''vec'', hit_rk = 2\<rparr>] 3)
       (rrf_score rrf_weights_default
         [\<lparr>hit_id = 1, hit_lane = ''vec'', hit_rk = 1\<rparr>, \<lparr>hit_id = 3, hit_lane = ''vec'', hit_rk = 2\<rparr>] 1)"
  by (rule rrf_score_dominates) (simp_all add: demo_hits_ok ranks_ok_def)

end
