(* ===== verification/Json.thy ===== *)
theory Json
  imports IEEE
begin

text \<open>
  The JSON library (\<open>serde_json\<close>) is not part of the repository. The operations the program calls
  are the fields of a record over an abstract type of values, and \<open>json_laws\<close> is what its
  documentation promises of them (a number that is NaN or infinite has no JSON form): indexing an object or array that lacks the key gives \<open>Null\<close>, an
  \<open>as_...\<close> accessor answers only on its own kind of value. \<open>jv_api\<close> is a concrete instance
  that meets the laws; the witnesses of the properties use it.
\<close>

record 'v json_api =
  js_null :: 'v
  js_bool :: "bool \<Rightarrow> 'v"
  js_int :: "int \<Rightarrow> 'v"
  js_float :: "f64 \<Rightarrow> 'v"
  js_string :: "string \<Rightarrow> 'v"
  js_array :: "'v list \<Rightarrow> 'v"
  js_object :: "(string \<times> 'v) list \<Rightarrow> 'v"
  js_from_str :: "string \<Rightarrow> string + 'v"
  js_to_string :: "'v \<Rightarrow> string"
  js_key :: "'v \<Rightarrow> string \<Rightarrow> 'v"
  js_idx :: "'v \<Rightarrow> nat \<Rightarrow> 'v"
  js_as_str :: "'v \<Rightarrow> string option"
  js_as_array :: "'v \<Rightarrow> 'v list option"
  js_as_f64 :: "'v \<Rightarrow> f64 option"
  js_as_u64 :: "'v \<Rightarrow> nat option"

text \<open>\<open>serde_json::Value::get\<close> on an object literal: the key's value, \<open>Null\<close> when absent.\<close>

definition member :: "'v json_api \<Rightarrow> (string \<times> 'v) list \<Rightarrow> string \<Rightarrow> 'v" where
  "member J kvs k = unwrap_or (js_null J) (map_of kvs k)"

definition json_laws :: "'v json_api \<Rightarrow> bool" where
  "json_laws J \<longleftrightarrow>
     (\<forall>kvs k. distinct (map fst kvs) \<longrightarrow> js_key J (js_object J kvs) k = member J kvs k)
   \<and> (\<forall>vs i. js_idx J (js_array J vs) i = (if i < length vs then vs ! i else js_null J))
   \<and> (\<forall>s. js_as_str J (js_string J s) = Some s) \<and> js_as_str J (js_null J) = None
   \<and> (\<forall>vs. js_as_array J (js_array J vs) = Some vs) \<and> js_as_array J (js_null J) = None
   \<and> (\<forall>x. is_finite x \<longrightarrow> js_as_f64 J (js_float J x) = Some x) \<and> js_as_f64 J (js_null J) = None
   \<and> (\<forall>n. n < 2 ^ 64 \<longrightarrow> js_as_u64 J (js_int J (int n)) = Some n) \<and> js_as_u64 J (js_null J) = None"

lemma member_simps [simp]:
  "member J [] k = js_null J"
  "member J ((k', v) # kvs) k = (if k = k' then v else member J kvs k)"
  by (auto simp: member_def)

lemma json_key: "json_laws J \<Longrightarrow> distinct (map fst kvs) \<Longrightarrow> js_key J (js_object J kvs) k = member J kvs k"
  by (simp add: json_laws_def)

lemma json_idx: "json_laws J \<Longrightarrow> js_idx J (js_array J vs) i = (if i < length vs then vs ! i else js_null J)"
  by (simp add: json_laws_def)

lemma json_as:
  assumes "json_laws J"
  shows "js_as_str J (js_string J s) = Some s" "js_as_str J (js_null J) = None"
    "js_as_array J (js_array J vs) = Some vs" "js_as_array J (js_null J) = None"
    "is_finite x \<Longrightarrow> js_as_f64 J (js_float J x) = Some x" "js_as_f64 J (js_null J) = None"
    "n < 2 ^ 64 \<Longrightarrow> js_as_u64 J (js_int J (int n)) = Some n" "js_as_u64 J (js_null J) = None"
  using assms by (simp_all add: json_laws_def)

lemmas json_access = json_key json_idx json_as

section \<open>A concrete instance\<close>

datatype jv = JNull | JBool bool | JInt int | JFloat f64 | JStr string | JArr "jv list"
  | JObj "(string \<times> jv) list"

text \<open>The text a value is parsed from is given by a table: the instance does not parse.\<close>

definition jv_api :: "(string \<times> jv) list \<Rightarrow> jv json_api" where
  "jv_api texts = \<lparr>
     js_null = JNull, js_bool = JBool, js_int = JInt, js_float = JFloat, js_string = JStr,
     js_array = JArr, js_object = JObj,
     js_from_str = (\<lambda>s. case map_of texts s of None \<Rightarrow> Inl ''expected value'' | Some v \<Rightarrow> Inr v),
     js_to_string = (\<lambda>v. case find (\<lambda>p. snd p = v) texts of None \<Rightarrow> ''null'' | Some p \<Rightarrow> fst p),
     js_key = (\<lambda>v k. case v of JObj kvs \<Rightarrow> unwrap_or JNull (map_of kvs k) | _ \<Rightarrow> JNull),
     js_idx = (\<lambda>v i. case v of JArr vs \<Rightarrow> if i < length vs then vs ! i else JNull | _ \<Rightarrow> JNull),
     js_as_str = (\<lambda>v. case v of JStr s \<Rightarrow> Some s | _ \<Rightarrow> None),
     js_as_array = (\<lambda>v. case v of JArr vs \<Rightarrow> Some vs | _ \<Rightarrow> None),
     js_as_f64 = (\<lambda>v. case v of JFloat x \<Rightarrow> Some x | JInt i \<Rightarrow> Some (fof_int binary64 i) | _ \<Rightarrow> None),
     js_as_u64 = (\<lambda>v. case v of JInt i \<Rightarrow> if 0 \<le> i \<and> i < 2 ^ 64 then Some (nat i) else None | _ \<Rightarrow> None)\<rparr>"

lemma json_laws_jv [simp]: "json_laws (jv_api texts)"
  by (simp add: json_laws_def jv_api_def member_def)

section \<open>Derived deserialisers\<close>

text \<open>The accessors a derived deserialiser is made of: the field of an object, and the typed readings.\<close>

record 'v body_api =
  ba_field :: "'v \<Rightarrow> string \<Rightarrow> 'v option"
  ba_string :: "'v \<Rightarrow> string option"
  ba_i32 :: "'v \<Rightarrow> i32 option"
  ba_is_null :: "'v \<Rightarrow> bool"

text \<open>\<open>#[serde(default = ...)]\<close>: a missing field takes the default, a field of another type is an error.\<close>

definition field_or :: "'v body_api \<Rightarrow> 'v \<Rightarrow> string \<Rightarrow> 'a \<Rightarrow> ('v \<Rightarrow> 'a option) \<Rightarrow> 'a option" where
  "field_or D v k d decode = (case ba_field D v k of None \<Rightarrow> Some d | Some x \<Rightarrow> decode x)"

text \<open>An optional field: missing or null is none.\<close>

definition optional :: "'v body_api \<Rightarrow> ('v \<Rightarrow> 'a option) \<Rightarrow> 'v \<Rightarrow> 'a option option" where
  "optional D decode x = (if ba_is_null D x then Some None else map_option Some (decode x))"

definition required :: "'v body_api \<Rightarrow> 'v \<Rightarrow> string \<Rightarrow> ('v \<Rightarrow> 'a option) \<Rightarrow> 'a option" where
  "required D v k decode = Option.bind (ba_field D v k) decode"

section \<open>\<open>jsonb\<close> columns\<close>

text \<open>
  PostgreSQL's \<open>->>\<close>: the field of an object as text, null for a missing field, a JSON null or any
  other kind of value; \<open>show\<close> is the text of a value that is not a string.
\<close>

definition jsonb_get_text :: "(jv \<Rightarrow> string) \<Rightarrow> jv \<Rightarrow> string \<Rightarrow> string option" where
  "jsonb_get_text show v k =
     (case v of
        JObj kvs \<Rightarrow>
          (case map_of kvs k of
             None \<Rightarrow> None | Some JNull \<Rightarrow> None | Some (JStr s) \<Rightarrow> Some s | Some x \<Rightarrow> Some (show x))
      | _ \<Rightarrow> None)"

text \<open>
  \<open>||\<close>: two objects are merged, the right one winning; otherwise what is not an array becomes an
  array of itself and the arrays are concatenated.
\<close>

definition jsonb_items :: "jv \<Rightarrow> jv list" where
  "jsonb_items v = (case v of JArr vs \<Rightarrow> vs | x \<Rightarrow> [x])"

definition jsonb_concat :: "jv \<Rightarrow> jv \<Rightarrow> jv" where
  "jsonb_concat a b =
     (case (a, b) of
        (JObj xs, JObj ys) \<Rightarrow> JObj (filter (\<lambda>(k, _). k \<notin> fst ` set ys) xs @ ys)
      | _ \<Rightarrow> JArr (jsonb_items a @ jsonb_items b))"

lemma jsonb_get_concat:
  "jsonb_get_text show (jsonb_concat (JObj xs) (JObj [(k, JStr s)])) k' =
     (if k' = k then Some s else jsonb_get_text show (JObj xs) k')"
proof -
  have "map_of (filter (\<lambda>(x, _). x \<noteq> k) xs) k = None"
    by (induction xs) auto
  moreover have "map_of (filter (\<lambda>(x, _). x \<noteq> k) xs) k' = map_of xs k'" if "k' \<noteq> k"
    using that by (induction xs) auto
  ultimately show ?thesis
    by (auto simp: jsonb_get_text_def jsonb_concat_def map_add_def split: option.splits)
qed

end
