(* ===== verification/Llm.thy ===== *)
theory Llm
  imports Json
begin

text \<open>
  The LLM provider surface: extraction and completion data and the \<open>LlmProvider\<close> trait
  (\<^verbatim>\<open>llm/mod.rs\<close>), the mock provider (\<^verbatim>\<open>llm/mock.rs\<close>), the HTTP client and its status table
  (\<^verbatim>\<open>llm/http.rs\<close>) and the bounded retry wrapper (\<^verbatim>\<open>llm/retry.rs\<close>). A provider is a record of its
  methods over a state of the world \<open>'w\<close>; \<open>reqwest\<close> and the clock are parameters.
\<close>

section \<open>Data\<close>

record extracted_entity =
  ee_name :: string
  ee_kind :: "string option"
  ee_description :: "string option"
  ee_confidence :: f32

record extracted_relationship =
  er_src_name :: string
  er_dst_name :: string
  er_kind :: string
  er_weight :: f32
  er_confidence :: f32

record extraction =
  ex_entities :: "extracted_entity list"
  ex_relationships :: "extracted_relationship list"

definition extraction_default :: extraction where
  "extraction_default = \<lparr>ex_entities = [], ex_relationships = []\<rparr>"

record completion =
  co_text :: string
  co_prompt_tokens :: "32 word"
  co_completion_tokens :: "32 word"

section \<open>The provider trait\<close>

record 'w llm_provider =
  lp_extract :: "string \<Rightarrow> string \<Rightarrow> ('w, extraction) sr"
  lp_complete :: "string \<Rightarrow> ('w, completion) sr"

text \<open>The body \<open>complete\<close> has for a provider that does not override it.\<close>

definition default_complete :: "string \<Rightarrow> ('w, completion) sr" where
  "default_complete prompt = sr_fail (Llm ''complete() not implemented for this provider'')"

text \<open>The documented errors of a provider: \<open>Http\<close> for transient ones, \<open>Llm\<close> for permanent ones.\<close>

fun http_or_llm :: "core_error \<Rightarrow> bool" where
  "http_or_llm (Http _) = True"
| "http_or_llm (Llm _) = True"
| "http_or_llm _ = False"

locale llm_contract =
  fixes p :: "'w llm_provider"
  assumes extract_err: "lp_extract p c n w = (Inl e, w') \<Longrightarrow> http_or_llm e"
    and complete_err: "lp_complete p q w = (Inl e, w') \<Longrightarrow> http_or_llm e"

section \<open>Mock provider\<close>

record mock_provider =
  mp_stub_answer :: string
  mp_stub_extraction :: "extraction option"

definition mock_new :: mock_provider where
  "mock_new = \<lparr>mp_stub_answer = [], mp_stub_extraction = None\<rparr>"

definition with_stub_answer :: "mock_provider \<Rightarrow> string \<Rightarrow> mock_provider" where
  "with_stub_answer m a = m\<lparr>mp_stub_answer := a\<rparr>"

definition with_stub_extraction :: "mock_provider \<Rightarrow> extraction \<Rightarrow> mock_provider" where
  "with_stub_extraction m ex = m\<lparr>mp_stub_extraction := Some ex\<rparr>"

definition mock_extract :: "mock_provider \<Rightarrow> string \<Rightarrow> string \<Rightarrow> ('w, extraction) sr" where
  "mock_extract m chunk_text ns = sr_return (unwrap_or extraction_default (mp_stub_extraction m))"

definition mock_complete :: "mock_provider \<Rightarrow> string \<Rightarrow> ('w, completion) sr" where
  "mock_complete m prompt =
     sr_return \<lparr>co_text = mp_stub_answer m, co_prompt_tokens = 0, co_completion_tokens = 0\<rparr>"

definition mock_llm :: "mock_provider \<Rightarrow> 'w llm_provider" where
  "mock_llm m = \<lparr>lp_extract = mock_extract m, lp_complete = mock_complete m\<rparr>"

interpretation mock: llm_contract "mock_llm m :: 'w llm_provider" for m
  by unfold_locales (simp_all add: mock_llm_def mock_extract_def mock_complete_def sr_apply)

section \<open>HTTP\<close>

datatype http_classification = HttpOk | Retryable | Permanent

definition from_status :: "u16 \<Rightarrow> http_classification" where
  "from_status code =
     (if 200 \<le> code \<and> code \<le> 299 then HttpOk
      else if code = 429 \<or> (500 \<le> code \<and> code \<le> 599) then Retryable
      else Permanent)"

text \<open>Durations are in nanoseconds.\<close>

definition from_millis :: "u64 \<Rightarrow> nat" where
  "from_millis ms = unat ms * 1000000"

definition from_secs :: "u64 \<Rightarrow> nat" where
  "from_secs s = unat s * 1000000000"

definition DEFAULT_TIMEOUT :: nat where
  "DEFAULT_TIMEOUT = from_secs 30"

record http_client =
  hc_timeout :: nat
  hc_user_agent :: string

definition with_timeout :: "nat \<Rightarrow> http_client" where
  "with_timeout t = \<lparr>hc_timeout = t, hc_user_agent = ''pg-raggraph/0.1''\<rparr>"

definition http_client_new :: http_client where
  "http_client_new = with_timeout DEFAULT_TIMEOUT"

text \<open>
  \<open>reqwest\<close>: sending a request may fail with an error (its rendered text) or give a response, whose
  status is known and whose body is read by a further fallible step.
\<close>

record ('r, 'v, 'w) transport =
  tr_get :: "http_client \<Rightarrow> string \<Rightarrow> 'w \<Rightarrow> (string + 'r) \<times> 'w"
  tr_post :: "http_client \<Rightarrow> string \<Rightarrow> 'v \<Rightarrow> (string \<times> string) list \<Rightarrow> 'w \<Rightarrow> (string + 'r) \<times> 'w"
  tr_status :: "'r \<Rightarrow> u16"
  tr_status_display :: "'r \<Rightarrow> string"
  tr_body :: "'r \<Rightarrow> 'w \<Rightarrow> (string + string) \<times> 'w"

definition http_err :: "string \<Rightarrow> ('w \<Rightarrow> (string + 'a) \<times> 'w) \<Rightarrow> ('w, 'a) sr" where
  "http_err what m w = (case m w of (r, w') \<Rightarrow> (map_err (\<lambda>e. Http (what @ e)) r, w'))"

definition is_success :: "u16 \<Rightarrow> bool" where
  "is_success code \<longleftrightarrow> 200 \<le> code \<and> code \<le> 299"

definition http_get :: "('r, 'v, 'w) transport \<Rightarrow> http_client \<Rightarrow> string \<Rightarrow> ('w, string) sr" where
  "http_get T c url =
     sr_bind (http_err ''send: '' (tr_get T c url)) (\<lambda>resp.
       if is_success (tr_status T resp) then http_err ''read body: '' (tr_body T resp)
       else sr_fail (Http (''status '' @ tr_status_display T resp)))"

definition post_json_with_headers ::
  "('r, 'v, 'w) transport \<Rightarrow> http_client \<Rightarrow> string \<Rightarrow> (string \<times> string) list \<Rightarrow> 'v
     \<Rightarrow> ('w, u16 \<times> string) sr" where
  "post_json_with_headers T c url headers body =
     sr_bind (http_err ''send: '' (tr_post T c url body headers)) (\<lambda>resp.
     sr_bind (http_err ''read body: '' (tr_body T resp)) (\<lambda>txt.
       sr_return (tr_status T resp, txt)))"

definition post_json ::
  "('r, 'v, 'w) transport \<Rightarrow> http_client \<Rightarrow> string \<Rightarrow> string option \<Rightarrow> 'v \<Rightarrow> ('w, u16 \<times> string) sr" where
  "post_json T c url bearer body =
     (let headers = (case bearer of None \<Rightarrow> [] | Some t \<Rightarrow> [(''authorization'', ''Bearer '' @ t)])
      in post_json_with_headers T c url headers body)"

lemma http_err_Inl: "http_err what m w = (Inl e, w') \<Longrightarrow> \<exists>x. e = Http (what @ x)"
  by (auto simp: http_err_def map_err_def split: prod.splits sum.splits)

text \<open>The client's own errors are all transport errors.\<close>

lemma post_json_with_headers_Inl:
  "post_json_with_headers T c url hs body w = (Inl e, w') \<Longrightarrow> \<exists>m. e = Http m"
  unfolding post_json_with_headers_def
  by (elim sr_bind_InlE) (auto dest: http_err_Inl simp: sr_apply)

lemma http_get_Inl: "http_get T c url w = (Inl e, w') \<Longrightarrow> \<exists>m. e = Http m"
  unfolding http_get_def
  by (elim sr_bind_InlE) (auto dest: http_err_Inl simp: sr_apply split: if_splits)

lemma is_success_iff: "is_success code \<longleftrightarrow> from_status code = HttpOk"
  by (simp add: is_success_def from_status_def)

section \<open>Retry\<close>

record 'w clock =
  ck_now :: "'w \<Rightarrow> nat"
  ck_sleep :: "nat \<Rightarrow> 'w \<Rightarrow> 'w"

definition FALLBACK_BACKOFF_MS :: u64 where
  "FALLBACK_BACKOFF_MS = 1000"

record 'w retrying =
  rp_inner :: "'w llm_provider"
  rp_max_attempts :: nat
  rp_backoff_ms :: "u64 list"
  rp_total_cap_ms :: u64

definition retrying_new :: "'w llm_provider \<Rightarrow> 'w retrying" where
  "retrying_new inner = \<lparr>rp_inner = inner, rp_max_attempts = 3, rp_backoff_ms = [1000, 2000, 4000],
     rp_total_cap_ms = 10000\<rparr>"

definition with_max_attempts :: "'w retrying \<Rightarrow> nat \<Rightarrow> 'w retrying" where
  "with_max_attempts p n = p\<lparr>rp_max_attempts := max n 1\<rparr>"

definition with_backoff_ms :: "'w retrying \<Rightarrow> u64 list \<Rightarrow> 'w retrying" where
  "with_backoff_ms p b = p\<lparr>rp_backoff_ms := b\<rparr>"

definition with_total_cap_ms :: "'w retrying \<Rightarrow> u64 \<Rightarrow> 'w retrying" where
  "with_total_cap_ms p c = p\<lparr>rp_total_cap_ms := c\<rparr>"

fun is_retryable :: "core_error \<Rightarrow> bool" where
  "is_retryable (Http _) = True"
| "is_retryable _ = False"

definition backoff_at :: "u64 list \<Rightarrow> nat \<Rightarrow> u64" where
  "backoff_at bs attempt =
     (if attempt < length bs then bs ! attempt
      else if bs = [] then FALLBACK_BACKOFF_MS else last bs)"

definition elapsed :: "'w clock \<Rightarrow> nat \<Rightarrow> 'w \<Rightarrow> nat" where
  "elapsed ck start w = ck_now ck w - start"

definition retries_exhausted :: "core_error option \<Rightarrow> core_error" where
  "retries_exhausted last_err = unwrap_or (Llm ''retries exhausted'') last_err"

text \<open>\<open>for attempt in 0..max_attempts\<close>: the third-last argument counts the attempts left.\<close>

fun retry_loop ::
  "'w clock \<Rightarrow> 'w retrying \<Rightarrow> ('w, 'a) sr \<Rightarrow> nat \<Rightarrow> nat \<Rightarrow> nat \<Rightarrow> core_error option \<Rightarrow> ('w, 'a) sr" where
  "retry_loop ck p act start 0 attempt last_err w = (Inl (retries_exhausted last_err), w)"
| "retry_loop ck p act start (Suc k) attempt last_err w =
     (let cap = from_millis (rp_total_cap_ms p) in
      if cap \<le> elapsed ck start w then (Inl (retries_exhausted last_err), w)
      else (case act w of
          (Inr v, w') \<Rightarrow> (Inr v, w')
        | (Inl e, w') \<Rightarrow>
            if is_retryable e then
              if attempt + 1 < rp_max_attempts p then
                let sleep_ms = backoff_at (rp_backoff_ms p) attempt;
                    remaining = cap - elapsed ck start w';
                    sl = min (from_millis sleep_ms) remaining
                in if sl = 0 then (Inl (retries_exhausted (Some e)), w')
                   else retry_loop ck p act start k (attempt + 1) (Some e) (ck_sleep ck sl w')
              else retry_loop ck p act start k (attempt + 1) (Some e) w'
            else (Inl e, w')))"

definition run_with_retry :: "'w clock \<Rightarrow> 'w retrying \<Rightarrow> ('w, 'a) sr \<Rightarrow> ('w, 'a) sr" where
  "run_with_retry ck p act w = retry_loop ck p act (ck_now ck w) (rp_max_attempts p) 0 None w"

definition retrying_extract :: "'w clock \<Rightarrow> 'w retrying \<Rightarrow> string \<Rightarrow> string \<Rightarrow> ('w, extraction) sr" where
  "retrying_extract ck p chunk_text ns = run_with_retry ck p (lp_extract (rp_inner p) chunk_text ns)"

definition retrying_complete :: "'w clock \<Rightarrow> 'w retrying \<Rightarrow> string \<Rightarrow> ('w, completion) sr" where
  "retrying_complete ck p prompt = run_with_retry ck p (lp_complete (rp_inner p) prompt)"

definition retrying_llm :: "'w clock \<Rightarrow> 'w retrying \<Rightarrow> 'w llm_provider" where
  "retrying_llm ck p = \<lparr>lp_extract = retrying_extract ck p, lp_complete = retrying_complete ck p\<rparr>"


subsection \<open>What the loop does\<close>

text \<open>
  \<open>logged act\<close> runs \<open>act\<close> and appends its result to a log kept beside the world, so the log is
  the sequence of the calls the loop made.
\<close>

definition logged :: "('w, 'a) sr \<Rightarrow> ('w \<times> 'a core_result list, 'a) sr" where
  "logged act wl = (case act (fst wl) of (r, w') \<Rightarrow> (r, (w', snd wl @ [r])))"

definition lift_clock :: "'w clock \<Rightarrow> ('w \<times> 'l) clock" where
  "lift_clock ck = \<lparr>ck_now = ck_now ck \<circ> fst, ck_sleep = (\<lambda>d. map_prod (ck_sleep ck d) id)\<rparr>"

text \<open>The outcome a log of calls must have: only retryable errors before the last call.\<close>

definition retry_outcome :: "'a core_result list \<Rightarrow> 'a core_result \<Rightarrow> bool" where
  "retry_outcome calls r \<longleftrightarrow>
     (if calls = [] then r = Inl (Llm ''retries exhausted'')
      else r = last calls \<and> (\<forall>x \<in> set (butlast calls). \<exists>m. x = Inl (Http m)))"

lemma is_retryable_iff: "is_retryable e \<longleftrightarrow> (\<exists>m. e = Http m)"
  by (cases e) auto

lemma lift_clock_sel [simp]:
  "ck_now (lift_clock ck) wl = ck_now ck (fst wl)"
  "ck_sleep (lift_clock ck) d wl = (ck_sleep ck d (fst wl), snd wl)"
  by (simp_all add: lift_clock_def map_prod_def case_prod_beta)

text \<open>The invariant of the loop: so far every call failed retryably and the last error is kept.\<close>

lemma retry_loop_log:
  assumes "retry_loop (lift_clock ck) p (logged act) start k attempt last_err (w, calls) = (r, (w', calls'))"
    and "\<forall>x \<in> set calls. \<exists>m. x = Inl (Http m)"
    and "if calls = [] then last_err = None else (\<exists>e. last_err = Some e \<and> last calls = Inl e)"
  shows "length calls' \<le> length calls + k \<and> retry_outcome calls' r"
  using assms
proof (induction k arbitrary: attempt last_err w calls)
  case 0
  then show ?case by (auto simp: retry_outcome_def retries_exhausted_def split: if_splits dest: in_set_butlastD)
next
  case (Suc k)
  let ?cap = "from_millis (rp_total_cap_ms p)"
  show ?case
  proof (cases "?cap \<le> elapsed (lift_clock ck) start (w, calls)")
    case True
    with Suc.prems show ?thesis
      by (auto simp: retry_outcome_def retries_exhausted_def Let_def split: if_splits dest: in_set_butlastD)
  next
    case False
    obtain q w1 where a: "act w = (q, w1)" by fastforce
    then have la: "logged act (w, calls) = (q, (w1, calls @ [q]))" by (simp add: logged_def)
    show ?thesis
    proof (cases "\<exists>m. q = Inl (Http m)")
      case False
      with Suc.prems la \<open>\<not> ?cap \<le> _\<close> show ?thesis
        by (cases q) (auto simp: Let_def is_retryable_iff retry_outcome_def)
    next
      case True
      then obtain m where q: "q = Inl (Http m)" by blast
      have inv: "\<forall>x \<in> set (calls @ [q]). \<exists>m. x = Inl (Http m)" using Suc.prems(2) q by simp
      have step: "length calls' \<le> length calls + Suc k \<and> retry_outcome calls' r"
        if "retry_loop (lift_clock ck) p (logged act) start k (attempt + 1) (Some (Http m)) (w2, calls @ [q])
              = (r, (w', calls'))" for w2
        using Suc.IH[OF that inv] q by simp
      show ?thesis
        using Suc.prems(1,2) la False q step
        by (auto simp: Let_def retries_exhausted_def retry_outcome_def split: if_splits)
    qed
  qed
qed

text \<open>
  How long the loop lasts: every call starts before the cap, and a sleep never plans past it, so only
  the last call's own duration \<open>D\<close>, or the oversleep \<open>\<epsilon>\<close>, comes on top.
\<close>

lemma retry_loop_elapsed:
  assumes "\<And>w. ck_now ck (snd (act w)) \<le> ck_now ck w + D"
    and "\<And>d w. ck_now ck (ck_sleep ck d w) \<le> ck_now ck w + d + eps"
    and "start \<le> ck_now ck w" and "\<And>w. ck_now ck w \<le> ck_now ck (snd (act w))"
    and "\<And>d w. ck_now ck w \<le> ck_now ck (ck_sleep ck d w)"
    and "elapsed ck start w \<le> from_millis (rp_total_cap_ms p) + max D eps"
  shows "elapsed ck start (snd (retry_loop ck p act start k attempt last_err w))
    \<le> from_millis (rp_total_cap_ms p) + max D eps"
  using assms(3,6)
proof (induction k arbitrary: attempt last_err w)
  case 0
  then show ?case by simp
next
  case (Suc k)
  let ?cap = "from_millis (rp_total_cap_ms p)"
  show ?case
  proof (cases "?cap \<le> elapsed ck start w")
    case True
    with Suc.prems show ?thesis by (simp add: Let_def)
  next
    case False
    obtain q w1 where a: "act w = (q, w1)" by fastforce
    have t1: "ck_now ck w1 \<le> ck_now ck w + D" "ck_now ck w \<le> ck_now ck w1"
      using assms(1)[of w] assms(4)[of w] a by simp_all
    then have e1: "elapsed ck start w1 \<le> ?cap + max D eps" using False by (simp add: elapsed_def)
    have ok1: "start \<le> ck_now ck w1" using t1 Suc.prems by simp
    have sl: "start \<le> ck_now ck (ck_sleep ck d w1)"
      "elapsed ck start (ck_sleep ck d w1) \<le> ?cap + max D eps"
      if "d \<le> ?cap - elapsed ck start w1" "d \<noteq> 0" for d
      using that assms(2)[of d w1] assms(5)[of w1 d] ok1 by (auto simp: elapsed_def)
    show ?thesis
    proof (cases "\<exists>e. q = Inl e \<and> is_retryable e")
      case False
      with a e1 \<open>\<not> ?cap \<le> _\<close> show ?thesis by (cases q) (auto simp: Let_def)
    next
      case True
      then obtain e where q: "q = Inl e" "is_retryable e" by blast
      define d where "d = min (from_millis (backoff_at (rp_backoff_ms p) attempt)) (?cap - elapsed ck start w1)"
      have unfold: "retry_loop ck p act start (Suc k) attempt last_err w =
        (if attempt + 1 < rp_max_attempts p then
           if d = 0 then (Inl (retries_exhausted (Some e)), w1)
           else retry_loop ck p act start k (attempt + 1) (Some e) (ck_sleep ck d w1)
         else retry_loop ck p act start k (attempt + 1) (Some e) w1)"
        using a q False by (simp add: Let_def d_def) linarith
      have "d \<noteq> 0 \<Longrightarrow> elapsed ck start (snd (retry_loop ck p act start k (attempt + 1) (Some e) (ck_sleep ck d w1)))
        \<le> ?cap + max D eps"
        by (rule Suc.IH; rule sl) (simp_all add: d_def)
      then show ?thesis unfolding unfold using e1 Suc.IH[OF ok1 e1] by simp
    qed
  qed
qed

lemma retry_loop_err:
  assumes "\<And>w e w'. act w = (Inl e, w') \<Longrightarrow> http_or_llm e"
    and "\<And>e. last_err = Some e \<Longrightarrow> http_or_llm e"
    and "retry_loop ck p act start k attempt last_err w = (Inl e, w')"
  shows "http_or_llm e"
  using assms(2,3)
proof (induction k arbitrary: attempt last_err w)
  case 0
  then show ?case by (cases last_err) (auto simp: retries_exhausted_def)
next
  case (Suc k)
  obtain q w1 where a: "act w = (q, w1)" by fastforce
  show ?case
  proof (cases q)
    case (Inr v)
    with Suc.prems a show ?thesis
      by (cases last_err) (auto simp: Let_def retries_exhausted_def split: if_splits)
  next
    case (Inl f)
    then have f: "http_or_llm f" using assms(1) a by blast
    show ?thesis
      using Suc.prems a Inl f Suc.IH[of "Some f"]
      by (cases last_err) (auto simp: Let_def retries_exhausted_def split: if_splits)
  qed
qed

text \<open>Wrapping a provider that keeps the error contract keeps it.\<close>

context llm_contract
begin

lemma retrying_keeps:
  assumes "rp_inner r = p"
  shows "llm_contract (retrying_llm ck r)"
proof unfold_locales
  fix c n w e w'
  assume "lp_extract (retrying_llm ck r) c n w = (Inl e, w')"
  then have "retry_loop ck r (lp_extract p c n) (ck_now ck w) (rp_max_attempts r) 0 None w = (Inl e, w')"
    using assms by (simp add: retrying_llm_def retrying_extract_def run_with_retry_def)
  then show "http_or_llm e" by (rule retry_loop_err [rotated 2]) (simp_all add: extract_err)
next
  fix q w e w'
  assume "lp_complete (retrying_llm ck r) q w = (Inl e, w')"
  then have "retry_loop ck r (lp_complete p q) (ck_now ck w) (rp_max_attempts r) 0 None w = (Inl e, w')"
    using assms by (simp add: retrying_llm_def retrying_complete_def run_with_retry_def)
  then show "http_or_llm e" by (rule retry_loop_err [rotated 2]) (simp_all add: complete_err)
qed

end

section \<open>Properties\<close>


text \<open>A world that is a clock and a script of results to give, one per call, each call taking 5 ns.\<close>

definition script_act :: "(nat \<times> nat core_result list, nat) sr" where
  "script_act w = (case snd w of [] \<Rightarrow> (Inl (Llm ''end''), w) | r # rs \<Rightarrow> (r, (fst w + 5, rs)))"

definition script_clock :: "(nat \<times> 'b) clock" where
  "script_clock = \<lparr>ck_now = fst, ck_sleep = (\<lambda>d w. (fst w + d, snd w))\<rparr>"

definition script_policy :: "'w retrying" where
  "script_policy = retrying_new (mock_llm mock_new)"

lemma script_run:
  "run_with_retry (lift_clock script_clock) script_policy (logged script_act)
     ((0, [Inl (Http ''503''), Inr 7]), []) =
   (Inr 7, ((1000000010, []), [Inl (Http ''503''), Inr 7]))"
  by (simp add: run_with_retry_def script_policy_def retrying_new_def script_clock_def lift_clock_def
      script_act_def logged_def numeral_3_eq_3 elapsed_def from_millis_def backoff_at_def Let_def)


text \<open>
  Wall clock: if a call lasts at most \<open>D\<close> and a sleep overshoots by at most \<open>\<epsilon>\<close>, the whole
  retry lasts at most the cap plus the larger of the two, whatever the number of attempts.
\<close>

theorem run_with_retry_elapsed:
  assumes "\<And>w. ck_now ck w \<le> ck_now ck (snd (act w)) \<and> ck_now ck (snd (act w)) \<le> ck_now ck w + D"
    and "\<And>d w. ck_now ck w \<le> ck_now ck (ck_sleep ck d w) \<and> ck_now ck (ck_sleep ck d w) \<le> ck_now ck w + d + eps"
  shows "ck_now ck (snd (run_with_retry ck p act w))
    \<le> ck_now ck w + from_millis (rp_total_cap_ms p) + max D eps"
proof -
  have "elapsed ck (ck_now ck w) (snd (run_with_retry ck p act w))
      \<le> from_millis (rp_total_cap_ms p) + max D eps"
    unfolding run_with_retry_def
    by (rule retry_loop_elapsed) (use assms in \<open>auto simp: elapsed_def\<close>)
  then show ?thesis by (simp add: elapsed_def)
qed

theorem run_with_retry_elapsed_witness:
  "fst (snd (run_with_retry script_clock script_policy script_act
      (0, [Inl (Http ''503''), Inl (Http ''503''), Inr 7]))) \<le> 10000000005"
proof -
  let ?p = "script_policy :: (nat \<times> nat core_result list) retrying"
  let ?w = "(0 :: nat, [Inl (Http ''503''), Inl (Http ''503''), Inr (7 :: nat)])"
  have "ck_now script_clock (snd (run_with_retry script_clock ?p script_act ?w))
    \<le> ck_now script_clock ?w + from_millis (rp_total_cap_ms ?p) + max 5 0"
    by (rule run_with_retry_elapsed)
      (auto simp: script_clock_def script_act_def split: list.splits)
  then show ?thesis
    by (simp add: script_clock_def script_policy_def retrying_new_def from_millis_def)
qed

end
