(* ===== verification/LlmProviders.thy ===== *)
theory LlmProviders
  imports Llm
begin

text \<open>
  The three network providers: OpenAI chat completions (\<^verbatim>\<open>llm/openai.rs\<close>), the Ollama generate API
  (\<^verbatim>\<open>llm/ollama.rs\<close>) and Anthropic messages with forced tool use (\<^verbatim>\<open>llm/anthropic.rs\<close>). Each builds
  its request, classifies the status and parses the reply; the transport and the JSON library are
  parameters.
\<close>

section \<open>The parts the three repeat\<close>

text \<open>The extraction prompt, \<^verbatim>\<open>llm/prompts/extraction_system.txt\<close>.\<close>

definition EXTRACTION_SYSTEM_PROMPT :: string where
  \<open>EXTRACTION_SYSTEM_PROMPT =
     ''You are a knowledge-graph extractor. Read the user message and return ONLY a JSON object with two keys:\<newline>''
     @ ''\<newline>''
     @ ''{\<newline>''
     @ ''  "entities": [\<newline>''
     @ ''    {"name": "<canonical entity name>", "kind": "<person|organization|location|concept|product|event|other>", "confidence": <0-1>}\<newline>''
     @ ''  ],\<newline>''
     @ ''  "relationships": [\<newline>''
     @ ''    {"src_name": "<entity name>", "dst_name": "<entity name>", "kind": "<verb_phrase_with_underscores>", "weight": 1.0, "confidence": <0-1>}\<newline>''
     @ ''  ]\<newline>''
     @ ''}\<newline>''
     @ ''\<newline>''
     @ ''Rules:\<newline>''
     @ ''- Names must match between `entities` and `relationships`.\<newline>''
     @ ''- Use lowercase_underscore for relationship `kind` (e.g., "works_at", "located_in").\<newline>''
     @ ''- Return only the JSON object ''
     @ [CHR 0xE2, CHR 0x80, CHR 0x94]
     @ '' no prose, no markdown.\<newline>''\<close>

text \<open>\<open>match HttpClassification::from_status(status) { ... }\<close>\<close>

definition check_status :: "u16 \<Rightarrow> string \<Rightarrow> unit core_result" where
  "check_status status body =
     (let m = ''status '' @ show_nat (unat status) @ '': '' @ body in
      case from_status status of
        Retryable \<Rightarrow> Inl (Http m)
      | Permanent \<Rightarrow> Inl (Llm m)
      | HttpOk \<Rightarrow> Inr ())"

definition json_parse :: "'v json_api \<Rightarrow> string \<Rightarrow> string \<Rightarrow> 'v core_result" where
  "json_parse J what s = map_err (\<lambda>e. Llm (what @ '': '' @ e)) (js_from_str J s)"

text \<open>\<open>as_f64().unwrap_or(1.0) as f32\<close> and \<open>as_u64().unwrap_or(0) as u32\<close>\<close>

definition f32_or_one :: "'v json_api \<Rightarrow> 'v \<Rightarrow> f32" where
  "f32_or_one J v = fcast binary32 (unwrap_or (Fin 1) (js_as_f64 J v))"

definition u32_or_zero :: "'v json_api \<Rightarrow> 'v \<Rightarrow> 32 word" where
  "u32_or_zero J v = word_of_nat (unwrap_or 0 (js_as_u64 J v))"

definition entity_of_json :: "'v json_api \<Rightarrow> 'v \<Rightarrow> extracted_entity option" where
  "entity_of_json J e =
     (case js_as_str J (js_key J e ''name'') of
        None \<Rightarrow> None
      | Some name \<Rightarrow> Some \<lparr>ee_name = name,
          ee_kind = js_as_str J (js_key J e ''kind''),
          ee_description = js_as_str J (js_key J e ''description''),
          ee_confidence = f32_or_one J (js_key J e ''confidence'')\<rparr>)"

definition relationship_of_json :: "'v json_api \<Rightarrow> 'v \<Rightarrow> extracted_relationship option" where
  "relationship_of_json J r =
     (case (js_as_str J (js_key J r ''src_name''), js_as_str J (js_key J r ''dst_name''),
            js_as_str J (js_key J r ''kind'')) of
        (Some src, Some dst, Some kind) \<Rightarrow> Some \<lparr>er_src_name = src, er_dst_name = dst, er_kind = kind,
          er_weight = f32_or_one J (js_key J r ''weight''),
          er_confidence = f32_or_one J (js_key J r ''confidence'')\<rparr>
      | _ \<Rightarrow> None)"

definition filter_map_array :: "'v json_api \<Rightarrow> ('v \<Rightarrow> 'a option) \<Rightarrow> 'v \<Rightarrow> 'a list" where
  "filter_map_array J f v = (case js_as_array J v of None \<Rightarrow> [] | Some vs \<Rightarrow> List.map_filter f vs)"

definition extraction_of_json :: "'v json_api \<Rightarrow> 'v \<Rightarrow> extraction" where
  "extraction_of_json J v =
     \<lparr>ex_entities = filter_map_array J (entity_of_json J) (js_key J v ''entities''),
      ex_relationships = filter_map_array J (relationship_of_json J) (js_key J v ''relationships'')\<rparr>"

section \<open>OpenAI\<close>

record openai =
  oa_api_key :: string
  oa_model :: string
  oa_base_url :: string
  oa_http :: http_client

definition openai_new :: "string \<Rightarrow> string \<Rightarrow> string \<Rightarrow> openai" where
  "openai_new api_key model base_url =
     \<lparr>oa_api_key = api_key, oa_model = model, oa_base_url = base_url, oa_http = http_client_new\<rparr>"

text \<open>\<open>v["choices"][0]["message"]["content"].as_str()\<close>\<close>

definition openai_content :: "'v json_api \<Rightarrow> 'v \<Rightarrow> string core_result" where
  "openai_content J v =
     ok_or (Llm ''no choices[0].message.content'')
       (js_as_str J (js_key J (js_key J (js_idx J (js_key J v ''choices'') 0) ''message'') ''content''))"

definition openai_parse_response :: "'v json_api \<Rightarrow> string \<Rightarrow> extraction core_result" where
  "openai_parse_response J body =
     res_bind (json_parse J ''parse'' body) (\<lambda>v.
     res_bind (openai_content J v) (\<lambda>content.
     res_bind (json_parse J ''content parse'' content) (\<lambda>parsed.
       Inr (extraction_of_json J parsed))))"

definition openai_extract ::
  "('r, 'v, 'w) transport \<Rightarrow> 'v json_api \<Rightarrow> openai \<Rightarrow> string \<Rightarrow> string \<Rightarrow> ('w, extraction) sr" where
  "openai_extract T J p chunk_text ns =
     (let body = js_object J
        [(''model'', js_string J (oa_model p)),
         (''response_format'', js_object J [(''type'', js_string J ''json_object'')]),
         (''messages'', js_array J
            [js_object J [(''role'', js_string J ''system''),
                          (''content'', js_string J EXTRACTION_SYSTEM_PROMPT)],
             js_object J [(''role'', js_string J ''user''),
                          (''content'', js_string J (''Extract from:\<newline>\<newline>'' @ chunk_text))]])];
        url = oa_base_url p @ ''/v1/chat/completions''
      in sr_bind (post_json T (oa_http p) url (Some (oa_api_key p)) body) (\<lambda>(status, body).
         sr_bind (sr_lift (check_status status body)) (\<lambda>_.
         sr_lift (openai_parse_response J body))))"

definition openai_complete ::
  "('r, 'v, 'w) transport \<Rightarrow> 'v json_api \<Rightarrow> openai \<Rightarrow> string \<Rightarrow> ('w, completion) sr" where
  "openai_complete T J p prompt =
     (let body = js_object J
        [(''model'', js_string J (oa_model p)),
         (''messages'', js_array J
            [js_object J [(''role'', js_string J ''user''), (''content'', js_string J prompt)]])];
        url = oa_base_url p @ ''/v1/chat/completions''
      in sr_bind (post_json T (oa_http p) url (Some (oa_api_key p)) body) (\<lambda>(status, resp_body).
         sr_bind (sr_lift (check_status status resp_body)) (\<lambda>_.
         sr_lift (
           res_bind (json_parse J ''parse'' resp_body) (\<lambda>v.
           res_bind (openai_content J v) (\<lambda>txt.
             Inr \<lparr>co_text = txt,
                  co_prompt_tokens = u32_or_zero J (js_key J (js_key J v ''usage'') ''prompt_tokens''),
                  co_completion_tokens =
                    u32_or_zero J (js_key J (js_key J v ''usage'') ''completion_tokens'')\<rparr>))))))"

definition openai_llm :: "('r, 'v, 'w) transport \<Rightarrow> 'v json_api \<Rightarrow> openai \<Rightarrow> 'w llm_provider" where
  "openai_llm T J p = \<lparr>lp_extract = openai_extract T J p, lp_complete = openai_complete T J p\<rparr>"

section \<open>Ollama\<close>

record ollama =
  ol_model :: string
  ol_base_url :: string
  ol_http :: http_client

definition ollama_new :: "string \<Rightarrow> string \<Rightarrow> ollama" where
  "ollama_new model base_url =
     \<lparr>ol_model = model, ol_base_url = base_url, ol_http = http_client_new\<rparr>"

definition ollama_parse_response :: "'v json_api \<Rightarrow> string \<Rightarrow> extraction core_result" where
  "ollama_parse_response J body =
     res_bind (json_parse J ''parse'' body) (\<lambda>v.
     res_bind (ok_or (Llm ''response missing .response string'') (js_as_str J (js_key J v ''response'')))
       (\<lambda>inner.
     res_bind (json_parse J ''response inner parse'' inner) (\<lambda>parsed.
       Inr (extraction_of_json J parsed))))"

definition ollama_extract ::
  "('r, 'v, 'w) transport \<Rightarrow> 'v json_api \<Rightarrow> ollama \<Rightarrow> string \<Rightarrow> string \<Rightarrow> ('w, extraction) sr" where
  "ollama_extract T J p chunk_text ns =
     (let prompt = EXTRACTION_SYSTEM_PROMPT @ ''\<newline>\<newline>Extract from:\<newline>\<newline>'' @ chunk_text;
        body = js_object J
          [(''model'', js_string J (ol_model p)), (''prompt'', js_string J prompt),
           (''format'', js_string J ''json''), (''stream'', js_bool J False)];
        url = ol_base_url p @ ''/api/generate''
      in sr_bind (post_json T (ol_http p) url None body) (\<lambda>(status, resp_body).
         sr_bind (sr_lift (check_status status resp_body)) (\<lambda>_.
         sr_lift (ollama_parse_response J resp_body))))"

definition ollama_complete ::
  "('r, 'v, 'w) transport \<Rightarrow> 'v json_api \<Rightarrow> ollama \<Rightarrow> string \<Rightarrow> ('w, completion) sr" where
  "ollama_complete T J p prompt =
     (let body = js_object J
          [(''model'', js_string J (ol_model p)), (''prompt'', js_string J prompt),
           (''stream'', js_bool J False)];
        url = ol_base_url p @ ''/api/generate''
      in sr_bind (post_json T (ol_http p) url None body) (\<lambda>(status, resp_body).
         sr_bind (sr_lift (check_status status resp_body)) (\<lambda>_.
         sr_lift (
           res_bind (json_parse J ''parse'' resp_body) (\<lambda>v.
           res_bind (ok_or (Llm ''response missing .response'') (js_as_str J (js_key J v ''response'')))
             (\<lambda>txt.
             Inr \<lparr>co_text = txt,
                  co_prompt_tokens = u32_or_zero J (js_key J v ''prompt_eval_count''),
                  co_completion_tokens = u32_or_zero J (js_key J v ''eval_count'')\<rparr>))))))"

definition ollama_llm :: "('r, 'v, 'w) transport \<Rightarrow> 'v json_api \<Rightarrow> ollama \<Rightarrow> 'w llm_provider" where
  "ollama_llm T J p = \<lparr>lp_extract = ollama_extract T J p, lp_complete = ollama_complete T J p\<rparr>"

section \<open>Anthropic\<close>

definition EXTRACTION_TOOL_NAME :: string where
  "EXTRACTION_TOOL_NAME = ''extract_graph''"

record anthropic =
  an_api_key :: string
  an_model :: string
  an_base_url :: string
  an_http :: http_client

definition anthropic_new :: "string \<Rightarrow> string \<Rightarrow> string \<Rightarrow> anthropic" where
  "anthropic_new api_key model base_url =
     \<lparr>an_api_key = api_key, an_model = model, an_base_url = base_url, an_http = http_client_new\<rparr>"

text \<open>The schema of the forced tool call.\<close>

definition anthropic_tool :: "'v json_api \<Rightarrow> 'v" where
  "anthropic_tool J =
     (let ty = (\<lambda>t. js_object J [(''type'', js_string J t)]);
        items = (\<lambda>props req. js_object J
          [(''type'', js_string J ''array''),
           (''items'', js_object J
              [(''type'', js_string J ''object''), (''properties'', js_object J props),
               (''required'', js_array J (map (js_string J) req))])])
      in js_object J
        [(''name'', js_string J EXTRACTION_TOOL_NAME),
         (''description'', js_string J ''Extract entities and relationships from text.''),
         (''input_schema'', js_object J
            [(''type'', js_string J ''object''),
             (''properties'', js_object J
                [(''entities'', items
                    [(''name'', ty ''string''), (''kind'', ty ''string''), (''confidence'', ty ''number'')]
                    [''name'']),
                 (''relationships'', items
                    [(''src_name'', ty ''string''), (''dst_name'', ty ''string''), (''kind'', ty ''string''),
                     (''weight'', ty ''number''), (''confidence'', ty ''number'')]
                    [''src_name'', ''dst_name'', ''kind''])]),
             (''required'', js_array J [js_string J ''entities'', js_string J ''relationships''])])])"

text \<open>The first block of \<open>content[]\<close> whose \<open>type\<close> is the one asked for.\<close>

definition anthropic_block :: "'v json_api \<Rightarrow> string \<Rightarrow> string \<Rightarrow> 'v \<Rightarrow> 'v core_result" where
  "anthropic_block J ty missing v =
     res_bind (ok_or (Llm ''response missing content[]'') (js_as_array J (js_key J v ''content'')))
       (\<lambda>content. ok_or (Llm missing) (find (\<lambda>b. js_as_str J (js_key J b ''type'') = Some ty) content))"

definition anthropic_parse_response :: "'v json_api \<Rightarrow> string \<Rightarrow> extraction core_result" where
  "anthropic_parse_response J body =
     res_bind (json_parse J ''parse'' body) (\<lambda>v.
     res_bind (anthropic_block J ''tool_use'' ''no tool_use block in content[]'' v) (\<lambda>tool_block.
       Inr (extraction_of_json J (js_key J tool_block ''input''))))"

definition anthropic_extract ::
  "('r, 'v, 'w) transport \<Rightarrow> 'v json_api \<Rightarrow> anthropic \<Rightarrow> string \<Rightarrow> string \<Rightarrow> ('w, extraction) sr" where
  "anthropic_extract T J p chunk_text ns =
     (let body = js_object J
        [(''model'', js_string J (an_model p)),
         (''max_tokens'', js_int J 4096),
         (''tools'', js_array J [anthropic_tool J]),
         (''tool_choice'', js_object J [(''type'', js_string J ''tool''),
                                       (''name'', js_string J EXTRACTION_TOOL_NAME)]),
         (''messages'', js_array J [js_object J
            [(''role'', js_string J ''user''),
             (''content'', js_string J (''Extract entities and relationships from:\<newline>\<newline>'' @ chunk_text))]])];
        url = an_base_url p @ ''/v1/messages'';
        headers = [(''x-api-key'', an_api_key p), (''anthropic-version'', ''2023-06-01''),
                   (''content-type'', ''application/json'')]
      in sr_bind (post_json_with_headers T (an_http p) url headers body) (\<lambda>(status, resp_body).
         sr_bind (sr_lift (check_status status resp_body)) (\<lambda>_.
         sr_lift (anthropic_parse_response J resp_body))))"

definition anthropic_complete ::
  "('r, 'v, 'w) transport \<Rightarrow> 'v json_api \<Rightarrow> anthropic \<Rightarrow> string \<Rightarrow> ('w, completion) sr" where
  "anthropic_complete T J p prompt =
     (let body = js_object J
        [(''model'', js_string J (an_model p)),
         (''max_tokens'', js_int J 4096),
         (''messages'', js_array J
            [js_object J [(''role'', js_string J ''user''), (''content'', js_string J prompt)]])];
        url = an_base_url p @ ''/v1/messages'';
        headers = [(''x-api-key'', an_api_key p), (''anthropic-version'', ''2023-06-01'')]
      in sr_bind (post_json_with_headers T (an_http p) url headers body) (\<lambda>(status, resp_body).
         sr_bind (sr_lift (check_status status resp_body)) (\<lambda>_.
         sr_lift (
           res_bind (json_parse J ''parse'' resp_body) (\<lambda>v.
           res_bind (anthropic_block J ''text'' ''no text block in content[]'' v) (\<lambda>text_block.
           res_bind (ok_or (Llm ''text block missing .text'') (js_as_str J (js_key J text_block ''text'')))
             (\<lambda>txt.
             Inr \<lparr>co_text = txt,
                  co_prompt_tokens = u32_or_zero J (js_key J (js_key J v ''usage'') ''input_tokens''),
                  co_completion_tokens =
                    u32_or_zero J (js_key J (js_key J v ''usage'') ''output_tokens'')\<rparr>)))))))"

definition anthropic_llm :: "('r, 'v, 'w) transport \<Rightarrow> 'v json_api \<Rightarrow> anthropic \<Rightarrow> 'w llm_provider" where
  "anthropic_llm T J p = \<lparr>lp_extract = anthropic_extract T J p, lp_complete = anthropic_complete T J p\<rparr>"

section \<open>Errors\<close>

text \<open>Everything after the exchange of messages fails with \<open>Llm\<close>: a bad reply is never retried.\<close>

definition llm_only :: "'a core_result \<Rightarrow> bool" where
  "llm_only r \<longleftrightarrow> (\<forall>e. r = Inl e \<longrightarrow> (\<exists>m. e = Llm m))"

lemma llm_only_simps [simp]: "llm_only (Inr a)" "llm_only (Inl e) \<longleftrightarrow> (\<exists>m. e = Llm m)"
  by (simp_all add: llm_only_def)

lemma llm_only_bind: "llm_only r \<Longrightarrow> (\<And>a. llm_only (f a)) \<Longrightarrow> llm_only (res_bind r f)"
  by (cases r) auto

lemma llm_only_ok_or: "llm_only (ok_or (Llm m) x)"
  by (cases x) auto

lemma llm_only_json_parse: "llm_only (json_parse J what s)"
  by (cases "js_from_str J s") (auto simp: json_parse_def)

lemmas llm_only_intros = llm_only_bind llm_only_ok_or llm_only_json_parse

lemma llm_only_parsers:
  "llm_only (openai_parse_response J s)" "llm_only (ollama_parse_response J s)"
  "llm_only (anthropic_parse_response J s)"
  unfolding openai_parse_response_def ollama_parse_response_def anthropic_parse_response_def
    openai_content_def anthropic_block_def
  by (intro llm_only_intros llm_only_simps)+

text \<open>
  One exchange: the error is retryable exactly when the transport failed or the status is one of
  429 and 5xx.
\<close>

definition exchange ::
  "('w, u16 \<times> string) sr \<Rightarrow> (string \<Rightarrow> 'a core_result) \<Rightarrow> ('w, 'a) sr" where
  "exchange m parse =
     sr_bind m (\<lambda>(status, body). sr_bind (sr_lift (check_status status body)) (\<lambda>_. sr_lift (parse body)))"

lemma exchange_err:
  assumes "exchange m parse w = (Inl e, w')" and "\<And>s. llm_only (parse s)"
    and "\<And>w e w'. m w = (Inl e, w') \<Longrightarrow> \<exists>x. e = Http x"
  shows "(case fst (m w) of
      Inl f \<Rightarrow> e = f \<and> is_retryable e
    | Inr (status, body) \<Rightarrow>
        if from_status status = Retryable then is_retryable e else \<exists>x. e = Llm x)
    \<and> http_or_llm e"
proof -
  obtain q w1 where m: "m w = (q, w1)" by fastforce
  show ?thesis
  proof (cases q)
    case (Inl f)
    then obtain x where "f = Http x" using assms(3) m by blast
    with Inl m assms(1) show ?thesis by (auto simp: exchange_def)
  next
    case (Inr sb)
    obtain status body where sb: "sb = (status, body)" by fastforce
    have p: "llm_only (parse body)" by (rule assms(2))
    show ?thesis
      using m Inr sb assms(1) p
      by (cases "from_status status") (auto simp: exchange_def check_status_def Let_def sr_apply)
  qed
qed

lemma post_json_Inl: "post_json T c url b v w = (Inl e, w') \<Longrightarrow> \<exists>m. e = Http m"
  unfolding post_json_def Let_def by (rule post_json_with_headers_Inl)


text \<open>Every method of the three is one exchange, with a parser that only fails with \<open>Llm\<close>.\<close>

definition network_method :: "('r, 'v, 'w) transport \<Rightarrow> ('w, 'a) sr \<Rightarrow> bool" where
  "network_method T f \<longleftrightarrow>
     (\<exists>c url hs v parse. f = exchange (post_json_with_headers T c url hs v) parse
        \<and> (\<forall>s. llm_only (parse s)))"

lemma network_methodI:
  "f = exchange (post_json_with_headers T c url hs v) parse \<Longrightarrow> (\<And>s. llm_only (parse s))
   \<Longrightarrow> network_method T f"
  unfolding network_method_def by blast

lemma network_method_err:
  assumes "network_method T f" and "f w = (Inl e, w')"
    and "\<And>c url hs v. fst (post_json_with_headers T c url hs v w) = outcome"
  shows "case outcome of
      Inl g \<Rightarrow> e = g \<and> is_retryable e
    | Inr (status, body) \<Rightarrow>
        if from_status status = Retryable then is_retryable e else \<exists>x. e = Llm x"
proof -
  obtain c url hs v parse where f: "f = exchange (post_json_with_headers T c url hs v) parse"
      and p: "\<And>s. llm_only (parse s)"
    using assms(1) unfolding network_method_def by blast
  have t: "\<exists>x. e = Http x" if "post_json_with_headers T c url hs v w = (Inl e, w')" for w e w'
    using that by (rule post_json_with_headers_Inl)
  show ?thesis using exchange_err[OF assms(2)[unfolded f] p t] assms(3)[of c url hs v] by simp
qed

lemma network_method_http_or_llm:
  assumes "network_method T f" and "f w = (Inl e, w')"
  shows "http_or_llm e"
proof -
  obtain c url hs v parse where f: "f = exchange (post_json_with_headers T c url hs v) parse"
      and p: "\<And>s. llm_only (parse s)"
    using assms(1) unfolding network_method_def by blast
  have t: "\<exists>x. e = Http x" if "post_json_with_headers T c url hs v w = (Inl e, w')" for w e w'
    using that by (rule post_json_with_headers_Inl)
  show ?thesis using exchange_err[OF assms(2)[unfolded f] p t] by simp
qed

lemma network_extract:
  "network_method T (openai_extract T J a t n)"
  "network_method T (ollama_extract T J b t n)"
  "network_method T (anthropic_extract T J c t n)"
  unfolding openai_extract_def ollama_extract_def anthropic_extract_def Let_def post_json_def
    exchange_def[symmetric]
  by (rule network_methodI[OF refl], rule llm_only_parsers)+

lemma network_complete:
  "network_method T (openai_complete T J a q)"
  "network_method T (ollama_complete T J b q)"
  "network_method T (anthropic_complete T J c q)"
  unfolding openai_complete_def ollama_complete_def anthropic_complete_def Let_def post_json_def
    openai_content_def anthropic_block_def exchange_def[symmetric]
  by (rule network_methodI[OF refl], intro llm_only_intros llm_only_simps)+

interpretation openai: llm_contract "openai_llm T J p" for T :: "('r, 'v, 'w) transport" and J p
  by unfold_locales
    (auto simp: openai_llm_def intro: network_method_http_or_llm network_extract network_complete)

interpretation ollama: llm_contract "ollama_llm T J p" for T :: "('r, 'v, 'w) transport" and J p
  by unfold_locales
    (auto simp: ollama_llm_def intro: network_method_http_or_llm network_extract network_complete)

interpretation anthropic: llm_contract "anthropic_llm T J p" for T :: "('r, 'v, 'w) transport" and J p
  by unfold_locales
    (auto simp: anthropic_llm_def intro: network_method_http_or_llm network_extract network_complete)

section \<open>Replies\<close>

text \<open>The JSON a model is asked to return for an extraction, as the prompt and the schema say.\<close>

definition opt_string :: "'v json_api \<Rightarrow> string option \<Rightarrow> 'v" where
  "opt_string J x = (case x of None \<Rightarrow> js_null J | Some s \<Rightarrow> js_string J s)"

definition entity_json :: "'v json_api \<Rightarrow> extracted_entity \<Rightarrow> 'v" where
  "entity_json J e = js_object J
     [(''name'', js_string J (ee_name e)), (''kind'', opt_string J (ee_kind e)),
      (''description'', opt_string J (ee_description e)), (''confidence'', js_float J (ee_confidence e))]"

definition relationship_json :: "'v json_api \<Rightarrow> extracted_relationship \<Rightarrow> 'v" where
  "relationship_json J r = js_object J
     [(''src_name'', js_string J (er_src_name r)), (''dst_name'', js_string J (er_dst_name r)),
      (''kind'', js_string J (er_kind r)), (''weight'', js_float J (er_weight r)),
      (''confidence'', js_float J (er_confidence r))]"

definition extraction_json :: "'v json_api \<Rightarrow> extraction \<Rightarrow> 'v" where
  "extraction_json J x = js_object J
     [(''entities'', js_array J (map (entity_json J) (ex_entities x))),
      (''relationships'', js_array J (map (relationship_json J) (ex_relationships x)))]"

text \<open>The envelopes of the three services.\<close>

definition openai_reply :: "'v json_api \<Rightarrow> string \<Rightarrow> 'v" where
  "openai_reply J content = js_object J
     [(''choices'', js_array J [js_object J [(''message'', js_object J [(''content'', js_string J content)])]])]"

definition ollama_reply :: "'v json_api \<Rightarrow> string \<Rightarrow> 'v" where
  "ollama_reply J inner = js_object J [(''response'', js_string J inner), (''done'', js_bool J True)]"

definition anthropic_reply :: "'v json_api \<Rightarrow> 'v \<Rightarrow> 'v" where
  "anthropic_reply J input = js_object J
     [(''content'', js_array J
        [js_object J [(''type'', js_string J ''text''), (''text'', js_string J ''ok'')],
         js_object J [(''type'', js_string J ''tool_use''), (''input'', input)]])]"

text \<open>The numbers of an extraction are finite \<open>f32\<close> values.\<close>

definition f32_finite :: "fl \<Rightarrow> bool" where
  "f32_finite x \<longleftrightarrow> is_finite x \<and> is_fl binary32 x"

definition extraction_finite :: "extraction \<Rightarrow> bool" where
  "extraction_finite x \<longleftrightarrow>
     list_all (\<lambda>e. f32_finite (ee_confidence e)) (ex_entities x)
     \<and> list_all (\<lambda>r. f32_finite (er_weight r) \<and> f32_finite (er_confidence r)) (ex_relationships x)"

lemma f32_or_one_float:
  "json_laws J \<Longrightarrow> f32_finite x \<Longrightarrow> f32_or_one J (js_float J x) = x"
  by (cases x) (auto simp: f32_or_one_def json_access f32_finite_def fcast_def is_fl_def)

lemma as_str_opt_string: "json_laws J \<Longrightarrow> js_as_str J (opt_string J x) = x"
  by (cases x) (simp_all add: opt_string_def json_access)

lemma entity_of_entity_json:
  "json_laws J \<Longrightarrow> f32_finite (ee_confidence e) \<Longrightarrow> entity_of_json J (entity_json J e) = Some e"
  by (simp add: entity_of_json_def entity_json_def json_access as_str_opt_string f32_or_one_float)

lemma relationship_of_relationship_json:
  "json_laws J \<Longrightarrow> f32_finite (er_weight r) \<Longrightarrow> f32_finite (er_confidence r)
   \<Longrightarrow> relationship_of_json J (relationship_json J r) = Some r"
  by (simp add: relationship_of_json_def relationship_json_def json_access f32_or_one_float)

lemma map_filter_map_Some:
  "(\<And>x. x \<in> set xs \<Longrightarrow> f (g x) = Some x) \<Longrightarrow> List.map_filter f (map g xs) = xs"
  by (induction xs) (simp_all add: map_filter_simps)

lemma extraction_of_extraction_json:
  assumes "json_laws J" and "extraction_finite x"
  shows "extraction_of_json J (extraction_json J x) = x"
  using assms
  by (simp add: extraction_of_json_def extraction_json_def json_access filter_map_array_def
      extraction_finite_def list_all_iff map_filter_map_Some entity_of_entity_json
      relationship_of_relationship_json)

section \<open>Properties\<close>


text \<open>A transport that answers every request with one status and body.\<close>

definition fixed_transport :: "u16 \<Rightarrow> string \<Rightarrow> (u16 \<times> string, jv, unit) transport" where
  "fixed_transport st body = \<lparr>
     tr_get = (\<lambda>c url w. (Inr (st, body), w)), tr_post = (\<lambda>c url v hs w. (Inr (st, body), w)),
     tr_status = fst, tr_status_display = (\<lambda>r. show_nat (unat (fst r))),
     tr_body = (\<lambda>r w. (Inr (snd r), w))\<rparr>"

lemma fixed_transport_post:
  "post_json_with_headers (fixed_transport st body) c url hs v w = (Inr (st, body), w)"
  by (simp add: post_json_with_headers_def fixed_transport_def sr_bind_def http_err_def sr_apply)

lemma show_nat_401: "show_nat 401 = ''401''"
  by code_simp

lemma fixed_transport_401:
  "lp_complete (ollama_llm (fixed_transport 401 ''denied'') (jv_api []) (ollama_new ''m'' ''u'')) ''hi'' ()
     = (Inl (Llm ''status 401: denied''), ())"
  by (simp add: ollama_llm_def ollama_complete_def post_json_def fixed_transport_post check_status_def
      from_status_def sr_apply show_nat_401)


text \<open>
  C36 (replies): the three dialects decode the same extraction: a well-formed reply of each service that
  carries the JSON of \<open>x\<close> is parsed back to exactly \<open>x\<close>.
\<close>

theorem replies_roundtrip:
  assumes "json_laws J" and "extraction_finite x"
    and "js_from_str J inner = Inr (extraction_json J x)"
    and "js_from_str J oa = Inr (openai_reply J inner)"
    and "js_from_str J ol = Inr (ollama_reply J inner)"
    and "js_from_str J an = Inr (anthropic_reply J (extraction_json J x))"
  shows "openai_parse_response J oa = Inr x \<and> ollama_parse_response J ol = Inr x
    \<and> anthropic_parse_response J an = Inr x"
  using assms
  by (simp add: openai_parse_response_def ollama_parse_response_def anthropic_parse_response_def
      json_parse_def openai_content_def anthropic_block_def openai_reply_def ollama_reply_def
      anthropic_reply_def json_access extraction_of_extraction_json)

definition demo_extraction :: extraction where
  "demo_extraction = \<lparr>
     ex_entities = [\<lparr>ee_name = ''Ada'', ee_kind = Some ''person'', ee_description = None, ee_confidence = Fin 1\<rparr>],
     ex_relationships = [\<lparr>er_src_name = ''Ada'', er_dst_name = ''Ada'', er_kind = ''is'', er_weight = Fin 1,
       er_confidence = NZero\<rparr>]\<rparr>"

lemma demo_extraction_finite: "extraction_finite demo_extraction"
  using rnd_small_int[of 1 binary32]
  by (simp add: demo_extraction_def extraction_finite_def f32_finite_def is_fl_def binary32_def)

definition demo_json :: "jv json_api" where
  "demo_json = (let J = jv_api [] in jv_api
     [(''x'', extraction_json J demo_extraction), (''oa'', openai_reply J ''x''),
      (''ol'', ollama_reply J ''x''), (''an'', anthropic_reply J (extraction_json J demo_extraction))])"

theorem replies_roundtrip_witness:
  "openai_parse_response demo_json ''oa'' = Inr demo_extraction
   \<and> ollama_parse_response demo_json ''ol'' = Inr demo_extraction
   \<and> anthropic_parse_response demo_json ''an'' = Inr demo_extraction"
proof (rule replies_roundtrip[where inner = "''x''"])
  show "json_laws demo_json" by (simp add: demo_json_def Let_def)
  show "extraction_finite demo_extraction" by (rule demo_extraction_finite)
qed (simp_all add: demo_json_def Let_def jv_api_def extraction_json_def openai_reply_def ollama_reply_def
    anthropic_reply_def demo_extraction_def entity_json_def relationship_json_def opt_string_def)

end
