(* ===== verification/Ask.thy ===== *)
theory Ask
  imports Llm RustStr "HOL-Library.Sublist"
begin

text \<open>
  Grounded answers: the numbered-context prompt and the citations mapped back
  (\<^verbatim>\<open>llm/prompt.rs\<close>), the \<open>ask\<close> flow (\<^verbatim>\<open>llm/ask.rs\<close>) and the choice of a provider
  (\<^verbatim>\<open>llm/resolve.rs\<close>). The regular-expression library is a parameter: \<open>captures\<close> gives the texts
  that group 1 of \<^verbatim>\<open>\[(\d+)\]\<close> matched, in order.
\<close>

section \<open>Prompt\<close>

record prompt_chunk =
  pc_chunk_id :: uuid
  pc_document_id :: uuid
  pc_ord :: i32
  pc_text :: string
  pc_token_count :: i32

record built_prompt =
  bp_prompt_text :: string
  bp_id_map :: "uuid list"
  bp_doc_map :: "uuid list"
  bp_ord_map :: "i32 list"
  bp_prompt_tokens :: i32
  bp_dropped_count :: nat

definition SYSTEM_PROMPT :: string where
  "SYSTEM_PROMPT =
     ''You are a careful assistant that answers questions using ONLY the provided context blocks.\<newline>\<newline>''
     @ ''For every factual claim, cite the supporting block as `[N]` where N is the block number.\<newline>''
     @ ''Do not invent citations. Do not cite blocks not provided. If the answer is not in the context, say so.''"

definition show_i32 :: "i32 \<Rightarrow> string" where
  "show_i32 i = show_int (sint i)"

text \<open>
  The greedy selection: the chunks kept, their total and the number dropped. The addition is on
  \<open>i32\<close> and wraps, as a release build of the source does.
\<close>

fun select_chunks :: "i32 \<Rightarrow> i32 \<Rightarrow> prompt_chunk list \<Rightarrow> prompt_chunk list \<times> i32 \<times> nat" where
  "select_chunks budget running [] = ([], running, 0)"
| "select_chunks budget running (c # cs) =
     (if running + pc_token_count c <=s budget then
        (case select_chunks budget (running + pc_token_count c) cs of
           (included, tot, dropped) \<Rightarrow> (c # included, tot, dropped))
      else
        (case select_chunks budget running cs of
           (included, tot, dropped) \<Rightarrow> (included, tot, dropped + 1)))"

fun render_blocks :: "nat \<Rightarrow> string list \<Rightarrow> string" where
  "render_blocks i [] = []"
| "render_blocks i (t # ts) =
     ''['' @ show_nat (i + 1) @ ''] '' @ t @ ''\<newline>\<newline>'' @ render_blocks (i + 1) ts"

definition render_prompt :: "string \<Rightarrow> string list \<Rightarrow> string" where
  "render_prompt question texts =
     SYSTEM_PROMPT @ ''\<newline>\<newline>## Context\<newline>'' @ render_blocks 0 texts
     @ ''## Question\<newline>'' @ question @ ''\<newline>\<newline>## Answer\<newline>''"

definition build_ask_prompt :: "string \<Rightarrow> prompt_chunk list \<Rightarrow> i32 \<Rightarrow> built_prompt core_result" where
  "build_ask_prompt question chunks budget =
     (if budget <=s 0 then Inl (InvalidConfig (''invalid budget '' @ show_i32 budget))
      else case chunks of
        [] \<Rightarrow> Inl (InvalidConfig ''ask: no context chunks'')
      | c0 # _ \<Rightarrow>
          if budget <s pc_token_count c0 then
            Inl (InvalidConfig (''first chunk ('' @ show_i32 (pc_token_count c0)
              @ '' tokens) exceeds budget ('' @ show_i32 budget @ '')''))
          else (case select_chunks budget 0 chunks of
            (included, running, dropped) \<Rightarrow> Inr
              \<lparr>bp_prompt_text = render_prompt question (map pc_text included),
               bp_id_map = map pc_chunk_id included,
               bp_doc_map = map pc_document_id included,
               bp_ord_map = map pc_ord included,
               bp_prompt_tokens = running,
               bp_dropped_count = dropped\<rparr>))"

record citation =
  ci_n :: nat
  ci_chunk_id :: uuid
  ci_document_id :: uuid
  ci_ord :: i32

text \<open>The loop over the captures; \<open>seen\<close> is the ordered set of the numbers already cited.\<close>

fun collect_citations :: "built_prompt \<Rightarrow> nat list \<Rightarrow> string list \<Rightarrow> citation list" where
  "collect_citations built seen [] = []"
| "collect_citations built seen (s # ss) =
     (case parse_usize s of
        None \<Rightarrow> collect_citations built seen ss
      | Some n \<Rightarrow>
          if 1 \<le> n \<and> n \<le> length (bp_id_map built) \<and> n \<notin> set seen then
            \<lparr>ci_n = n, ci_chunk_id = bp_id_map built ! (n - 1),
             ci_document_id = bp_doc_map built ! (n - 1), ci_ord = bp_ord_map built ! (n - 1)\<rparr>
            # collect_citations built (n # seen) ss
          else collect_citations built seen ss)"

definition extract_citations :: "(string \<Rightarrow> string list) \<Rightarrow> string \<Rightarrow> built_prompt \<Rightarrow> citation list" where
  "extract_citations captures answer_text built = collect_citations built [] (captures answer_text)"

section \<open>Ask\<close>

record ask_request =
  ar_question :: string
  ar_chunks :: "prompt_chunk list"
  ar_provider :: string
  ar_model :: string
  ar_token_budget :: i32

record 'v ask_result =
  as_answer :: string
  as_citations :: "citation list"
  as_signals :: 'v
  as_mode_used :: string

definition u64_max :: nat where "u64_max = 18446744073709551615"

text \<open>\<open>u64::try_from(elapsed.as_millis()).unwrap_or(u64::MAX)\<close> of nanoseconds.\<close>

definition latency_millis :: "nat \<Rightarrow> nat" where
  "latency_millis ns = min (ns div 1000000) u64_max"

definition ask_signals :: "'v json_api \<Rightarrow> ask_request \<Rightarrow> built_prompt \<Rightarrow> completion \<Rightarrow> nat \<Rightarrow> 'v" where
  "ask_signals J req built compl latency_ms = js_object J
     [(''retrieval'', js_object J
        [(''chunks_in_prompt'', js_int J (int (length (bp_id_map built)))),
         (''dropped_for_budget'', js_int J (int (bp_dropped_count built)))]),
      (''llm'', js_object J
        [(''provider'', js_string J (ar_provider req)),
         (''model'', js_string J (ar_model req)),
         (''latency_ms'', js_int J (int latency_ms)),
         (''prompt_tokens'', js_int J (uint (co_prompt_tokens compl))),
         (''completion_tokens'', js_int J (uint (co_completion_tokens compl)))])]"

definition ask ::
  "'v json_api \<Rightarrow> (string \<Rightarrow> string list) \<Rightarrow> 'w clock \<Rightarrow> ask_request \<Rightarrow> 'w llm_provider
     \<Rightarrow> ('w, 'v ask_result) sr" where
  "ask J captures ck req p =
     sr_bind (sr_lift (build_ask_prompt (ar_question req) (ar_chunks req) (ar_token_budget req))) (\<lambda>built.
     sr_bind (\<lambda>w. (Inr (ck_now ck w), w)) (\<lambda>started.
     sr_bind (lp_complete p (bp_prompt_text built)) (\<lambda>compl.
     sr_bind (\<lambda>w. (Inr (latency_millis (elapsed ck started w)), w)) (\<lambda>latency_ms.
       sr_return
         \<lparr>as_answer = co_text compl,
          as_citations = extract_citations captures (co_text compl) built,
          as_signals = ask_signals J req built compl latency_ms,
          as_mode_used = ''hybrid''\<rparr>))))"

section \<open>Provider resolution\<close>

record provider_ref =
  pr_name :: string
  pr_kind :: string

definition resolve_provider ::
  "string option \<Rightarrow> string option \<Rightarrow> provider_ref list \<Rightarrow> string core_result" where
  "resolve_provider explicit namespace_default available =
     (case explicit of
        Some e \<Rightarrow> Inr e
      | None \<Rightarrow> (case namespace_default of
          Some ns \<Rightarrow> Inr ns
        | None \<Rightarrow> ok_or (InvalidConfig ''no LLM provider configured'')
            (map_option pr_name (find (\<lambda>p. pr_kind p = ''llm'') available))))"

section \<open>The selection\<close>

lemma sless_i32: "a <s b \<longleftrightarrow> sint a < sint b" "a <=s b \<longleftrightarrow> sint a \<le> sint b" for a b :: i32
  by (simp_all add: word_sle_eq word_sless_alt)

lemma select_chunks_shape:
  "select_chunks b r cs = (inc, t, d) \<Longrightarrow> subseq inc cs \<and> length inc + d = length cs"
  by (induction b r cs arbitrary: inc t d rule: select_chunks.induct)
    (auto split: if_splits prod.splits)

lemma subseq_set: "subseq xs ys \<Longrightarrow> x \<in> set xs \<Longrightarrow> x \<in> set ys"
  by (induction rule: list_emb.induct) auto

lemma select_chunks_first:
  "select_chunks b 0 (c # cs) = (inc, t, d) \<Longrightarrow> pc_token_count c <=s b \<Longrightarrow> \<exists>inc'. inc = c # inc'"
  by (auto split: if_splits prod.splits)

lemma select_chunks_bounded:
  "select_chunks b r cs = (inc, t, d) \<Longrightarrow> sint r \<le> sint b \<Longrightarrow> sint t \<le> sint b"
  by (induction b r cs arbitrary: inc t d rule: select_chunks.induct)
    (auto simp: sless_i32 split: if_splits prod.splits)

text \<open>Without overflow the wrapped additions are the true ones.\<close>

definition token_counts_ok :: "i32 \<Rightarrow> prompt_chunk list \<Rightarrow> bool" where
  "token_counts_ok b cs \<longleftrightarrow>
     (\<forall>c \<in> set cs. 0 \<le> sint (pc_token_count c) \<and> sint b + sint (pc_token_count c) \<le> i32_max)"

definition token_sum :: "prompt_chunk list \<Rightarrow> int" where
  "token_sum cs = (\<Sum>c\<leftarrow>cs. sint (pc_token_count c))"

lemma token_sum_simps [simp]:
  "token_sum [] = 0" "token_sum (c # cs) = sint (pc_token_count c) + token_sum cs"
  by (simp_all add: token_sum_def)

lemma sint_add_i32:
  fixes a c :: i32
  assumes "0 \<le> sint a" and "0 \<le> sint c" and "sint a + sint c \<le> i32_max"
  shows "sint (a + c) = sint a + sint c"
  using assms by (simp add: sint_word_ariths i32_max_def signed_take_bit_int_eq_self)

lemma select_chunks_sum:
  assumes "select_chunks b r cs = (inc, t, d)" and "token_counts_ok b cs" and "0 \<le> sint r"
    and "sint r \<le> sint b"
  shows "sint t = sint r + token_sum inc \<and> sint r \<le> sint t
    \<and> (\<forall>c \<in> set cs. sint t + sint (pc_token_count c) \<le> sint b \<longrightarrow> c \<in> set inc)"
  using assms
proof (induction b r cs arbitrary: inc t d rule: select_chunks.induct)
  case (1 b r)
  then show ?case by simp
next
  case (2 b r c cs)
  have ok: "0 \<le> sint (pc_token_count c)" "sint b + sint (pc_token_count c) \<le> i32_max"
    "token_counts_ok b cs"
    using "2.prems"(2) by (auto simp: token_counts_ok_def)
  then have add: "sint (r + pc_token_count c) = sint r + sint (pc_token_count c)"
    using "2.prems"(3,4) by (intro sint_add_i32) auto
  show ?case
  proof (cases "r + pc_token_count c <=s b")
    case True
    then obtain inc' where "select_chunks b (r + pc_token_count c) cs = (inc', t, d)" "inc = c # inc'"
      using "2.prems"(1) by (auto split: prod.splits)
    with "2.IH"(1)[OF True] True ok add "2.prems"(3) show ?thesis by (fastforce simp: sless_i32)
  next
    case False
    then obtain d' where "select_chunks b r cs = (inc, t, d')"
      using "2.prems"(1) by (auto split: prod.splits)
    with "2.IH"(2)[OF False] False ok add "2.prems"(3,4) show ?thesis by (fastforce simp: sless_i32)
  qed
qed

lemma build_ask_prompt_Inr:
  assumes "build_ask_prompt q cs b = Inr built"
  obtains c0 rest inc run d where "cs = c0 # rest" and "0 < sint b"
    and "sint (pc_token_count c0) \<le> sint b" and "select_chunks b 0 cs = (inc, run, d)"
    and "built = \<lparr>bp_prompt_text = render_prompt q (map pc_text inc),
               bp_id_map = map pc_chunk_id inc, bp_doc_map = map pc_document_id inc,
               bp_ord_map = map pc_ord inc, bp_prompt_tokens = run, bp_dropped_count = d\<rparr>"
proof -
  obtain inc run d where s: "select_chunks b 0 cs = (inc, run, d)" by (metis prod_cases3)
  show ?thesis
    using assms s that by (auto simp: build_ask_prompt_def sless_i32 split: if_splits list.splits)
qed

lemma select_chunks_cong:
  assumes "list_all2 (\<lambda>x y. pc_text x = pc_text y \<and> pc_token_count x = pc_token_count y) cs ds"
  shows "\<exists>inc inc' t d. select_chunks b r cs = (inc, t, d) \<and> select_chunks b r ds = (inc', t, d)
    \<and> map pc_text inc = map pc_text inc'"
  using assms
proof (induction cs ds arbitrary: r rule: list_all2_induct)
  case Nil
  then show ?case by simp
next
  case (Cons x xs y ys)
  then show ?case using Cons.IH[of r] Cons.IH[of "r + pc_token_count y"] by fastforce
qed

section \<open>Citations\<close>

definition valid_n :: "built_prompt \<Rightarrow> nat \<Rightarrow> bool" where
  "valid_n built n \<longleftrightarrow> 1 \<le> n \<and> n \<le> length (bp_id_map built)"

text \<open>The list with only the first occurrence of each element kept.\<close>

definition firsts :: "'a list \<Rightarrow> 'a list" where
  "firsts xs = rev (remdups (rev xs))"

fun firsts_from :: "'a list \<Rightarrow> 'a list \<Rightarrow> 'a list" where
  "firsts_from seen [] = []"
| "firsts_from seen (x # xs) =
     (if x \<in> set seen then firsts_from seen xs else x # firsts_from (x # seen) xs)"

lemma firsts_from_rev: "rev seen @ firsts_from seen xs = firsts (rev seen @ xs)" if "distinct seen"
  using that
proof (induction seen xs rule: firsts_from.induct)
  case (1 seen)
  then show ?case by (simp add: firsts_def distinct_remdups_id)
next
  case (2 seen x xs)
  show ?case
  proof (cases "x \<in> set seen")
    case True
    then have "remdups (rev xs @ x # seen) = remdups (rev xs @ seen)"
      by (induction xs rule: rev_induct) auto
    with True 2 show ?thesis by (simp add: firsts_def)
  next
    case False
    with 2 show ?thesis by simp
  qed
qed

lemma collect_citations_ns:
  "map ci_n (collect_citations built seen ss) =
     firsts_from seen (filter (valid_n built) (List.map_filter parse_usize ss))"
  by (induction built seen ss rule: collect_citations.induct)
    (auto simp: valid_n_def map_filter_simps split: option.splits)

lemma collect_citations_entry:
  "c \<in> set (collect_citations built seen ss) \<Longrightarrow>
   valid_n built (ci_n c) \<and> ci_chunk_id c = bp_id_map built ! (ci_n c - 1)
   \<and> ci_document_id c = bp_doc_map built ! (ci_n c - 1) \<and> ci_ord c = bp_ord_map built ! (ci_n c - 1)"
  by (induction built seen ss rule: collect_citations.induct)
    (auto simp: valid_n_def split: option.splits if_splits)

lemma distinct_firsts: "distinct (firsts xs)"
  by (simp add: firsts_def)

lemma extract_citations_ns:
  "map ci_n (extract_citations captures txt built) =
     firsts (filter (valid_n built) (List.map_filter parse_usize (captures txt)))"
  using firsts_from_rev[of "[]"] by (simp add: extract_citations_def collect_citations_ns)

lemma ask_InrE:
  assumes "ask J captures ck req p w = (Inr r, w')"
  obtains built compl w1 where
    "build_ask_prompt (ar_question req) (ar_chunks req) (ar_token_budget req) = Inr built"
    "lp_complete p (bp_prompt_text built) w = (Inr compl, w')"
    "r = \<lparr>as_answer = co_text compl, as_citations = extract_citations captures (co_text compl) built,
          as_signals = ask_signals J req built compl (latency_millis (elapsed ck (ck_now ck w) w')),
          as_mode_used = ''hybrid''\<rparr>"
  using assms that
  by (auto simp: ask_def sr_apply elim!: sr_bind_InrE)

section \<open>Properties\<close>

text \<open>
  C28 (prompt construction): the builder fails exactly when the budget is not positive, there is no
  chunk or the first one exceeds the budget; otherwise it keeps a subsequence of the chunks that starts
  with the first one, renders it under the numbers 1, 2, ..., maps the numbers to the ids of those
  chunks in three parallel lists and counts the rest as dropped.
\<close>

theorem build_ask_prompt_correct:
  "case build_ask_prompt q cs b of
     Inl e \<Rightarrow> sint b \<le> 0 \<or> cs = [] \<or> sint b < sint (pc_token_count (hd cs))
   | Inr built \<Rightarrow> 0 < sint b \<and> cs \<noteq> [] \<and> sint (pc_token_count (hd cs)) \<le> sint b
       \<and> (\<exists>inc. subseq inc cs \<and> inc \<noteq> [] \<and> hd inc = hd cs
           \<and> bp_prompt_text built = render_prompt q (map pc_text inc)
           \<and> bp_id_map built = map pc_chunk_id inc \<and> bp_doc_map built = map pc_document_id inc
           \<and> bp_ord_map built = map pc_ord inc \<and> length inc + bp_dropped_count built = length cs)"
proof (cases "build_ask_prompt q cs b")
  case (Inl e)
  then show ?thesis
    by (auto simp: build_ask_prompt_def sless_i32 split: if_splits list.splits prod.splits)
next
  case (Inr built)
  then obtain c0 rest inc run d where b: "cs = c0 # rest" "0 < sint b"
      "sint (pc_token_count c0) \<le> sint b" "select_chunks b 0 cs = (inc, run, d)"
      "built = \<lparr>bp_prompt_text = render_prompt q (map pc_text inc),
               bp_id_map = map pc_chunk_id inc, bp_doc_map = map pc_document_id inc,
               bp_ord_map = map pc_ord inc, bp_prompt_tokens = run, bp_dropped_count = d\<rparr>"
    by (rule build_ask_prompt_Inr)
  moreover have "\<exists>inc'. inc = c0 # inc'"
    using b by (intro select_chunks_first) (auto simp: sless_i32)
  ultimately show ?thesis using Inr select_chunks_shape[OF b(4)] by auto
qed

text \<open>
  C29 (token budget): when the token counts are not negative and budget plus a count fits an \<open>i32\<close>,
  the reported total is the sum of the counts of the chunks in the prompt, it does not exceed the
  budget, and no chunk that still fits beside them was left out.
\<close>

theorem build_ask_prompt_budget:
  assumes "build_ask_prompt q cs b = Inr built" and "token_counts_ok b cs"
  shows "\<exists>inc. bp_id_map built = map pc_chunk_id inc \<and> subseq inc cs
    \<and> sint (bp_prompt_tokens built) = token_sum inc \<and> token_sum inc \<le> sint b
    \<and> (\<forall>c \<in> set cs. token_sum inc + sint (pc_token_count c) \<le> sint b \<longrightarrow> c \<in> set inc)"
proof -
  from assms(1) obtain c0 rest inc run d where b: "cs = c0 # rest" "0 < sint b"
      "sint (pc_token_count c0) \<le> sint b" "select_chunks b 0 cs = (inc, run, d)"
      "built = \<lparr>bp_prompt_text = render_prompt q (map pc_text inc),
               bp_id_map = map pc_chunk_id inc, bp_doc_map = map pc_document_id inc,
               bp_ord_map = map pc_ord inc, bp_prompt_tokens = run, bp_dropped_count = d\<rparr>"
    by (rule build_ask_prompt_Inr)
  have "sint run = token_sum inc"
    and "\<forall>c \<in> set cs. sint run + sint (pc_token_count c) \<le> sint b \<longrightarrow> c \<in> set inc"
    using select_chunks_sum[OF b(4) assms(2)] b(2) by auto
  moreover have "sint run \<le> sint b" using select_chunks_bounded[OF b(4)] b(2) by simp
  ultimately show ?thesis using b(5) select_chunks_shape[OF b(4)] by (intro exI[of _ inc]) simp
qed

definition demo_chunk :: "int \<Rightarrow> i32 \<Rightarrow> prompt_chunk" where
  "demo_chunk i t = \<lparr>pc_chunk_id = Uuid i, pc_document_id = Uuid 0, pc_ord = 0, pc_text = ''t'',
     pc_token_count = t\<rparr>"

lemma demo_select:
  "select_chunks 10 0 [demo_chunk 1 6, demo_chunk 2 5, demo_chunk 3 4] =
     ([demo_chunk 1 6, demo_chunk 3 4], 10, 1)"
  by (simp add: demo_chunk_def sless_i32)

theorem build_ask_prompt_budget_witness:
  "\<exists>inc. map pc_chunk_id [demo_chunk 1 6, demo_chunk 3 4] = map pc_chunk_id inc
    \<and> subseq inc [demo_chunk 1 6, demo_chunk 2 5, demo_chunk 3 4]
    \<and> sint (10 :: i32) = token_sum inc \<and> token_sum inc \<le> sint (10 :: i32)"
proof -
  let ?cs = "[demo_chunk 1 6, demo_chunk 2 5, demo_chunk 3 4]"
  let ?built = "\<lparr>bp_prompt_text = render_prompt ''q'' [''t'', ''t''], bp_id_map = [Uuid 1, Uuid 3],
    bp_doc_map = [Uuid 0, Uuid 0], bp_ord_map = [0, 0], bp_prompt_tokens = 10, bp_dropped_count = 1\<rparr>"
  have b: "build_ask_prompt ''q'' ?cs 10 = Inr ?built"
    using demo_select by (simp add: build_ask_prompt_def sless_i32) (simp add: demo_chunk_def)
  have t: "token_counts_ok 10 ?cs" by (simp add: token_counts_ok_def demo_chunk_def i32_max_def)
  obtain inc where inc: "bp_id_map ?built = map pc_chunk_id inc" "subseq inc ?cs"
      "sint (bp_prompt_tokens ?built) = token_sum inc" "token_sum inc \<le> sint (10 :: i32)"
    using build_ask_prompt_budget[OF b t] by (elim exE conjE) (rule that)
  have "map pc_chunk_id [demo_chunk 1 6, demo_chunk 3 4] = [Uuid 1, Uuid 3]" by (simp add: demo_chunk_def)
  with inc show ?thesis by (intro exI[of _ inc]) (simp only: built_prompt.simps simp_thms)
qed

text \<open>
  The model never sees the ids: two lists of chunks with the same texts and token counts give the
  same prompt, or the same error, whatever their chunk and document ids and positions.
\<close>

lemma prompt_independent_of_ids:
  assumes "list_all2 (\<lambda>x y. pc_text x = pc_text y \<and> pc_token_count x = pc_token_count y) cs ds"
  shows "map_sum id bp_prompt_text (build_ask_prompt q cs b)
    = map_sum id bp_prompt_text (build_ask_prompt q ds b)"
proof -
  obtain inc inc' t d where s: "select_chunks b 0 cs = (inc, t, d)" "select_chunks b 0 ds = (inc', t, d)"
      "map pc_text inc = map pc_text inc'"
    using select_chunks_cong[OF assms] by blast
  show ?thesis
    using assms s by (cases cs; cases ds) (auto simp: build_ask_prompt_def simp del: select_chunks.simps)
qed

text \<open>
  C30 (citations): whatever the answer, the citations are the numbers it cites, each once, in the order
  they first appear, less those outside the prompt's blocks; each carries the ids of its block.
\<close>

theorem extract_citations_correct:
  "map ci_n (extract_citations captures txt built) =
     firsts (filter (valid_n built) (List.map_filter parse_usize (captures txt)))
   \<and> (\<forall>c \<in> set (extract_citations captures txt built).
        ci_chunk_id c = bp_id_map built ! (ci_n c - 1)
        \<and> ci_document_id c = bp_doc_map built ! (ci_n c - 1)
        \<and> ci_ord c = bp_ord_map built ! (ci_n c - 1))"
  using extract_citations_ns collect_citations_entry by (fastforce simp: extract_citations_def)

theorem extract_citations_correct_witness:
  "map ci_n (extract_citations (\<lambda>s. [s, ''2'', ''1'', ''99'', ''2'']) ''x''
     \<lparr>bp_prompt_text = [], bp_id_map = [Uuid 5, Uuid 6], bp_doc_map = [Uuid 0, Uuid 0],
      bp_ord_map = [0, 1], bp_prompt_tokens = 0, bp_dropped_count = 0\<rparr>) = [2, 1]"
proof -
  have "List.map_filter parse_usize [''x'', ''2'', ''1'', ''99'', ''2''] = [2, 1, 99, 2]"
    by (simp add: map_filter_simps parse_usize_def is_digit_def digits_val_def digit_val_def)
  then show ?thesis
    by (simp add: extract_citations_correct[THEN conjunct1] firsts_def valid_n_def)
qed

lemma ask_cites_chunks:
  assumes "ask J captures ck req p w = (Inr r, w')" and "c \<in> set (as_citations r)"
  shows "\<exists>ch \<in> set (ar_chunks req).
       ci_chunk_id c = pc_chunk_id ch \<and> ci_document_id c = pc_document_id ch \<and> ci_ord c = pc_ord ch"
proof -
  from assms(1) obtain built compl where b:
      "build_ask_prompt (ar_question req) (ar_chunks req) (ar_token_budget req) = Inr built"
      "lp_complete p (bp_prompt_text built) w = (Inr compl, w')"
      "as_citations r = extract_citations captures (co_text compl) built" "as_answer r = co_text compl"
    by (elim ask_InrE) simp
  from b(1) obtain inc run d where sel: "select_chunks (ar_token_budget req) 0 (ar_chunks req) = (inc, run, d)"
      and built: "bp_id_map built = map pc_chunk_id inc" "bp_doc_map built = map pc_document_id inc"
        "bp_ord_map built = map pc_ord inc"
    by (elim build_ask_prompt_Inr) simp
  have sub: "set inc \<subseteq> set (ar_chunks req)"
    using select_chunks_shape[OF sel] by (auto dest: subseq_set)
  have c: "valid_n built (ci_n c)" "ci_chunk_id c = bp_id_map built ! (ci_n c - 1)"
      "ci_document_id c = bp_doc_map built ! (ci_n c - 1)" "ci_ord c = bp_ord_map built ! (ci_n c - 1)"
    using collect_citations_entry assms(2) unfolding b(3) extract_citations_def by blast+
  then have i: "ci_n c - 1 < length inc" by (auto simp: valid_n_def built)
  with sub have "inc ! (ci_n c - 1) \<in> set (ar_chunks req)" by auto
  with c i show ?thesis by (intro bexI[of _ "inc ! (ci_n c - 1)"]) (simp_all add: built)
qed

text \<open>
  Grounded answers: whatever the provider answers, every citation of a successful \<open>ask\<close> names a
  chunk of the request with its document and position, no block is cited twice, and the provider was
  asked once, with the prompt built from the request.
\<close>

theorem ask_grounded:
  assumes "ask J captures ck req p w = (Inr r, w')"
  shows "(\<forall>c \<in> set (as_citations r). \<exists>ch \<in> set (ar_chunks req).
       ci_chunk_id c = pc_chunk_id ch \<and> ci_document_id c = pc_document_id ch \<and> ci_ord c = pc_ord ch)
    \<and> distinct (map ci_n (as_citations r))
    \<and> (\<exists>built compl. build_ask_prompt (ar_question req) (ar_chunks req) (ar_token_budget req) = Inr built
         \<and> lp_complete p (bp_prompt_text built) w = (Inr compl, w') \<and> as_answer r = co_text compl)"
proof -
  from assms obtain built compl where b:
      "build_ask_prompt (ar_question req) (ar_chunks req) (ar_token_budget req) = Inr built"
      "lp_complete p (bp_prompt_text built) w = (Inr compl, w')"
      "as_citations r = extract_citations captures (co_text compl) built" "as_answer r = co_text compl"
    by (elim ask_InrE) simp
  then show ?thesis using ask_cites_chunks[OF assms] by (auto simp: extract_citations_ns distinct_firsts)
qed

definition demo_request :: ask_request where
  "demo_request = \<lparr>ar_question = ''q'', ar_chunks = [demo_chunk 1 6], ar_provider = ''p'', ar_model = ''m'',
     ar_token_budget = 10\<rparr>"

lemma demo_ask:
  "\<exists>r. ask (jv_api []) (\<lambda>_. [''1'']) script_clock demo_request
      (mock_llm (with_stub_answer mock_new ''see [1]'')) (0, ()) = (Inr r, (0, ()))
     \<and> as_citations r = [\<lparr>ci_n = 1, ci_chunk_id = Uuid 1, ci_document_id = Uuid 0, ci_ord = 0\<rparr>]"
proof -
  have "parse_usize ''1'' = Some 1"
    by (simp add: parse_usize_def is_digit_def digits_val_def digit_val_def)
  moreover have "\<exists>b. build_ask_prompt ''q'' [demo_chunk 1 6] 10 = Inr b \<and> bp_id_map b = [Uuid 1]
      \<and> bp_doc_map b = [Uuid 0] \<and> bp_ord_map b = [0]"
    by (simp add: build_ask_prompt_def sless_i32 demo_chunk_def)
  ultimately show ?thesis
    by (auto simp: ask_def demo_request_def sr_apply sr_bind_def mock_llm_def mock_complete_def
        with_stub_answer_def mock_new_def extract_citations_def)
qed

theorem ask_grounded_witness:
  "\<exists>r :: jv ask_result. as_citations r \<noteq> [] \<and> distinct (map ci_n (as_citations r))
    \<and> list_all (\<lambda>c. ci_chunk_id c \<in> pc_chunk_id ` set (ar_chunks demo_request)) (as_citations r)"
proof -
  obtain r :: "jv ask_result" where r: "ask (jv_api []) (\<lambda>_. [''1'']) script_clock demo_request
      (mock_llm (with_stub_answer mock_new ''see [1]'')) (0, ()) = (Inr r, (0, ()))" "as_citations r \<noteq> []"
    using demo_ask by fastforce
  show ?thesis
    using ask_grounded[OF r(1)] r(2) by (intro exI[of _ r]) (auto simp: list_all_iff)
qed

end
