(* ===== verification/Chunking.thy ===== *)
theory Chunking
  imports CoreTypes RustStr
begin

text \<open>
  The chunking shim (\<^verbatim>\<open>chunking/mod.rs\<close>): it picks a chunker of the external \<open>chunkshop\<close> library
  with fixed settings and slims its chunks to \<open>(ord, text, token_count)\<close>. The library is a parameter:
  a record of its constructors and of the \<open>chunk\<close> method.
\<close>

section \<open>The external chunkers\<close>

record raw_chunk =
  rc_seq_num :: nat
  rc_embedded_content :: string

record document =
  do_id :: string
  do_content :: string
  do_title :: "string option"

record sentence_aware_config =
  sa_doc_type :: string
  sa_max_chars :: nat
  sa_min_chars :: nat
  sa_if_oversize :: "string option"

record hierarchy_config =
  hi_prefix_heading :: bool
  hi_min_section_chars :: nat
  hi_max_chars :: nat
  hi_if_oversize :: "string option"

record fixed_overlap_config =
  fo_window_words :: nat
  fo_step_words :: nat
  fo_max_chars :: "nat option"
  fo_if_oversize :: "string option"

record 'c chunkshop =
  cs_sentence_aware :: "sentence_aware_config \<Rightarrow> 'c"
  cs_hierarchy :: "hierarchy_config \<Rightarrow> 'c"
  cs_fixed_overlap :: "fixed_overlap_config \<Rightarrow> string + 'c"
  cs_neighbor_expand :: "nat \<Rightarrow> 'c \<Rightarrow> nat option \<Rightarrow> string option \<Rightarrow> 'c"
  cs_chunk :: "'c \<Rightarrow> document \<Rightarrow> raw_chunk list"

section \<open>The shim\<close>

record chunk =
  ch_ord :: i32
  ch_text :: string
  ch_token_count :: i32

record chunker =
  ck_strategy :: chunk_strategy

definition chunker_new :: "chunk_strategy \<Rightarrow> chunker" where
  "chunker_new st = \<lparr>ck_strategy = st\<rparr>"

definition prose_config :: sentence_aware_config where
  "prose_config = \<lparr>sa_doc_type = ''prose'', sa_max_chars = 2000, sa_min_chars = 200, sa_if_oversize = None\<rparr>"

definition semantic_error :: string where
  "semantic_error = ''strategy `semantic` requires a fastembed boundary-model load and ''
     @ ''is not yet wired in pg_raggraph_core; use `auto` or ''
     @ ''`sentence_aware` for the queued worker''"

definition select_chunker :: "'c chunkshop \<Rightarrow> chunk_strategy \<Rightarrow> 'c core_result" where
  "select_chunker C st =
     (case st of
        Auto \<Rightarrow> Inr (cs_sentence_aware C prose_config)
      | SentenceAware \<Rightarrow> Inr (cs_sentence_aware C prose_config)
      | Hierarchy \<Rightarrow> Inr (cs_hierarchy C
          \<lparr>hi_prefix_heading = True, hi_min_section_chars = 100, hi_max_chars = 2000, hi_if_oversize = None\<rparr>)
      | FixedOverlap \<Rightarrow>
          map_err (\<lambda>e. InvalidConfig (''fixed_overlap construction failed: '' @ e))
            (cs_fixed_overlap C
              \<lparr>fo_window_words = 300, fo_step_words = 150, fo_max_chars = None, fo_if_oversize = None\<rparr>)
      | NeighborExpand \<Rightarrow>
          Inr (cs_neighbor_expand C 1 (cs_sentence_aware C prose_config) (Some 2000) None)
      | Semantic \<Rightarrow> Inl (InvalidConfig semantic_error))"

definition slim_chunk :: "raw_chunk \<Rightarrow> chunk" where
  "slim_chunk c =
     \<lparr>ch_ord = i32_from_usize_or_max (rc_seq_num c),
      ch_text = rc_embedded_content c,
      ch_token_count = i32_from_usize_or_max (split_whitespace_count (rc_embedded_content c))\<rparr>"

definition chunker_chunk :: "'c chunkshop \<Rightarrow> chunker \<Rightarrow> string \<Rightarrow> chunk list core_result" where
  "chunker_chunk C k txt =
     (let doc = \<lparr>do_id = [], do_content = txt, do_title = None\<rparr>
      in res_bind (select_chunker C (ck_strategy k)) (\<lambda>c. Inr (map slim_chunk (cs_chunk C c doc))))"

lemma token_count_pos_iff:
  "0 < sint (ch_token_count (slim_chunk c)) \<longleftrightarrow> (\<exists>u \<in> set (chars (rc_embedded_content c)). \<not> is_whitespace u)"
proof -
  have "0 < sint (ch_token_count (slim_chunk c)) \<longleftrightarrow> 0 < split_whitespace_count (rc_embedded_content c)"
    by (simp add: slim_chunk_def sint_i32_from_usize_or_max i32_max_def)
  also have "\<dots> \<longleftrightarrow> (\<exists>u \<in> set (chars (rc_embedded_content c)). \<not> is_whitespace u)"
    using word_count_zero_iff[of "chars (rc_embedded_content c)"]
    by (auto simp: split_whitespace_count_def)
  finally show ?thesis .
qed

section \<open>Properties\<close>

text \<open>
  Chunks: chunking fails only for the semantic strategy, or when the fixed-overlap chunker cannot
  be built; otherwise the library's chunks come out in order with their text, a non-negative position
  and word count capped to an \<open>i32\<close>; the count is positive exactly when the text is not all white space.
\<close>

theorem chunker_chunk_correct:
  "case chunker_chunk C \<lparr>ck_strategy = st\<rparr> txt of
     Inl e \<Rightarrow> (\<exists>m. e = InvalidConfig m) \<and> (st = Semantic \<or> st = FixedOverlap)
   | Inr chunks \<Rightarrow> st \<noteq> Semantic \<and> (\<exists>c raw. raw = cs_chunk C c \<lparr>do_id = [], do_content = txt, do_title = None\<rparr>
       \<and> select_chunker C st = Inr c
       \<and> map ch_text chunks = map rc_embedded_content raw
       \<and> map (sint \<circ> ch_ord) chunks = map (\<lambda>r. min (int (rc_seq_num r)) i32_max) raw
       \<and> map (\<lambda>c. 0 < sint (ch_token_count c)) chunks
           = map (\<lambda>r. \<exists>u \<in> set (chars (rc_embedded_content r)). \<not> is_whitespace u) raw)"
proof (cases "select_chunker C st")
  case (Inl e)
  then show ?thesis
    by (cases st) (auto simp: chunker_chunk_def select_chunker_def map_err_def split: sum.splits)
next
  case (Inr c)
  then have "st \<noteq> Semantic" by (auto simp: select_chunker_def)
  moreover have "sint (ch_ord (slim_chunk r)) = min (int (rc_seq_num r)) i32_max" for r
    by (simp add: slim_chunk_def sint_i32_from_usize_or_max)
  moreover have "ch_text (slim_chunk r) = rc_embedded_content r" for r by (simp add: slim_chunk_def)
  ultimately show ?thesis
    using Inr by (simp add: chunker_chunk_def comp_def token_count_pos_iff)
qed

end
