(* ===== verification/Embedding.thy ===== *)
theory Embedding
  imports IEEE
begin

text \<open>
  The embedding backends (\<^verbatim>\<open>embedding/mod.rs\<close>) with the deterministic, hash-derived embedder, and the
  content hash (\<^verbatim>\<open>ingest/content_hash.rs\<close>). SHA-256 is a parameter \<open>sha\<close> that gives 32 bytes.
\<close>

section \<open>Content hash\<close>

definition hex_char :: "nat \<Rightarrow> char" where
  "hex_char d = (if d < 10 then char_of (48 + d) else char_of (87 + d))"

text \<open>\<open>write!(s, "{b:02x}")\<close>\<close>

definition hex_byte :: "char \<Rightarrow> string" where
  "hex_byte b = [hex_char (of_char b div 16), hex_char (of_char b mod 16)]"

definition content_hash :: "(bytes \<Rightarrow> bytes) \<Rightarrow> bytes \<Rightarrow> string" where
  "content_hash sha bs = concat (map hex_byte (sha bs))"

lemma hex_char_inj: "a < 16 \<Longrightarrow> b < 16 \<Longrightarrow> hex_char a = hex_char b \<longleftrightarrow> a = b"
  by (auto simp: hex_char_def split: if_splits)

lemma hex_byte_inj: "hex_byte a = hex_byte b \<longleftrightarrow> a = b"
proof
  assume h: "hex_byte a = hex_byte b"
  have lt: "(of_char c :: nat) div 16 < 16" for c using nat_of_char_less_256[of c] by linarith
  have "of_char a div 16 = (of_char b div 16 :: nat)" "of_char a mod 16 = (of_char b mod 16 :: nat)"
    using h lt[of a] lt[of b] by (simp_all add: hex_byte_def hex_char_inj)
  then have "(of_char a :: nat) = of_char b" by (metis div_mult_mod_eq)
  then show "a = b" by simp
qed simp

lemma concat_hex_inj: "concat (map hex_byte xs) = concat (map hex_byte ys) \<longleftrightarrow> xs = ys"
proof (induction xs arbitrary: ys)
  case Nil
  then show ?case by (cases ys) (simp_all add: hex_byte_def)
next
  case (Cons x xs)
  show ?case
  proof (cases ys)
    case Nil
    then show ?thesis by (simp add: hex_byte_def)
  next
    case (Cons y ys')
    have "concat (map hex_byte (x # xs)) = concat (map hex_byte (y # ys'))
      \<longleftrightarrow> hex_byte x = hex_byte y \<and> concat (map hex_byte xs) = concat (map hex_byte ys')"
      by (auto simp: hex_byte_def)
    then show ?thesis using Cons Cons.IH hex_byte_inj by simp
  qed
qed

section \<open>Backends\<close>

text \<open>The trait; a backend that does not override \<open>embed_batch\<close> has the default body.\<close>

record 'w embedder =
  em_dim :: nat
  em_embed :: "string \<Rightarrow> ('w, f32 list) sr"
  em_embed_batch :: "string list \<Rightarrow> ('w, f32 list list) sr"

fun embed_batch_default :: "(string \<Rightarrow> ('w, f32 list) sr) \<Rightarrow> string list \<Rightarrow> ('w, f32 list list) sr" where
  "embed_batch_default emb [] = sr_return []"
| "embed_batch_default emb (t # ts) =
     sr_bind (emb t) (\<lambda>v. sr_bind (embed_batch_default emb ts) (\<lambda>vs. sr_return (v # vs)))"

text \<open>
  The contract of the trait: an embedding has \<open>dim\<close> components and a batch is the serial loop.
\<close>

locale embedder_contract =
  fixes E :: "'w embedder"
  assumes embed_dim: "em_embed E t w = (Inr v, w') \<Longrightarrow> length v = em_dim E"
    and embed_batch: "em_embed_batch E = embed_batch_default (em_embed E)"
begin

lemma batch_dims:
  assumes "em_embed_batch E ts w = (Inr vs, w')"
  shows "length vs = length ts \<and> list_all (\<lambda>v. length v = em_dim E) vs"
  using assms unfolding embed_batch
proof (induction ts arbitrary: vs w)
  case (Cons t ts)
  from Cons.prems show ?case
    by (auto elim!: sr_bind_InrE dest!: Cons.IH embed_dim simp: sr_apply)
qed (simp add: sr_apply)

end

section \<open>The deterministic embedder\<close>

text \<open>\<open>to_le_bytes\<close> and \<open>from_le_bytes\<close> of a \<open>u32\<close>.\<close>

definition to_le_bytes :: "32 word \<Rightarrow> bytes" where
  "to_le_bytes w = map (\<lambda>i. char_of (unat w div 256 ^ i mod 256)) [0, 1, 2, 3]"

definition from_le_bytes :: "bytes \<Rightarrow> int" where
  "from_le_bytes bs = foldr (\<lambda>b a. of_char b + 256 * a) bs 0"

text \<open>
  \<open>while buf.len() < bytes_needed\<close>: with a hash that returned nothing it would never end, so the
  loop is a partial function; the counter is a wrapping \<open>u32\<close>.
\<close>

partial_function (option) expand ::
  "(bytes \<Rightarrow> bytes) \<Rightarrow> string \<Rightarrow> nat \<Rightarrow> 32 word \<Rightarrow> bytes \<Rightarrow> bytes option" where
  "expand sha txt needed counter buf =
     (if length buf < needed then expand sha txt needed (counter + 1) (buf @ sha (txt @ to_le_bytes counter))
      else Some buf)"

fun chunks_exact4 :: "'a list \<Rightarrow> 'a list list" where
  "chunks_exact4 (a # b # c # d # r) = [a, b, c, d] # chunks_exact4 r"
| "chunks_exact4 _ = []"

text \<open>\<open>(u as f32 / u32::MAX as f32) * 2.0 - 1.0\<close>\<close>

definition component :: "int \<Rightarrow> f32" where
  "component u =
     fsub binary32
       (fmul binary32 (fdiv binary32 (fof_int binary32 u) (fof_int binary32 4294967295)) (Fin 2))
       (Fin 1)"

definition norm_eps :: f32 where
  "norm_eps = rnd binary32 (1 / 10 ^ 12)"

definition l2_normalize :: "f32 list \<Rightarrow> f32 list" where
  "l2_normalize v =
     (let norm = fsqrt binary32 (fsum binary32 (map (\<lambda>x. fmul binary32 x x) v))
      in if flt norm_eps norm then map (\<lambda>x. fdiv binary32 x norm) v else v)"

definition deterministic_embed :: "(bytes \<Rightarrow> bytes) \<Rightarrow> string \<Rightarrow> nat \<Rightarrow> f32 list option" where
  "deterministic_embed sha txt dims =
     map_option (\<lambda>buf. l2_normalize (map (\<lambda>b. component (from_le_bytes b)) (chunks_exact4 (take (dims * 4) buf))))
       (expand sha txt (dims * 4) 0 [])"

text \<open>The backend; not returning is modelled as an error, which its totality theorem excludes.\<close>

definition deterministic_backend :: "(bytes \<Rightarrow> bytes) \<Rightarrow> nat \<Rightarrow> 'w embedder" where
  "deterministic_backend sha dims =
     (let emb = (\<lambda>t. sr_lift (ok_or (Llm ''diverges'') (deterministic_embed sha t dims)))
      in \<lparr>em_dim = dims, em_embed = emb, em_embed_batch = embed_batch_default emb\<rparr>)"

section \<open>The loop ends\<close>

lemma expand_terminates:
  assumes "\<And>x. length (sha x) = 32"
  shows "\<exists>buf'. expand sha txt needed counter buf = Some buf' \<and> needed \<le> length buf'"
proof (induction "needed - length buf" arbitrary: counter buf rule: less_induct)
  case less
  show ?case
  proof (cases "length buf < needed")
    case True
    then have "\<exists>buf'. expand sha txt needed (counter + 1) (buf @ sha (txt @ to_le_bytes counter)) = Some buf'
        \<and> needed \<le> length buf'"
      by (intro less) (simp add: assms)
    with True show ?thesis by (simp add: expand.simps[of _ _ _ counter buf])
  next
    case False
    then show ?thesis by (simp add: expand.simps[of _ _ _ counter buf])
  qed
qed

lemma length_chunks_exact4: "length (chunks_exact4 xs) = length xs div 4"
  by (induction xs rule: chunks_exact4.induct) (simp_all, presburger?)

lemma chunks_exact4_length: "b \<in> set (chunks_exact4 xs) \<Longrightarrow> length b = 4"
  by (induction xs rule: chunks_exact4.induct) auto

lemma length_l2_normalize [simp]: "length (l2_normalize v) = length v"
  by (simp add: l2_normalize_def Let_def)

lemma expand_length: "expand sha txt needed counter buf = Some buf' \<Longrightarrow> needed \<le> length buf'"
  by (erule expand.raw_induct[rotated, where P = "\<lambda>_ _ n _ _ b. n \<le> length b"]) (auto split: if_splits)

lemma deterministic_embed_length: "deterministic_embed sha txt dims = Some v \<Longrightarrow> length v = dims"
  by (auto simp: deterministic_embed_def length_chunks_exact4 dest!: expand_length)

interpretation deterministic: embedder_contract "deterministic_backend sha dims" for sha dims
  by unfold_locales
    (auto simp: deterministic_backend_def Let_def sr_apply ok_or_def dest: deterministic_embed_length split: option.splits)

section \<open>Every component is a number\<close>

lemma of_char_bounds: "(0 :: int) \<le> of_char b" "(of_char b :: int) \<le> 255"
proof -
  have "(of_char b :: int) = int (of_char b)" by (simp add: of_char_def)
  then show "(0 :: int) \<le> of_char b" "(of_char b :: int) \<le> 255"
    using nat_of_char_less_256[of b] by linarith+
qed

lemma from_le_bytes_bounds:
  "length b = 4 \<Longrightarrow> 0 \<le> from_le_bytes b \<and> from_le_bytes b < 2 ^ 32"
proof -
  assume "length b = 4"
  then obtain p q r s where b: "b = [p, q, r, s]"
    by (auto simp: length_Suc_conv numeral_eq_Suc)
  show ?thesis
    using of_char_bounds[of p] of_char_bounds[of q] of_char_bounds[of r] of_char_bounds[of s]
    by (simp add: b from_le_bytes_def)
qed

text \<open>A value between two finite ones is finite.\<close>

lemma between_finite:
  assumes "fle (Fin a) x" and "fle x (Fin b)"
  obtains q where "a \<le> q" "q \<le> b" "x = Fin q \<or> x = NZero \<and> q = 0"
  using assms by (cases x) auto

lemma rnd32_pow2: "rnd binary32 (2 ^ 32) = Fin (2 ^ 32)"
proof -
  have "(2 :: rat) powi 32 < 2 powi (emax binary32 + 1)" by (simp only: powi2_less_iff) (simp add: binary32_def)
  then show ?thesis
    using rnd_exact[of "2 ^ 32" 1 32 binary32] by (simp add: binary32_def power_int_def)
qed

lemma rnd32_small: "\<bar>n\<bar> < 2 ^ 24 \<Longrightarrow> rnd binary32 (of_int n) = Fin (of_int n)"
  by (rule rnd_small_int) (simp_all add: binary32_def)

lemma rnd32_max: "fof_int binary32 4294967295 = Fin (2 ^ 32)"
  by code_simp

lemma fval_mul_pos:
  assumes "x = Fin q \<or> x = NZero \<and> q = 0" and "0 \<le> q" and "0 < d"
  shows "fmul binary32 x (Fin d) = (if x = NZero then NZero else if q = 0 then Fin 0 else rnd binary32 (q * d))"
  using assms by (auto simp: fmul_def is_zero_def zero_of_def inf_of_def)

lemma component_bounds:
  assumes "0 \<le> u" and "u < 2 ^ 32"
  shows "fle (Fin (- 1)) (component u) \<and> fle (component u) (Fin 1)"
proof -
  have "(of_int u :: rat) \<le> of_int (2 ^ 32)" using assms(2) by (simp only: of_int_le_iff)
  then have ur: "(of_int u :: rat) \<le> 2 ^ 32" by simp
  have "fle (rnd binary32 0) (fof_int binary32 u)" "fle (fof_int binary32 u) (rnd binary32 (2 ^ 32))"
    unfolding fof_int_def using assms(1) ur by (intro rnd_mono; simp)+
  then obtain a where a: "0 \<le> a" "a \<le> 2 ^ 32" "fof_int binary32 u = Fin a \<or> fof_int binary32 u = NZero \<and> a = 0"
    by (simp only: rnd32_pow2 rnd_zero) (rule between_finite)
  define d where "d = fdiv binary32 (fof_int binary32 u) (Fin (2 ^ 32))"
  have "d = NZero \<or> d = rnd binary32 (a / 2 ^ 32)"
    unfolding d_def using a fdiv_Fin_pos[of "fof_int binary32 u" "2 ^ 32" binary32]
    by (auto simp: fnonneg_def)
  moreover have "fle (rnd binary32 0) (rnd binary32 (a / 2 ^ 32))" "fle (rnd binary32 (a / 2 ^ 32)) (rnd binary32 1)"
    using a by (intro rnd_mono; simp)+
  ultimately have "fle (Fin 0) d" "fle d (Fin 1)" using rnd32_small[of 1] by auto
  then obtain b where b: "0 \<le> b" "b \<le> 1" "d = Fin b \<or> d = NZero \<and> b = 0" by (rule between_finite)
  define m where "m = fmul binary32 d (Fin 2)"
  have "m = NZero \<or> m = rnd binary32 (b * 2)"
    unfolding m_def using fval_mul_pos[OF b(3,1), of 2] by auto
  moreover have "fle (rnd binary32 0) (rnd binary32 (b * 2))" "fle (rnd binary32 (b * 2)) (rnd binary32 2)"
    using b by (intro rnd_mono; simp)+
  ultimately have "fle (Fin 0) m" "fle m (Fin 2)" using rnd32_small[of 2] by auto
  then obtain c where c: "0 \<le> c" "c \<le> 2" "m = Fin c \<or> m = NZero \<and> c = 0" by (rule between_finite)
  have "component u = rnd binary32 (c - 1)"
    using c(3) unfolding component_def rnd32_max d_def[symmetric] m_def[symmetric]
    by (auto simp: fsub_def fneg_def)
  moreover have "fle (rnd binary32 (of_int (- 1))) (rnd binary32 (c - 1))" "fle (rnd binary32 (c - 1)) (rnd binary32 (of_int 1))"
    using c by (intro rnd_mono; simp)+
  ultimately show ?thesis using rnd32_small[of 1] rnd32_small[of "- 1"] by simp
qed

lemma fmul_self_nonneg: "is_finite x \<Longrightarrow> fnonneg (fmul binary32 x x)"
  using rnd_nonneg[of "fval x * fval x" binary32]
  by (cases x) (auto simp: fmul_def is_zero_def zero_of_def fnonneg_def)

lemma fsum_nonneg: "(\<And>x. x \<in> set xs \<Longrightarrow> fnonneg x) \<Longrightarrow> fnonneg (fsum binary32 xs)"
proof -
  assume xs: "\<And>x. x \<in> set xs \<Longrightarrow> fnonneg x"
  have "fnonneg a \<Longrightarrow> fnonneg (foldl (fadd binary32) a xs)" for a
    using xs by (induction xs arbitrary: a) (simp_all add: fnonneg_add prec_pos)
  then show ?thesis by (simp add: fsum_def fnonneg_def)
qed

lemma fsqrt_not_NaN: "fnonneg x \<Longrightarrow> fsqrt binary32 x \<noteq> NaN"
  by (cases x) (auto simp: fsqrt_def fnonneg_def)

lemma fdiv_not_NaN:
  assumes "is_finite x" and "flt norm_eps n"
  shows "fdiv binary32 x n \<noteq> NaN"
proof -
  have "fle (rnd binary32 0) norm_eps" unfolding norm_eps_def by (rule rnd_mono) simp_all
  then have e: "fle (Fin 0) norm_eps" by simp
  then have "\<not> is_zero n" using assms(2) by (auto simp: is_zero_def flt_def)
  moreover have "n \<noteq> NaN" using assms(2) by (simp add: flt_def)
  ultimately show ?thesis
    using assms(1) by (cases x) (auto simp: fdiv_def Let_def zero_of_def)
qed

lemma l2_normalize_not_NaN:
  assumes "\<And>x. x \<in> set v \<Longrightarrow> is_finite x" and "y \<in> set (l2_normalize v)"
  shows "y \<noteq> NaN"
  using assms fdiv_not_NaN
  by (auto simp: l2_normalize_def Let_def split: if_splits) (metis is_finite.simps(3))

section \<open>Properties\<close>

text \<open>
  Content hash: the hash is 64 characters long and two contents have the same hash exactly when
  their digests agree, so re-ingesting identical bytes is always detected.
\<close>

theorem content_hash_correct:
  assumes "\<And>x. length (sha x) = 32"
  shows "length (content_hash sha a) = 64 \<and> (content_hash sha a = content_hash sha b \<longleftrightarrow> sha a = sha b)"
proof -
  have "length (concat (map hex_byte xs)) = 2 * length xs" for xs
    by (induction xs) (simp_all add: hex_byte_def)
  then show ?thesis using assms by (simp add: content_hash_def concat_hex_inj)
qed

theorem content_hash_correct_witness:
  "length (content_hash (\<lambda>x. replicate 32 (CHR 0xAB)) ''doc'') = 64"
  using content_hash_correct[of "\<lambda>x. replicate 32 (CHR 0xAB)"] by simp

text \<open>
  Deterministic embedder: with a 32-byte hash the expansion loop ends, the vector has exactly
  \<open>dims\<close> components, and none of them is NaN.
\<close>

theorem deterministic_embed_total:
  assumes "\<And>x. length (sha x) = 32"
  shows "\<exists>v. deterministic_embed sha txt dims = Some v \<and> length v = dims \<and> NaN \<notin> set v"
proof -
  obtain buf where buf: "expand sha txt (dims * 4) 0 [] = Some buf" "dims * 4 \<le> length buf"
    using expand_terminates assms by blast
  define raw where "raw = map (\<lambda>b. component (from_le_bytes b)) (chunks_exact4 (take (dims * 4) buf))"
  have "length raw = dims" using buf(2) by (simp add: raw_def length_chunks_exact4 min_def)
  moreover have "is_finite x" if x: "x \<in> set raw" for x
  proof -
    obtain b where b: "b \<in> set (chunks_exact4 (take (dims * 4) buf))" "x = component (from_le_bytes b)"
      using x by (auto simp: raw_def)
    define u where "u = from_le_bytes b"
    have "x = component u" "0 \<le> u" "u < 2 ^ 32"
      using b from_le_bytes_bounds[OF chunks_exact4_length[OF b(1)]] by (simp_all add: u_def)
    then show ?thesis using component_bounds[of u] by (cases "component u") auto
  qed
  then have "NaN \<notin> set (l2_normalize raw)" using l2_normalize_not_NaN by blast
  ultimately show ?thesis using buf(1) by (simp add: deterministic_embed_def raw_def)
qed

theorem deterministic_embed_total_witness:
  "\<exists>v. deterministic_embed (\<lambda>x. replicate 32 (CHR ''a'')) ''hello'' 8 = Some v \<and> length v = 8"
  using deterministic_embed_total[of "\<lambda>x. replicate 32 (CHR ''a'')" "''hello''" 8] by auto

end
