(* ===== verification/FloatText.thy ===== *)
theory FloatText
  imports IEEE RustStr
begin

text \<open>
  Printing and parsing of floating-point numbers as the Rust standard library does it (\<open>{x}\<close> prints
  the shortest decimal that reads back as \<open>x\<close>, without an exponent; \<open>parse::<f32>\<close> rounds to
  nearest), and the pgvector text literals built from them: \<open>vector_literal\<close> and
  \<open>parse_vector_literal\<close>, which \<^verbatim>\<open>pg_raggraph/src/bgw/spi_client.rs\<close>,
  \<^verbatim>\<open>pg_raggraph_sidecar/src/pg_client.rs\<close>, \<^verbatim>\<open>pg_raggraph/src/ingest_extracted.rs\<close>,
  \<^verbatim>\<open>pg_raggraph/src/embedding.rs\<close> and \<^verbatim>\<open>pg_raggraph_sidecar/src/http.rs\<close> each carry a copy of.
\<close>

section \<open>Printing\<close>

text \<open>The number of decimal digits before the point: the least \<open>e\<close> with \<open>x < 10\<^sup>e\<close>, found upwards or downwards.\<close>

definition dec_exp :: "rat \<Rightarrow> int" where
  "dec_exp x =
     (if 1 \<le> x then int (length (show_nat (nat \<lfloor>x\<rfloor>)))
      else 1 - int (length (show_nat (nat \<lceil>1 / x\<rceil> - 1))))"

text \<open>
  At \<open>n\<close> significant digits the two neighbours \<open>lo\<close> and \<open>hi\<close> of \<open>x\<close>; one that reads back as \<open>x\<close>
  is taken, the nearer if both do, the upper on a tie.
\<close>

definition pick_digits :: "fl_fmt \<Rightarrow> rat \<Rightarrow> int \<Rightarrow> (int \<times> int) option" where
  "pick_digits f x s =
     (let q = 10 powi s; lo = \<lfloor>x / q\<rfloor>; hi = lo + 1;
          lo_ok = (0 < lo \<and> rnd f (of_int lo * q) = Fin x);
          hi_ok = (rnd f (of_int hi * q) = Fin x)
      in if hi_ok \<and> (\<not> lo_ok \<or> of_int hi * q - x \<le> x - of_int lo * q) then Some (hi, s)
         else if lo_ok then Some (lo, s) else None)"

text \<open>
  The first number of digits that works. Nine are enough for \<open>f32\<close> and seventeen for \<open>f64\<close>; should
  none work, the exact decimal expansion is printed, so that the result reads back whatever happens.
\<close>

fun shortest_from :: "nat \<Rightarrow> fl_fmt \<Rightarrow> rat \<Rightarrow> int \<Rightarrow> int \<times> int" where
  "shortest_from 0 f x s = (\<lfloor>x * 10 ^ nat (- qmin f)\<rfloor>, qmin f)"
| "shortest_from (Suc k) f x s =
     (case pick_digits f x s of Some r \<Rightarrow> r | None \<Rightarrow> shortest_from k f x (s - 1))"

definition shortest :: "fl_fmt \<Rightarrow> rat \<Rightarrow> int \<times> int" where
  "shortest f x = shortest_from 17 f x (dec_exp x - 1)"

function strip_zeros :: "int \<Rightarrow> int \<Rightarrow> int \<times> int" where
  "strip_zeros c s = (if c \<le> 0 \<or> c mod 10 \<noteq> 0 then (c, s) else strip_zeros (c div 10) (s + 1))"
  by pat_completeness auto
termination
  by (relation "measure (\<lambda>(c, s). nat c)") auto

declare strip_zeros.simps [simp del]

definition zeros :: "nat \<Rightarrow> string" where
  "zeros n = replicate n (CHR ''0'')"

text \<open>The decimal \<open>c \<cdot> 10\<^sup>s\<close> in positional notation.\<close>

definition place_point :: "nat \<Rightarrow> int \<Rightarrow> string" where
  "place_point c s =
     (let ds = show_nat c; n = length ds in
      if 0 \<le> s then ds @ zeros (nat s)
      else
        let k = nat (- s) in
        if n \<le> k then ''0.'' @ zeros (k - n) @ ds
        else take (n - k) ds @ ''.'' @ drop (n - k) ds)"

definition fmt_pos :: "fl_fmt \<Rightarrow> rat \<Rightarrow> string" where
  "fmt_pos f x = (case shortest f x of (c, s) \<Rightarrow> case strip_zeros c s of (c', s') \<Rightarrow> place_point (nat c') s')"

definition fmt_float :: "fl_fmt \<Rightarrow> fl \<Rightarrow> string" where
  "fmt_float f a =
     (case a of
        NaN \<Rightarrow> ''NaN'' | PInf \<Rightarrow> ''inf'' | NInf \<Rightarrow> ''-inf'' | NZero \<Rightarrow> ''-0''
      | Fin x \<Rightarrow> if x = 0 then ''0'' else if x < 0 then ''-'' @ fmt_pos f (- x) else fmt_pos f x)"

section \<open>Parsing\<close>

definition ascii_lower :: "char \<Rightarrow> char" where
  "ascii_lower c = (if 65 \<le> (of_char c :: nat) \<and> (of_char c :: nat) \<le> 90 then char_of (of_char c + 32 :: nat) else c)"

definition split_sign :: "string \<Rightarrow> bool \<times> string" where
  "split_sign s =
     (case s of [] \<Rightarrow> (False, [])
      | c # cs \<Rightarrow> if c = CHR ''-'' then (True, cs) else if c = CHR ''+'' then (False, cs) else (False, s))"

definition parse_exponent :: "string \<Rightarrow> int option" where
  "parse_exponent s =
     (case split_sign s of (neg, ds) \<Rightarrow>
        if ds = [] \<or> \<not> list_all is_digit ds then None
        else Some (if neg then - int (digits_val ds) else int (digits_val ds)))"

definition parse_decimal :: "fl_fmt \<Rightarrow> string \<Rightarrow> fl option" where
  "parse_decimal f r =
     (let ip = takeWhile is_digit r; r1 = dropWhile is_digit r;
          (fp, r2) = (case r1 of [] \<Rightarrow> ([], [])
            | c # cs \<Rightarrow> if c = CHR ''.'' then (takeWhile is_digit cs, dropWhile is_digit cs) else ([], r1))
      in if ip = [] \<and> fp = [] then None
         else
           map_option (\<lambda>e. rnd f (of_nat (digits_val (ip @ fp)) * 10 powi (e - int (length fp))))
             (case r2 of [] \<Rightarrow> Some 0
              | c # cs \<Rightarrow> if c = CHR ''e'' \<or> c = CHR ''E'' then parse_exponent cs else None))"

definition parse_float :: "fl_fmt \<Rightarrow> string \<Rightarrow> fl option" where
  "parse_float f s =
     (case split_sign s of (neg, r) \<Rightarrow>
        let l = map ascii_lower r in
        if l = ''nan'' then Some NaN
        else if l = ''inf'' \<or> l = ''infinity'' then Some (inf_of neg)
        else map_option (\<lambda>v. if neg then fneg v else v) (parse_decimal f r))"

section \<open>Vector literals\<close>

fun join_comma :: "string list \<Rightarrow> string" where
  "join_comma [] = []"
| "join_comma [x] = x"
| "join_comma (x # xs) = x @ '','' @ join_comma xs"

definition vector_literal :: "f32 list \<Rightarrow> string" where
  "vector_literal v = ''['' @ join_comma (map (fmt_float binary32) v) @ '']''"

fun parse_parts :: "string list \<Rightarrow> f32 list option" where
  "parse_parts [] = Some []"
| "parse_parts (p # ps) =
     (case parse_float binary32 (trim p) of
        None \<Rightarrow> None
      | Some x \<Rightarrow> map_option ((#) x) (parse_parts ps))"

definition parse_vector_literal :: "string \<Rightarrow> f32 list option" where
  "parse_vector_literal s =
     (case strip_prefix ''['' (trim s) of
        None \<Rightarrow> None
      | Some x \<Rightarrow> (case strip_suffix '']'' x of
          None \<Rightarrow> None
        | Some inner \<Rightarrow>
            if inner = [] then Some [] else parse_parts (split_on (CHR '','') inner)))"

section \<open>The printed decimal reads back\<close>

lemma pick_digits_value:
  assumes "pick_digits f x s = Some (c, s')" and "0 < x"
  shows "0 < c \<and> rnd f (of_int c * 10 powi s') = Fin x"
proof -
  have "0 \<le> \<lfloor>x / 10 powi s\<rfloor>" using assms(2) by simp
  then show ?thesis using assms(1) by (auto simp: pick_digits_def Let_def split: if_splits)
qed

lemma rnd_dyadic:
  assumes "rnd f x = Fin x" and "x \<noteq> 0"
  shows "\<exists>m e. x = of_int m * 2 powi e \<and> qmin f \<le> e"
proof -
  have "x = rnd_val f x" using assms by (auto simp: rnd_def Let_def split: if_splits)
  then show ?thesis
    unfolding rnd_val_def by (intro exI[of _ "rhe (x / 2 powi quantum_exp f x)"] exI[of _ "quantum_exp f x"])
      (simp add: quantum_exp_def)
qed

lemma fallback_exact:
  assumes "rnd f x = Fin x" and "0 < x" and "qmin f \<le> 0"
  shows "of_int \<lfloor>x * 10 ^ nat (- qmin f)\<rfloor> * 10 powi qmin f = x"
proof -
  obtain m e where x: "x = of_int m * 2 powi e" "qmin f \<le> e" using rnd_dyadic[OF assms(1)] assms(2) by auto
  define n where "n = nat (- qmin f)"
  have n: "qmin f = - int n" using assms(3) by (simp add: n_def)
  obtain k where k: "(2 :: rat) powi e = of_int k * 2 powi qmin f" using powi2_multiple[OF x(2)] by blast
  have "(10 :: rat) ^ n = 2 ^ n * 5 ^ n" by (simp flip: power_mult_distrib)
  then have "x * 10 ^ n = of_int (m * k) * (2 powi qmin f * 2 ^ n) * 5 ^ n" using x(1) k by simp
  also have "(2 :: rat) powi qmin f * 2 ^ n = 1" by (simp add: n power_int_minus)
  finally have xn: "x * 10 ^ n = of_int (m * k * 5 ^ n)" by simp
  then have "of_int \<lfloor>x * 10 ^ n\<rfloor> = x * 10 ^ n" by simp
  then show ?thesis by (simp add: n power_int_minus field_simps flip: n_def)
qed

lemma shortest_from_value:
  assumes "rnd f x = Fin x" and "0 < x" and "qmin f \<le> 0" and "shortest_from k f x s = (c, s')"
  shows "0 < c \<and> rnd f (of_int c * 10 powi s') = Fin x"
  using assms(4)
proof (induction k arbitrary: s)
  case 0
  have v: "of_int \<lfloor>x * 10 ^ nat (- qmin f)\<rfloor> * 10 powi qmin f = x" by (rule fallback_exact[OF assms(1-3)])
  have "0 < \<lfloor>x * 10 ^ nat (- qmin f)\<rfloor>"
  proof (rule ccontr)
    assume "\<not> 0 < \<lfloor>x * 10 ^ nat (- qmin f)\<rfloor>"
    then have "of_int \<lfloor>x * 10 ^ nat (- qmin f)\<rfloor> * (10 :: rat) powi qmin f \<le> 0"
      by (simp add: mult_nonpos_nonneg)
    with v assms(2) show False by simp
  qed
  with 0 v assms(1) show ?case by auto
next
  case (Suc k)
  then show ?case using pick_digits_value[OF _ assms(2)] by (auto split: option.splits)
qed

lemma strip_zeros_value:
  "strip_zeros c s = (c', s') \<Longrightarrow> 0 < c \<Longrightarrow>
   0 < c' \<and> of_int c' * (10 :: rat) powi s' = of_int c * 10 powi s"
proof (induction c s rule: strip_zeros.induct)
  case (1 c s)
  show ?case
  proof (cases "c \<le> 0 \<or> c mod 10 \<noteq> 0")
    case True
    with 1 show ?thesis by (simp add: strip_zeros.simps[of c s])
  next
    case False
    then have c: "c = 10 * (c div 10)" by presburger
    then have "0 < c div 10" using "1.prems"(2) by linarith
    moreover have "strip_zeros (c div 10) (s + 1) = (c', s')"
      using "1.prems"(1) False by (simp add: strip_zeros.simps[of c s])
    ultimately have "0 < c'" "of_int c' * (10 :: rat) powi s' = of_int (c div 10) * 10 powi (s + 1)"
      using "1.IH" False by auto
    moreover have "of_int (c div 10) * (10 :: rat) powi (s + 1) = of_int (10 * (c div 10)) * 10 powi s"
      by (simp add: power_int_add)
    ultimately show ?thesis using c by simp
  qed
qed

lemma digit_val_zero [simp]: "digit_val (CHR ''0'') = 0"
  by (simp add: digit_val_def)

lemma is_digit_zero [simp]: "is_digit (CHR ''0'')"
  by (simp add: is_digit_def)

lemma digits_val_append_zeros: "digits_val (ds @ zeros n) = digits_val ds * 10 ^ n"
proof (induction n)
  case 0
  then show ?case by (simp add: zeros_def)
next
  case (Suc n)
  have "ds @ zeros (Suc n) = (ds @ zeros n) @ [CHR ''0'']"
    by (simp add: zeros_def replicate_append_same)
  then have "digits_val (ds @ zeros (Suc n)) = 10 * digits_val (ds @ zeros n)"
    by (simp only: digits_val_snoc) simp
  with Suc show ?case by simp
qed

lemma digits_val_zero_Cons: "digits_val (CHR ''0'' # ds) = digits_val ds"
  by (simp add: digits_val_def)

lemma digits_val_zeros_append: "digits_val (zeros n @ ds) = digits_val ds"
  by (induction n) (simp_all add: zeros_def digits_val_zero_Cons)

lemma zeros_digits: "list_all is_digit (zeros n)"
  by (simp add: zeros_def list_all_iff)

lemma show_nat_digits': "list_all is_digit (show_nat c)"
  using show_nat_digits by (simp add: list_all_iff)

lemma take_while_all: "list_all P xs \<Longrightarrow> takeWhile P xs = xs \<and> dropWhile P xs = []"
  by (induction xs) auto

lemma take_while_stop:
  "list_all P xs \<Longrightarrow> \<not> P y \<Longrightarrow> takeWhile P (xs @ y # ys) = xs \<and> dropWhile P (xs @ y # ys) = y # ys"
  by (induction xs) auto

lemma not_digit_dot [simp]: "\<not> is_digit (CHR ''.'')"
  by (simp add: is_digit_def)

text \<open>Digits alone, and digits on either side of a point.\<close>

lemma parse_decimal_digits:
  "list_all is_digit ds \<Longrightarrow> ds \<noteq> [] \<Longrightarrow> parse_decimal f ds = Some (rnd f (of_nat (digits_val ds)))"
  by (simp add: parse_decimal_def take_while_all[of is_digit ds])

lemma parse_decimal_point:
  assumes "list_all is_digit a" and "list_all is_digit b" and "a \<noteq> []"
  shows "parse_decimal f (a @ CHR ''.'' # b)
    = Some (rnd f (of_nat (digits_val (a @ b)) * 10 powi (- int (length b))))"
  by (simp add: parse_decimal_def take_while_stop[OF assms(1) not_digit_dot] take_while_all[OF assms(2)] assms(3))

lemma parse_place_point:
  "parse_decimal f (place_point c s) = Some (rnd f (of_nat c * 10 powi s))"
proof -
  let ?ds = "show_nat c"
  let ?n = "length ?ds"
  consider "0 \<le> s" | "s < 0" "?n \<le> nat (- s)" | "s < 0" "nat (- s) < ?n" by linarith
  then show ?thesis
  proof cases
    case 1
    then have "list_all is_digit (?ds @ zeros (nat s))" using show_nat_digits' zeros_digits by simp
    moreover have "(of_nat (digits_val (?ds @ zeros (nat s))) :: rat) = of_nat c * 10 powi s"
      using 1 by (simp add: digits_val_append_zeros power_int_def)
    ultimately show ?thesis using 1 parse_decimal_digits[of "?ds @ zeros (nat s)" f] by (simp add: place_point_def)
  next
    case 2
    let ?k = "nat (- s)"
    define b where "b = zeros (?k - ?n) @ ?ds"
    have b: "list_all is_digit b" using show_nat_digits' zeros_digits by (simp add: b_def)
    have l: "- int (length b) = s" using 2 by (simp add: b_def zeros_def)
    have pp: "place_point c s = ''0'' @ CHR ''.'' # b" using 2 by (simp add: place_point_def Let_def b_def)
    have dv: "digits_val (''0'' @ b) = c"
      by (simp add: b_def digits_val_zero_Cons digits_val_zeros_append)
    show ?thesis using parse_decimal_point[of "''0''" b f] b unfolding pp dv l by simp
  next
    case 3
    let ?k = "nat (- s)"
    let ?a = "take (?n - ?k) ?ds" and ?b = "drop (?n - ?k) ?ds"
    have "list_all is_digit ?a" "list_all is_digit ?b"
      using show_nat_digits'[of c] by (auto simp: list_all_iff dest: in_set_takeD in_set_dropD)
    moreover have "?a \<noteq> []" using 3 by simp
    moreover have "place_point c s = ?a @ CHR ''.'' # ?b" using 3 by (simp add: place_point_def Let_def)
    moreover have "int (length ?b) = - s" using 3 by simp
    ultimately show ?thesis using parse_decimal_point[of ?a ?b f] by simp
  qed
qed

lemma parse_fmt_pos:
  assumes "rnd f x = Fin x" and "0 < x" and "qmin f \<le> 0"
  shows "parse_decimal f (fmt_pos f x) = Some (Fin x)"
proof -
  obtain c s where cs: "shortest f x = (c, s)" by fastforce
  obtain c' s' where z: "strip_zeros c s = (c', s')" by fastforce
  have v: "0 < c" "rnd f (of_int c * 10 powi s) = Fin x"
    using shortest_from_value[OF assms] cs unfolding shortest_def by blast+
  have "0 < c'" "of_int c' * (10 :: rat) powi s' = of_int c * 10 powi s"
    using strip_zeros_value[OF z v(1)] by auto
  with v(2) show ?thesis by (simp add: fmt_pos_def cs z parse_place_point)
qed

text \<open>The printed text starts with a digit and holds only digits, a point and a sign, or letters.\<close>

lemma place_point_head:
  obtains d r where "place_point c s = d # r" and "is_digit d"
proof -
  obtain d ds where ds: "show_nat c = d # ds" by (cases "show_nat c") auto
  then have d: "is_digit d" using show_nat_digits[of c] by simp
  show ?thesis
  proof (cases "0 \<le> s")
    case True
    with ds d that show ?thesis by (simp add: place_point_def)
  next
    case False
    show ?thesis
    proof (cases "length (show_nat c) \<le> nat (- s)")
      case True
      with False that show ?thesis by (simp add: place_point_def Let_def)
    next
      case 2: False
      then obtain j where "length (show_nat c) - nat (- s) = Suc j"
        by (metis Suc_diff_Suc linorder_not_le)
      with False 2 ds d that show ?thesis by (simp add: place_point_def Let_def)
    qed
  qed
qed

definition num_char :: "char \<Rightarrow> bool" where
  "num_char c \<longleftrightarrow> is_digit c \<or> c \<in> set ''.-NaNinf''"

lemma set_place_point: "set (place_point n s) \<subseteq> set (show_nat n) \<union> set ''0.''"
proof -
  have z: "set (zeros k) \<subseteq> set ''0.''" for k by (auto simp: zeros_def)
  have "set (take k (show_nat n)) \<subseteq> set (show_nat n)" "set (drop k (show_nat n)) \<subseteq> set (show_nat n)" for k
    by (simp_all add: set_take_subset set_drop_subset)
  with z show ?thesis
    by (cases "0 \<le> s"; cases "length (show_nat n) \<le> nat (- s)")
      (simp_all add: place_point_def Let_def subset_iff, blast+)
qed

lemma place_point_chars: "c \<in> set (place_point n s) \<Longrightarrow> is_digit c \<or> c = CHR ''.''"
  using set_place_point[of n s] show_nat_digits[of n] by auto

lemma fmt_pos_chars: "list_all num_char (fmt_pos f x)"
proof -
  have "list_all num_char (place_point n s)" for n s
    unfolding list_all_iff num_char_def by (auto dest!: place_point_chars)
  then show ?thesis by (simp add: fmt_pos_def split: prod.split)
qed

lemma num_char_words:
  "list_all num_char ''NaN''" "list_all num_char ''inf''" "list_all num_char ''-inf''"
  "list_all num_char ''-0''" "list_all num_char ''0''" "num_char (CHR ''-'')" "num_char (CHR ''0'')"
  by (simp_all add: num_char_def)

lemma fmt_float_chars': "list_all num_char (fmt_float f a)"
proof (cases a)
  case (Fin x)
  show ?thesis unfolding Fin fmt_float_def fl.case
    by (simp only: if_split list_all_append) (simp add: fmt_pos_chars num_char_words)
qed (simp_all only: fmt_float_def fl.case num_char_words)

lemma fmt_float_chars: "c \<in> set (fmt_float f a) \<Longrightarrow> num_char c"
  using fmt_float_chars'[of f a] by (simp add: list_all_iff)

lemma num_char_props:
  assumes "num_char c"
  shows "(of_char c :: nat) < 128" "\<not> is_whitespace (of_char c)" "c \<noteq> CHR '',''" "c \<noteq> CHR '']''"
  using assms by (auto simp: num_char_def is_digit_def is_whitespace_def)

lemma fmt_float_nonempty: "fmt_float f a \<noteq> []"
proof -
  have "fmt_pos f x \<noteq> []" for x
    by (simp add: fmt_pos_def split: prod.split) (metis list.distinct(1) place_point_head)
  then show ?thesis by (auto simp: fmt_float_def split: fl.split)
qed

lemma digit_not_special:
  assumes "is_digit d"
  shows "d \<noteq> CHR ''-''" "d \<noteq> CHR ''+''" "ascii_lower d = d" "d \<noteq> CHR ''n''" "d \<noteq> CHR ''i''"
  using assms by (auto simp: is_digit_def ascii_lower_def)

lemma parse_float_digit:
  assumes "is_digit d"
  shows "parse_float f (d # r) = parse_decimal f (d # r)"
    and "parse_float f (CHR ''-'' # d # r) = map_option fneg (parse_decimal f (d # r))"
  using digit_not_special[OF assms]
  by (auto simp: parse_float_def split_sign_def Let_def option.map_ident)

lemma rnd_neg: "rnd f x = Fin x \<Longrightarrow> rnd f (- x) = Fin (- x)"
  by (cases "x = 0") (auto simp: rnd_def Let_def rnd_val_minus split: if_splits)

lemma lower_words:
  "ascii_lower (CHR ''N'') = CHR ''n''" "ascii_lower (CHR ''a'') = CHR ''a''"
  "ascii_lower (CHR ''i'') = CHR ''i''" "ascii_lower (CHR ''n'') = CHR ''n''"
  "ascii_lower (CHR ''f'') = CHR ''f''"
  by code_simp+

lemma parse_fmt_float:
  assumes "is_fl f a" and "qmin f \<le> 0"
  shows "parse_float f (fmt_float f a) = Some a"
proof (cases a)
  case (Fin x)
  then have r: "rnd f x = Fin x" using assms(1) by (simp add: is_fl_def)
  consider "x = 0" | "0 < x" | "x < 0" by linarith
  then show ?thesis
  proof cases
    case 1
    then show ?thesis
      using parse_float_digit(1)[of "CHR ''0''" f "[]"] parse_decimal_digits[of "''0''" f]
      by (simp add: Fin fmt_float_def digits_val_def)
  next
    case 2
    obtain d t where d: "fmt_pos f x = d # t" "is_digit d"
      by (metis fmt_pos_def place_point_head prod.case_eq_if)
    have "parse_decimal f (fmt_pos f x) = Some (Fin x)" by (rule parse_fmt_pos[OF r 2 assms(2)])
    with d 2 show ?thesis by (simp add: Fin fmt_float_def parse_float_digit)
  next
    case 3
    obtain d t where d: "fmt_pos f (- x) = d # t" "is_digit d"
      by (metis fmt_pos_def place_point_head prod.case_eq_if)
    have "parse_decimal f (fmt_pos f (- x)) = Some (Fin (- x))"
      using 3 by (intro parse_fmt_pos[OF rnd_neg[OF r] _ assms(2)]) simp
    with d 3 show ?thesis by (simp add: Fin fmt_float_def parse_float_digit fneg_def)
  qed
next
  case NZero
  then show ?thesis
    using parse_float_digit(2)[of "CHR ''0''" f "[]"] parse_decimal_digits[of "''0''" f]
    by (simp add: fmt_float_def digits_val_def fneg_def)
qed (simp_all add: fmt_float_def parse_float_def split_sign_def Let_def lower_words inf_of_def)

lemma trim_fmt: "trim (fmt_float f a) = fmt_float f a"
  by (rule trim_ascii_id) (auto simp: ascii_def dest: fmt_float_chars num_char_props)

lemma parse_parts_fmt:
  "(\<And>x. x \<in> set v \<Longrightarrow> is_fl binary32 x) \<Longrightarrow> parse_parts (map (fmt_float binary32) v) = Some v"
  by (induction v) (simp_all add: trim_fmt parse_fmt_float binary32_def)

lemma split_join:
  assumes "\<And>x. x \<in> set xs \<Longrightarrow> CHR '','' \<notin> set x" and "xs \<noteq> []"
  shows "split_on (CHR '','') (join_comma xs) = xs"
  using assms
proof (induction xs rule: join_comma.induct)
  case 1
  then show ?case by simp
next
  case (2 x)
  then show ?case by (simp add: split_on_no_sep)
next
  case (3 x y ys)
  have "split_on (CHR '','') (x @ CHR '','' # join_comma (y # ys)) = x # split_on (CHR '','') (join_comma (y # ys))"
    by (rule split_on_append_sep) (use 3 in simp)
  with 3 show ?case by simp
qed

lemma join_comma_nonempty: "x \<noteq> [] \<Longrightarrow> join_comma (x # xs) \<noteq> []"
  by (cases xs) auto

lemma set_join_comma: "set (join_comma xs) \<subseteq> insert (CHR '','') (\<Union> (set ` set xs))"
  by (induction xs rule: join_comma.induct) auto

lemma trim_vector_literal: "trim (vector_literal v) = vector_literal v"
proof (rule trim_ascii_id)
  have chars: "num_char c \<or> c \<in> set '',[]''" if "c \<in> set (vector_literal v)" for c
    using that set_join_comma[of "map (fmt_float binary32) v"] fmt_float_chars
    by (fastforce simp: vector_literal_def)
  show "ascii (vector_literal v)"
    unfolding ascii_def using chars num_char_props(1) by fastforce
  show "\<not> is_whitespace (of_char c)" if "c \<in> set (vector_literal v)" for c
    using chars[OF that] num_char_props(2) by (auto simp: is_whitespace_def)
qed

text \<open>Parsing a printed vector parses the printed components.\<close>

lemma parse_printed_vector:
  "parse_vector_literal (vector_literal v) = parse_parts (map (fmt_float binary32) v)"
proof (cases v)
  case Nil
  then show ?thesis
    using trim_vector_literal[of "[]"] strip_suffix_append[of "'']''" "[]"]
    by (simp add: parse_vector_literal_def vector_literal_def strip_prefix_def starts_with_def)
next
  case (Cons x xs)
  let ?inner = "join_comma (map (fmt_float binary32) v)"
  have ne: "?inner \<noteq> []" using Cons fmt_float_nonempty by (simp add: join_comma_nonempty)
  have "split_on (CHR '','') ?inner = map (fmt_float binary32) v"
    by (rule split_join) (use Cons fmt_float_chars num_char_props(3) in fastforce)+
  moreover have "strip_prefix ''['' (''['' @ ?inner @ '']'') = Some (?inner @ '']'')"
    by (rule strip_prefix_append)
  ultimately show ?thesis
    using ne strip_suffix_append[of "'']''" ?inner]
    unfolding parse_vector_literal_def trim_vector_literal by (simp add: vector_literal_def)
qed

lemma parse_parts_length: "parse_parts ps = Some u \<Longrightarrow> length u = length ps"
  by (induction ps arbitrary: u) (auto split: option.splits)

section \<open>Property\<close>

text \<open>
  C40 (vector text round trip): the literal written for any vector of \<open>f32\<close> values, infinities, negative
  zero and NaN included, is read back as the same vector.
\<close>

theorem vector_literal_roundtrip:
  assumes "\<forall>x \<in> set v. is_fl binary32 x"
  shows "parse_vector_literal (vector_literal v) = Some v"
  unfolding parse_printed_vector by (rule parse_parts_fmt) (use assms in blast)

theorem vector_literal_roundtrip_witness:
  "parse_vector_literal (vector_literal [Fin 1, NZero, PInf]) = Some [Fin 1, NZero, PInf]"
  using vector_literal_roundtrip[of "[Fin 1, NZero, PInf]"] rnd_small_int[of 1 binary32]
  by (simp add: is_fl_def binary32_def)

end
