(* ===== verification/PgClient.thy ===== *)
theory PgClient
  imports IEEE RustStr
begin

text \<open>
  The client interface of the ingest pipeline and its in-memory implementation
  (\<^verbatim>\<open>ingest/pg_client.rs\<close>): the rows, the \<open>PgClient\<close> trait as a record of operations over the
  client's state, the trigram similarity and \<open>FakePgClient\<close>. The promise a client makes to the
  pipeline, that nothing is visible before \<open>commit\<close>, is the locale \<open>tx_client\<close>.
\<close>

section \<open>Rows\<close>

record doc_row =
  dr_id :: uuid
  dr_namespace :: string
  dr_source :: string
  dr_content_hash :: string
  dr_title :: "string option"

record chunk_row =
  cw_id :: uuid
  cw_document_id :: uuid
  cw_namespace :: string
  cw_ord :: i32
  cw_text :: string
  cw_token_count :: i32
  cw_embedding :: "f32 list"

record entity_row =
  en_id :: uuid
  en_namespace :: string
  en_name :: string
  en_kind :: "string option"
  en_name_emb :: "f32 list option"
  en_description :: "string option"

record rel_row =
  rr_id :: uuid
  rr_namespace :: string
  rr_src_id :: uuid
  rr_dst_id :: uuid
  rr_kind :: string
  rr_weight :: f32
  rr_description :: "string option"

record chunk_entity_row =
  ce_chunk_id :: uuid
  ce_entity_id :: uuid
  ce_confidence :: f32

record entity_candidate =
  ec_id :: uuid
  ec_name :: string
  ec_trgm_similarity :: f32
  ec_name_emb :: "f32 list option"

section \<open>The trait\<close>

record 's pg_client =
  pg_document_exists_by_hash :: "string \<Rightarrow> string \<Rightarrow> ('s, bool) sr"
  pg_insert_document :: "doc_row \<Rightarrow> ('s, unit) sr"
  pg_insert_chunk :: "chunk_row \<Rightarrow> ('s, unit) sr"
  pg_insert_entity :: "entity_row \<Rightarrow> ('s, unit) sr"
  pg_insert_relationship :: "rel_row \<Rightarrow> ('s, unit) sr"
  pg_insert_chunk_entity :: "chunk_entity_row \<Rightarrow> ('s, unit) sr"
  pg_fuzzy_match_entity :: "string \<Rightarrow> string \<Rightarrow> nat \<Rightarrow> ('s, entity_candidate list) sr"
  pg_rollback :: "('s, unit) sr"
  pg_commit :: "('s, unit) sr"

text \<open>
  \<open>committed\<close> is what other sessions see of the state. No operation but a successful \<open>commit\<close>
  changes it.
\<close>

locale tx_client =
  fixes cl :: "'s pg_client" and committed :: "'s \<Rightarrow> 'd"
  assumes exists_keeps: "committed (snd (pg_document_exists_by_hash cl ns h s)) = committed s"
    and document_keeps: "committed (snd (pg_insert_document cl d s)) = committed s"
    and chunk_keeps: "committed (snd (pg_insert_chunk cl c s)) = committed s"
    and entity_keeps: "committed (snd (pg_insert_entity cl en s)) = committed s"
    and relationship_keeps: "committed (snd (pg_insert_relationship cl r s)) = committed s"
    and chunk_entity_keeps: "committed (snd (pg_insert_chunk_entity cl l s)) = committed s"
    and fuzzy_keeps: "committed (snd (pg_fuzzy_match_entity cl ns nm k s)) = committed s"
    and rollback_keeps: "committed (snd (pg_rollback cl s)) = committed s"
    and failed_commit_keeps: "pg_commit cl s = (Inl e, s') \<Longrightarrow> committed s' = committed s"

text \<open>An invariant of the client's state: every operation keeps it.\<close>

locale pg_invariant =
  fixes cl :: "'s pg_client" and inv :: "'s \<Rightarrow> bool"
  assumes exists_inv: "inv s \<Longrightarrow> inv (snd (pg_document_exists_by_hash cl ns h s))"
    and document_inv: "inv s \<Longrightarrow> inv (snd (pg_insert_document cl d s))"
    and chunk_inv: "inv s \<Longrightarrow> inv (snd (pg_insert_chunk cl c s))"
    and entity_inv: "inv s \<Longrightarrow> inv (snd (pg_insert_entity cl en s))"
    and relationship_inv: "inv s \<Longrightarrow> inv (snd (pg_insert_relationship cl r s))"
    and chunk_entity_inv: "inv s \<Longrightarrow> inv (snd (pg_insert_chunk_entity cl l s))"
    and fuzzy_inv: "inv s \<Longrightarrow> inv (snd (pg_fuzzy_match_entity cl ns nm k s))"
    and rollback_inv: "inv s \<Longrightarrow> inv (snd (pg_rollback cl s))"
    and commit_inv: "inv s \<Longrightarrow> inv (snd (pg_commit cl s))"

text \<open>The weaker contract of an invariant that only operations that succeed have to keep.\<close>

locale pg_ok_invariant =
  fixes cl :: "'s pg_client" and inv :: "'s \<Rightarrow> bool"
  assumes exists_ok: "sr_ok inv (pg_document_exists_by_hash cl ns h)"
    and document_ok: "sr_ok inv (pg_insert_document cl d)"
    and chunk_ok: "sr_ok inv (pg_insert_chunk cl c)"
    and entity_ok: "sr_ok inv (pg_insert_entity cl en)"
    and relationship_ok: "sr_ok inv (pg_insert_relationship cl r)"
    and chunk_entity_ok: "sr_ok inv (pg_insert_chunk_entity cl l)"
    and fuzzy_ok: "sr_ok inv (pg_fuzzy_match_entity cl ns nm k)"
    and rollback_ok: "sr_ok inv (pg_rollback cl)"
    and commit_ok: "sr_ok inv (pg_commit cl)"

sublocale pg_invariant \<subseteq> pg_ok_invariant
  by unfold_locales (auto intro!: sr_ok_all exists_inv document_inv chunk_inv entity_inv relationship_inv
      chunk_entity_inv fuzzy_inv rollback_inv commit_inv)

section \<open>Trigram similarity\<close>

fun windows3 :: "'a list \<Rightarrow> 'a list list" where
  "windows3 (a # b # c # r) = [a, b, c] # windows3 (b # c # r)"
| "windows3 _ = []"

text \<open>
  \<open>str::to_lowercase\<close> needs the Unicode tables and is the argument \<open>lower\<close>. A hash set is a list
  without repetitions: only its members and their number are used.
\<close>

definition trigrams :: "(string \<Rightarrow> string) \<Rightarrow> string \<Rightarrow> nat list list" where
  "trigrams lower s = remdups (windows3 (chars (''  '' @ lower s @ ''  '')))"

definition trgm_sim :: "(string \<Rightarrow> string) \<Rightarrow> string \<Rightarrow> string \<Rightarrow> f32" where
  "trgm_sim lower a b =
     (let ta = trigrams lower a; tb = trigrams lower b;
          inter = fof_int binary32 (int (length (filter (\<lambda>t. t \<in> set tb) ta)));
          un = fof_int binary32 (int (length (remdups (ta @ tb))))
      in if feq un (Fin 0) then Fin 0 else fdiv binary32 inter un)"

lemma trigram_counts:
  "length (filter (\<lambda>t. t \<in> set (trigrams lower b)) (trigrams lower a))
     = card (set (trigrams lower a) \<inter> set (trigrams lower b))"
  "length (remdups (trigrams lower a @ trigrams lower b))
     = card (set (trigrams lower a) \<union> set (trigrams lower b))"
proof -
  have "distinct (filter (\<lambda>t. t \<in> set (trigrams lower b)) (trigrams lower a))"
    by (simp add: trigrams_def)
  then show "length (filter (\<lambda>t. t \<in> set (trigrams lower b)) (trigrams lower a))
     = card (set (trigrams lower a) \<inter> set (trigrams lower b))"
    by (subst distinct_card[symmetric]) (auto intro: arg_cong[where f = card])
  show "length (remdups (trigrams lower a @ trigrams lower b))
     = card (set (trigrams lower a) \<union> set (trigrams lower b))"
    by (simp add: length_remdups_card_conv)
qed

lemma trgm_sim_card:
  "trgm_sim lower a b =
     (let i = card (set (trigrams lower a) \<inter> set (trigrams lower b));
          u = card (set (trigrams lower a) \<union> set (trigrams lower b))
      in if feq (fof_int binary32 (int u)) (Fin 0) then Fin 0
         else fdiv binary32 (fof_int binary32 (int i)) (fof_int binary32 (int u)))"
  unfolding trgm_sim_def Let_def trigram_counts ..

lemma trgm_sim_sym: "trgm_sim lower a b = trgm_sim lower b a"
  by (simp add: trgm_sim_card Int_commute Un_commute)

lemma uchars_spaces: "uchars (''  '' @ s) = (32, '' '') # (32, '' '') # uchars s"
  by (simp add: uchars_ascii_Cons)

lemma windows3_nonempty: "3 \<le> length xs \<Longrightarrow> windows3 xs \<noteq> []"
  by (cases xs rule: windows3.cases) auto

lemma uchars_nonempty: "s \<noteq> [] \<Longrightarrow> uchars s \<noteq> []"
  by (cases s rule: uchars_cases) auto

lemma trigrams_nonempty: "trigrams lower s \<noteq> []"
proof -
  have "uchars (lower s @ ''  '') \<noteq> []" by (rule uchars_nonempty) simp
  then have "3 \<le> length (chars (''  '' @ lower s @ ''  ''))"
    by (cases "uchars (lower s @ ''  '')") (simp_all add: chars_def uchars_ascii_Cons)
  then show ?thesis by (simp add: trigrams_def windows3_nonempty)
qed

lemma fof_int32_small: "\<bar>n\<bar> < 2 ^ 24 \<Longrightarrow> fof_int binary32 n = Fin (of_int n)"
  unfolding fof_int_def by (rule rnd_small_int) (simp_all add: binary32_def)

section \<open>The in-memory client\<close>

record fake_pg_client =
  fk_documents :: "doc_row list"
  fk_chunks :: "chunk_row list"
  fk_entities :: "entity_row list"
  fk_relationships :: "rel_row list"
  fk_chunk_entities :: "chunk_entity_row list"
  fk_chunk_fail_at :: "nat option"
  fk_chunk_inserts :: nat
  fk_buffered_documents :: "doc_row list"
  fk_buffered_chunks :: "chunk_row list"
  fk_buffered_entities :: "entity_row list"
  fk_buffered_relationships :: "rel_row list"
  fk_buffered_chunk_entities :: "chunk_entity_row list"

definition fake_new :: fake_pg_client where
  "fake_new = \<lparr>fk_documents = [], fk_chunks = [], fk_entities = [], fk_relationships = [],
     fk_chunk_entities = [], fk_chunk_fail_at = None, fk_chunk_inserts = 0, fk_buffered_documents = [],
     fk_buffered_chunks = [], fk_buffered_entities = [], fk_buffered_relationships = [],
     fk_buffered_chunk_entities = []\<rparr>"

definition with_chunk_write_failure_at :: "fake_pg_client \<Rightarrow> nat \<Rightarrow> fake_pg_client" where
  "with_chunk_write_failure_at s n = s\<lparr>fk_chunk_fail_at := Some n\<rparr>"

definition fake_document_exists_by_hash :: "string \<Rightarrow> string \<Rightarrow> (fake_pg_client, bool) sr" where
  "fake_document_exists_by_hash ns h s =
     (Inr (list_ex (\<lambda>d. dr_namespace d = ns \<and> dr_content_hash d = h) (fk_documents s)), s)"

definition fake_insert_document :: "doc_row \<Rightarrow> (fake_pg_client, unit) sr" where
  "fake_insert_document d s = (Inr (), s\<lparr>fk_buffered_documents := fk_buffered_documents s @ [d]\<rparr>)"

definition fake_insert_chunk :: "chunk_row \<Rightarrow> (fake_pg_client, unit) sr" where
  "fake_insert_chunk c s =
     (let s' = s\<lparr>fk_chunk_inserts := fk_chunk_inserts s + 1\<rparr> in
      if Some (fk_chunk_inserts s) = fk_chunk_fail_at s then
        (Inl (InvalidConfig ''synthetic chunk write failure''), s')
      else (Inr (), s'\<lparr>fk_buffered_chunks := fk_buffered_chunks s @ [c]\<rparr>))"

definition fake_insert_entity :: "entity_row \<Rightarrow> (fake_pg_client, unit) sr" where
  "fake_insert_entity e s = (Inr (), s\<lparr>fk_buffered_entities := fk_buffered_entities s @ [e]\<rparr>)"

definition fake_insert_relationship :: "rel_row \<Rightarrow> (fake_pg_client, unit) sr" where
  "fake_insert_relationship r s =
     (Inr (), s\<lparr>fk_buffered_relationships := fk_buffered_relationships s @ [r]\<rparr>)"

definition fake_insert_chunk_entity :: "chunk_entity_row \<Rightarrow> (fake_pg_client, unit) sr" where
  "fake_insert_chunk_entity l s =
     (Inr (), s\<lparr>fk_buffered_chunk_entities := fk_buffered_chunk_entities s @ [l]\<rparr>)"

definition candidate_of :: "(string \<Rightarrow> string) \<Rightarrow> string \<Rightarrow> entity_row \<Rightarrow> entity_candidate" where
  "candidate_of lower name e =
     \<lparr>ec_id = en_id e, ec_name = en_name e, ec_trgm_similarity = trgm_sim lower (en_name e) name,
      ec_name_emb = en_name_emb e\<rparr>"

definition fake_fuzzy_match_entity ::
  "(string \<Rightarrow> string) \<Rightarrow> string \<Rightarrow> string \<Rightarrow> nat \<Rightarrow> (fake_pg_client, entity_candidate list) sr" where
  "fake_fuzzy_match_entity lower ns name limit s =
     (let hits = map (candidate_of lower name) (filter (\<lambda>e. en_namespace e = ns) (fk_entities s));
          sorted = stable_sort (\<lambda>a b. fcmp_le (ec_trgm_similarity b) (ec_trgm_similarity a)) hits
      in (Inr (take limit sorted), s))"

definition fake_rollback :: "(fake_pg_client, unit) sr" where
  "fake_rollback s = (Inr (), s\<lparr>fk_buffered_documents := [], fk_buffered_chunks := [],
     fk_buffered_entities := [], fk_buffered_relationships := [], fk_buffered_chunk_entities := [],
     fk_chunk_inserts := 0\<rparr>)"

definition fake_commit :: "(fake_pg_client, unit) sr" where
  "fake_commit s = (Inr (), s\<lparr>
     fk_documents := fk_documents s @ fk_buffered_documents s,
     fk_chunks := fk_chunks s @ fk_buffered_chunks s,
     fk_entities := fk_entities s @ fk_buffered_entities s,
     fk_relationships := fk_relationships s @ fk_buffered_relationships s,
     fk_chunk_entities := fk_chunk_entities s @ fk_buffered_chunk_entities s,
     fk_buffered_documents := [], fk_buffered_chunks := [], fk_buffered_entities := [],
     fk_buffered_relationships := [], fk_buffered_chunk_entities := [], fk_chunk_inserts := 0\<rparr>)"

definition fake_client :: "(string \<Rightarrow> string) \<Rightarrow> fake_pg_client pg_client" where
  "fake_client lower = \<lparr>
     pg_document_exists_by_hash = fake_document_exists_by_hash,
     pg_insert_document = fake_insert_document,
     pg_insert_chunk = fake_insert_chunk,
     pg_insert_entity = fake_insert_entity,
     pg_insert_relationship = fake_insert_relationship,
     pg_insert_chunk_entity = fake_insert_chunk_entity,
     pg_fuzzy_match_entity = fake_fuzzy_match_entity lower,
     pg_rollback = fake_rollback,
     pg_commit = fake_commit\<rparr>"

lemmas fake_ops = fake_document_exists_by_hash_def fake_insert_document_def fake_insert_chunk_def
  fake_insert_entity_def fake_insert_relationship_def fake_insert_chunk_entity_def
  fake_fuzzy_match_entity_def fake_rollback_def fake_commit_def

lemma fake_client_sel [simp]:
  "pg_document_exists_by_hash (fake_client lower) = fake_document_exists_by_hash"
  "pg_insert_document (fake_client lower) = fake_insert_document"
  "pg_insert_chunk (fake_client lower) = fake_insert_chunk"
  "pg_insert_entity (fake_client lower) = fake_insert_entity"
  "pg_insert_relationship (fake_client lower) = fake_insert_relationship"
  "pg_insert_chunk_entity (fake_client lower) = fake_insert_chunk_entity"
  "pg_fuzzy_match_entity (fake_client lower) = fake_fuzzy_match_entity lower"
  "pg_rollback (fake_client lower) = fake_rollback"
  "pg_commit (fake_client lower) = fake_commit"
  by (simp_all add: fake_client_def)

text \<open>The canonical vectors, which the tests of the source inspect.\<close>

definition fake_canonical ::
  "fake_pg_client \<Rightarrow> doc_row list \<times> chunk_row list \<times> entity_row list \<times> rel_row list \<times> chunk_entity_row list"
where
  "fake_canonical s =
     (fk_documents s, fk_chunks s, fk_entities s, fk_relationships s, fk_chunk_entities s)"

interpretation fake: tx_client "fake_client lower" fake_canonical for lower
  by unfold_locales (auto simp: fake_canonical_def fake_ops Let_def)

text \<open>Nothing is buffered.\<close>

definition fake_clean :: "fake_pg_client \<Rightarrow> bool" where
  "fake_clean s \<longleftrightarrow> fk_buffered_documents s = [] \<and> fk_buffered_chunks s = []
     \<and> fk_buffered_entities s = [] \<and> fk_buffered_relationships s = [] \<and> fk_buffered_chunk_entities s = []
     \<and> fk_chunk_inserts s = 0"

section \<open>Properties\<close>

text \<open>
  Trigram similarity: for names with fewer than \<open>2\<^sup>2\<^sup>4\<close> trigrams the similarity is symmetric, lies
  between zero and one, and is one for names that agree up to letter case.
\<close>

lemma trgm_sim_range:
  assumes "card (set (trigrams lower a) \<union> set (trigrams lower b)) < 2 ^ 24"
  shows "trgm_sim lower a b = trgm_sim lower b a
    \<and> fle (Fin 0) (trgm_sim lower a b) \<and> fle (trgm_sim lower a b) (Fin 1)
    \<and> (lower a = lower b \<longrightarrow> trgm_sim lower a b = Fin 1)"
proof -
  let ?A = "set (trigrams lower a)" and ?B = "set (trigrams lower b)"
  define i u where "i = card (?A \<inter> ?B)" and "u = card (?A \<union> ?B)"
  have iu: "i \<le> u" by (auto simp: i_def u_def intro: card_mono)
  have u0: "0 < u" using trigrams_nonempty[of lower a] by (auto simp: u_def card_gt_0_iff)
  have big: "u < 2 ^ 24" using assms by (simp add: u_def)
  have f: "fof_int binary32 (int i) = Fin (of_int (int i))" "fof_int binary32 (int u) = Fin (of_int (int u))"
    using iu big by (simp_all add: fof_int32_small)
  have sim: "trgm_sim lower a b = fdiv binary32 (Fin (of_int (int i))) (Fin (of_int (int u)))"
    using u0 unfolding trgm_sim_card Let_def i_def[symmetric] u_def[symmetric] f
    by (simp add: feq_def)
  then have r: "trgm_sim lower a b = rnd binary32 (of_int (int i) / of_int (int u))"
    using u0 by (simp add: fdiv_Fin_pos fnonneg_def)
  have one: "rnd binary32 1 = Fin 1" using fof_int32_small[of 1] by (simp add: fof_int_def)
  have "fle (rnd binary32 0) (trgm_sim lower a b)" "fle (trgm_sim lower a b) (rnd binary32 1)"
    unfolding r using u0 iu by (intro rnd_mono; simp)+
  moreover have "trgm_sim lower a b = Fin 1" if "lower a = lower b"
  proof -
    have "trigrams lower a = trigrams lower b" using that by (simp add: trigrams_def)
    then have "i = u" by (simp add: i_def u_def)
    then show ?thesis using u0 r one by simp
  qed
  ultimately show ?thesis using one trgm_sim_sym[of lower a b] by simp
qed

lemma trigrams_ab: "trigrams id ''ab'' = [[32, 32, 97], [32, 97, 98], [97, 98, 32], [98, 32, 32]]"
  by (simp add: trigrams_def chars_def uchars_ascii)

end
