(* ===== verification/Resolve.thy ===== *)
theory Resolve
  imports PgClient
begin

text \<open>
  Entity resolution (\<^verbatim>\<open>ingest/resolve.rs\<close>): merge an extracted name into an existing entity when
  both its trigram similarity and the cosine of the name embeddings clear their thresholds, or insert
  a new row; and the pure grouping of name variants used for parity with the sibling implementation.
\<close>

text \<open>The values that \<^verbatim>\<open>build.rs\<close> writes into \<^verbatim>\<open>parity_constants_gen.rs\<close>.\<close>

definition TRGM_MERGE :: f32 where
  "TRGM_MERGE = rnd binary32 (85 / 100)"

definition COSINE_MERGE :: f32 where
  "COSINE_MERGE = rnd binary32 (90 / 100)"

definition TRGM_CANDIDATE_LIMIT :: nat where
  "TRGM_CANDIDATE_LIMIT = 8"

definition norm2 :: "f32 list \<Rightarrow> f32" where
  "norm2 v = fsqrt binary32 (fsum binary32 (map (\<lambda>x. fmul binary32 x x) v))"

definition cosine :: "f32 list \<Rightarrow> f32 list \<Rightarrow> f32" where
  "cosine a b =
     (if length a \<noteq> length b \<or> a = [] then Fin 0
      else
        let dot = fsum binary32 (map2 (fmul binary32) a b); na = norm2 a; nb = norm2 b
        in if feq na (Fin 0) \<or> feq nb (Fin 0) then Fin 0
           else fdiv binary32 dot (fmul binary32 na nb))"

text \<open>The loop over the candidates; a similarity that is not a number is not below the threshold.\<close>

fun merge_target :: "f32 list \<Rightarrow> entity_candidate list \<Rightarrow> uuid option" where
  "merge_target emb [] = None"
| "merge_target emb (c # cs) =
     (if flt (ec_trgm_similarity c) TRGM_MERGE then merge_target emb cs
      else case ec_name_emb c of
        None \<Rightarrow> merge_target emb cs
      | Some cand_emb \<Rightarrow>
          if fle COSINE_MERGE (cosine emb cand_emb) then Some (ec_id c) else merge_target emb cs)"

text \<open>
  The client's state \<open>'s\<close> is threaded beside the rest of the world \<open>'w\<close>, from which a fresh
  identifier is drawn (\<open>Uuid::new_v4\<close>).
\<close>

definition on_client :: "('s, 'a) sr \<Rightarrow> ('s \<times> 'w, 'a) sr" where
  "on_client m sw = (case m (fst sw) of (r, s') \<Rightarrow> (r, (s', snd sw)))"

definition on_world :: "('w, 'a) sr \<Rightarrow> ('s \<times> 'w, 'a) sr" where
  "on_world m sw = (case m (snd sw) of (r, w') \<Rightarrow> (r, (fst sw, w')))"

definition fresh :: "('w \<Rightarrow> 'a \<times> 'w) \<Rightarrow> ('s \<times> 'w, 'a) sr" where
  "fresh new_v4 = on_world (\<lambda>w. case new_v4 w of (u, w') \<Rightarrow> (Inr u, w'))"

definition resolve_or_insert_entity ::
  "'s pg_client \<Rightarrow> ('w \<Rightarrow> uuid \<times> 'w) \<Rightarrow> string \<Rightarrow> string \<Rightarrow> string option \<Rightarrow> f32 list \<Rightarrow> string option
     \<Rightarrow> ('s \<times> 'w, uuid) sr" where
  "resolve_or_insert_entity cl new_v4 ns name kind incoming_emb description =
     sr_bind (on_client (pg_fuzzy_match_entity cl ns name TRGM_CANDIDATE_LIMIT)) (\<lambda>cands.
     case merge_target incoming_emb cands of
       Some i \<Rightarrow> sr_return i
     | None \<Rightarrow>
         sr_bind (fresh new_v4) (\<lambda>new_id.
         sr_bind (on_client (pg_insert_entity cl
           \<lparr>en_id = new_id, en_namespace = ns, en_name = name, en_kind = kind,
            en_name_emb = Some incoming_emb, en_description = description\<rparr>)) (\<lambda>_.
           sr_return new_id)))"

section \<open>The parity grouping\<close>

text \<open>\<open>v[i % 8] += f32::from(b)\<close> over the bytes of the lower-cased name, then normalised.\<close>

fun add_bytes :: "nat \<Rightarrow> f32 list \<Rightarrow> string \<Rightarrow> f32 list" where
  "add_bytes i v [] = v"
| "add_bytes i v (b # bs) =
     add_bytes (i + 1) (v[i mod 8 := fadd binary32 (v ! (i mod 8)) (fof_int binary32 (of_char b))]) bs"

definition parity_name_vec :: "(string \<Rightarrow> string) \<Rightarrow> string \<Rightarrow> f32 list" where
  "parity_name_vec lower name =
     (let v = add_bytes 0 (replicate 8 (Fin 0)) (lower name); n = norm2 v
      in if flt (Fin 0) n then map (\<lambda>x. fdiv binary32 x n) v else v)"

fun first_hit :: "f32 list \<Rightarrow> (string \<times> f32 list) list \<Rightarrow> (nat \<times> f32) list \<Rightarrow> nat option" where
  "first_hit emb canon [] = None"
| "first_hit emb canon ((idx, ts) # cands) =
     (if flt ts TRGM_MERGE then None
      else if fle COSINE_MERGE (cosine emb (snd (canon ! idx))) then Some idx
      else first_hit emb canon cands)"

definition canon_candidates ::
  "(string \<Rightarrow> string) \<Rightarrow> string \<Rightarrow> (string \<times> f32 list) list \<Rightarrow> (nat \<times> f32) list" where
  "canon_candidates lower name canon =
     stable_sort (\<lambda>a b. ftotal_le (snd b) (snd a))
       (map (\<lambda>(idx, cn, _). (idx, trgm_sim lower name cn)) (enumerate 0 canon))"

text \<open>One name: the canonical list, and the map from names to positions in it.\<close>

definition canon_step ::
  "(string \<Rightarrow> string) \<Rightarrow> string \<Rightarrow> (string \<times> f32 list) list \<times> (string \<rightharpoonup> nat)
     \<Rightarrow> (string \<times> f32 list) list \<times> (string \<rightharpoonup> nat)" where
  "canon_step lower name st =
     (case st of (canon, out) \<Rightarrow>
        let emb = parity_name_vec lower name in
        case first_hit emb canon (canon_candidates lower name canon) of
          Some idx \<Rightarrow> (canon, out(name \<mapsto> idx))
        | None \<Rightarrow> (canon @ [(name, emb)], out(name \<mapsto> length canon)))"

definition resolve_canonical_ids :: "(string \<Rightarrow> string) \<Rightarrow> string list \<Rightarrow> (string \<rightharpoonup> nat)" where
  "resolve_canonical_ids lower names = snd (foldl (\<lambda>st name. canon_step lower name st) ([], Map.empty) names)"

section \<open>Facts\<close>

lemma on_client_Inr: "on_client m (s, w) = (Inr a, t) \<longleftrightarrow> (\<exists>s'. m s = (Inr a, s') \<and> t = (s', w))"
  by (auto simp: on_client_def split: prod.splits)

lemma on_client_Inl: "on_client m (s, w) = (Inl e, t) \<longleftrightarrow> (\<exists>s'. m s = (Inl e, s') \<and> t = (s', w))"
  by (auto simp: on_client_def split: prod.splits)

lemma on_world_fst: "fst (snd (on_world m sw)) = fst sw"
  by (simp add: on_world_def split: prod.splits)

lemma on_client_snd: "fst (snd (on_client m sw)) = snd (m (fst sw))"
  by (simp add: on_client_def split: prod.splits)

lemma fresh_Inr: "fresh nv (s, w) = (Inr u, t) \<longleftrightarrow> (\<exists>w'. nv w = (u, w') \<and> t = (s, w'))"
  by (auto simp: fresh_def on_world_def split: prod.splits)

lemma fresh_Inl [simp]: "fresh nv sw \<noteq> (Inl e, t)"
  by (auto simp: fresh_def on_world_def split: prod.splits)

text \<open>A merge is backed by a candidate that clears both thresholds.\<close>

definition clears :: "f32 list \<Rightarrow> entity_candidate \<Rightarrow> bool" where
  "clears emb c \<longleftrightarrow> \<not> flt (ec_trgm_similarity c) TRGM_MERGE
     \<and> (\<exists>v. ec_name_emb c = Some v \<and> fle COSINE_MERGE (cosine emb v))"

lemma merge_target_Some:
  "merge_target emb cs = Some i \<Longrightarrow>
   \<exists>pre c post. cs = pre @ c # post \<and> ec_id c = i \<and> clears emb c \<and> (\<forall>d \<in> set pre. \<not> clears emb d)"
proof (induction cs)
  case Nil
  then show ?case by simp
next
  case (Cons c cs)
  show ?case
  proof (cases "clears emb c")
    case True
    then have "ec_id c = i" using Cons.prems by (auto simp: clears_def split: if_splits option.splits)
    with True show ?thesis by (intro exI[of _ "[]"] exI[of _ c] exI[of _ cs]) auto
  next
    case False
    then have "merge_target emb cs = Some i"
      using Cons.prems by (auto simp: clears_def split: if_splits option.splits)
    then obtain pre d post where "cs = pre @ d # post" "ec_id d = i" "clears emb d"
        "\<forall>d \<in> set pre. \<not> clears emb d"
      using Cons.IH by blast
    with False show ?thesis by (intro exI[of _ "c # pre"] exI[of _ d] exI[of _ post]) auto
  qed
qed

lemma merge_target_None: "merge_target emb cs = None \<longleftrightarrow> (\<forall>c \<in> set cs. \<not> clears emb c)"
  by (induction cs) (auto simp: clears_def split: option.splits)

lemma sr_keeps_on_client:
  "(\<And>s. committed (snd (m s)) = committed s) \<Longrightarrow>
   sr_keeps (\<lambda>sw sw'. committed (fst sw') = committed (fst sw)) (on_client m)"
  by (simp add: sr_keeps_def on_client_snd)

lemma sr_keeps_on_world: "sr_keeps (\<lambda>sw sw'. committed (fst sw') = committed (fst sw)) (on_world m)"
  by (simp add: sr_keeps_def on_world_fst)

lemma sr_keeps_return_fst: "sr_keeps (\<lambda>sw sw'. committed (fst sw') = committed (fst sw)) (sr_return a)"
  by (simp add: sr_keeps_def sr_apply)

lemma transp_fst_eq: "transp (\<lambda>sw sw'. f (fst sw') = f (fst sw))"
  by (auto intro: transpI)

lemma reflp_fst_eq: "reflp (\<lambda>sw sw'. f (fst sw') = f (fst sw))"
  by (auto intro: reflpI)

lemmas sr_keeps_fst = sr_keeps_bind[OF transp_fst_eq] sr_keeps_on_client sr_keeps_on_world
  sr_keeps_return_fst sr_keeps_lift[OF reflp_fst_eq] sr_keeps_fail[OF reflp_fst_eq]

context tx_client
begin

text \<open>Resolution leaves the visible state alone.\<close>

lemma resolve_keeps:
  "sr_keeps (\<lambda>sw sw'. committed (fst sw') = committed (fst sw))
     (resolve_or_insert_entity cl nv ns name kind emb d)"
  unfolding resolve_or_insert_entity_def fresh_def
  by (intro sr_keeps_fst, simp add: fuzzy_keeps, split option.split, safe)
    (intro sr_keeps_fst, simp_all add: entity_keeps sr_keeps_return_fst)

end

text \<open>Two names go together when trigram similarity and cosine both clear their thresholds.\<close>

definition alike :: "(string \<Rightarrow> string) \<Rightarrow> string \<Rightarrow> string \<Rightarrow> bool" where
  "alike lower name cn \<longleftrightarrow> \<not> flt (trgm_sim lower name cn) TRGM_MERGE
     \<and> fle COSINE_MERGE (cosine (parity_name_vec lower name) (parity_name_vec lower cn))"

lemma first_hit_Some:
  "first_hit emb canon cands = Some i \<Longrightarrow>
   \<exists>ts. (i, ts) \<in> set cands \<and> \<not> flt ts TRGM_MERGE \<and> fle COSINE_MERGE (cosine emb (snd (canon ! i)))"
  by (induction emb canon cands rule: first_hit.induct) (auto split: if_splits)

lemma canon_candidates_mem:
  "(i, ts) \<in> set (canon_candidates lower name canon)
   \<Longrightarrow> i < length canon \<and> ts = trgm_sim lower name (fst (canon ! i))"
  by (auto simp: canon_candidates_def in_set_enumerate_eq)

definition canon_inv ::
  "(string \<Rightarrow> string) \<Rightarrow> string list \<Rightarrow> (string \<times> f32 list) list \<times> (string \<rightharpoonup> nat) \<Rightarrow> bool" where
  "canon_inv lower seen st \<longleftrightarrow> dom (snd st) = set seen
     \<and> length (fst st) \<le> length seen \<and> fst ` set (fst st) \<subseteq> set seen
     \<and> (\<forall>p \<in> set (fst st). snd p = parity_name_vec lower (fst p))
     \<and> (\<forall>n i. snd st n = Some i \<longrightarrow> i < length (fst st)
          \<and> (fst (fst st ! i) = n \<or> alike lower n (fst (fst st ! i))))"

lemma canon_step_inv:
  assumes "canon_inv lower seen st"
  shows "canon_inv lower (seen @ [name]) (canon_step lower name st)"
proof -
  obtain canon out where st: "st = (canon, out)" by fastforce
  have inv: "dom out = set seen" "length canon \<le> length seen" "fst ` set canon \<subseteq> set seen"
      "\<forall>p \<in> set canon. snd p = parity_name_vec lower (fst p)"
      "\<forall>n i. out n = Some i \<longrightarrow> i < length canon \<and> (fst (canon ! i) = n \<or> alike lower n (fst (canon ! i)))"
    using assms by (simp_all add: canon_inv_def st)
  show ?thesis
  proof (cases "first_hit (parity_name_vec lower name) canon (canon_candidates lower name canon)")
    case None
    with inv show ?thesis
      by (auto simp: canon_inv_def canon_step_def st nth_append less_Suc_eq)
  next
    case (Some k)
    from first_hit_Some[OF this] obtain ts where k: "(k, ts) \<in> set (canon_candidates lower name canon)"
        "\<not> flt ts TRGM_MERGE" "fle COSINE_MERGE (cosine (parity_name_vec lower name) (snd (canon ! k)))"
      by blast
    then have "k < length canon" "alike lower name (fst (canon ! k))"
      using canon_candidates_mem[OF k(1)] inv(4) by (auto simp: alike_def)
    with Some inv show ?thesis by (auto simp: canon_inv_def canon_step_def st)
  qed
qed

lemma canon_fold_inv:
  "canon_inv lower seen st \<Longrightarrow> canon_inv lower (seen @ names) (foldl (\<lambda>st name. canon_step lower name st) st names)"
proof (induction names arbitrary: seen st)
  case Nil
  then show ?case by simp
next
  case (Cons n names)
  have "canon_inv lower ((seen @ [n]) @ names)
      (foldl (\<lambda>st name. canon_step lower name st) (canon_step lower n st) names)"
    by (rule Cons.IH) (rule canon_step_inv[OF Cons.prems])
  then show ?case by simp
qed

section \<open>Properties\<close>


lemma demo_resolve:
  "resolve_or_insert_entity (fake_client id) (\<lambda>w. (Uuid w, w + 1)) ''n'' ''Ada'' None [Fin 1] None (fake_new, 5)
     = (Inr (Uuid 5), (fake_new\<lparr>fk_buffered_entities := [\<lparr>en_id = Uuid 5, en_namespace = ''n'',
         en_name = ''Ada'', en_kind = None, en_name_emb = Some [Fin 1], en_description = None\<rparr>]\<rparr>, 6))"
  by (simp add: resolve_or_insert_entity_def on_client_def sr_bind_def sr_apply fresh_def on_world_def
      fake_insert_entity_def fake_fuzzy_match_entity_def fake_new_def Let_def)


text \<open>
  Parity grouping: every name of the input, and no other, gets a canonical id; an id is the
  position of a name of the input, and a name has its own position or that of a name with which it
  clears both thresholds.
\<close>

theorem resolve_canonical_ids_correct:
  "\<exists>canon. set canon \<subseteq> set names \<and> length canon \<le> length names
    \<and> dom (resolve_canonical_ids lower names) = set names
    \<and> (\<forall>n i. resolve_canonical_ids lower names n = Some i \<longrightarrow>
         i < length canon \<and> (canon ! i = n \<or> alike lower n (canon ! i)))"
proof -
  obtain canon out where st: "foldl (\<lambda>st name. canon_step lower name st) ([], Map.empty) names = (canon, out)"
    by fastforce
  have "canon_inv lower ([] @ names) (foldl (\<lambda>st name. canon_step lower name st) ([], Map.empty) names)"
    by (rule canon_fold_inv) (simp add: canon_inv_def)
  then have "set (map fst canon) \<subseteq> set names \<and> length (map fst canon) \<le> length names
    \<and> dom out = set names
    \<and> (\<forall>n i. out n = Some i \<longrightarrow> i < length (map fst canon)
         \<and> (map fst canon ! i = n \<or> alike lower n (map fst canon ! i)))"
    unfolding st by (auto simp: canon_inv_def)
  then show ?thesis unfolding resolve_canonical_ids_def st snd_conv by (rule exI)
qed

theorem resolve_canonical_ids_witness:
  "resolve_canonical_ids id [''a''] ''a'' = Some 0 \<and> dom (resolve_canonical_ids id [''a'']) = {''a''}"
proof -
  obtain canon where c: "length canon \<le> 1" "dom (resolve_canonical_ids id [''a'']) = {''a''}"
      "\<And>n i. resolve_canonical_ids id [''a''] n = Some i \<Longrightarrow> i < length (canon :: string list)"
    using resolve_canonical_ids_correct[of "[''a'']" id] by auto
  from c(2) obtain i where i: "resolve_canonical_ids id [''a''] ''a'' = Some i" by blast
  with c(3)[OF i] c(1) have "i = 0" by simp
  with i c(2) show ?thesis by simp
qed

end
