(* ===== verification/RunJob.thy ===== *)
theory RunJob
  imports Resolve Chunking Embedding Llm
begin

text \<open>
  The per-document ingest pipeline (\<^verbatim>\<open>ingest/run.rs\<close>, \<^verbatim>\<open>ingest/types.rs\<close>): read the source, skip a
  content already known in the namespace, chunk, embed, persist document, chunks and extracted graph
  in one logical transaction, commit or roll back.
\<close>

section \<open>Requests\<close>

datatype ingest_source = Path string | Text string string | Bytes string bytes

record ingest_request =
  rq_source :: ingest_source
  rq_namespace :: string
  rq_chunk_strategy :: string

definition new_path :: "string \<Rightarrow> string \<Rightarrow> ingest_request" where
  "new_path path ns = \<lparr>rq_source = Path path, rq_namespace = ns, rq_chunk_strategy = ''auto''\<rparr>"

record ingest_job =
  ij_id :: uuid
  ij_request :: ingest_request
  ij_attempt_count :: i32

datatype run_job_outcome =
    Completed uuid nat
  | SkippedDuplicate string

text \<open>What the pipeline uses of the outside: hash, chunkers, identifiers, files.\<close>

record ('c, 'w) ingest_env =
  ie_sha :: "bytes \<Rightarrow> bytes"
  ie_chunkshop :: "'c chunkshop"
  ie_new_v4 :: "'w \<Rightarrow> uuid \<times> 'w"
  ie_read_file :: "string \<Rightarrow> 'w \<Rightarrow> (string + bytes) \<times> 'w"
  ie_utf8_error :: "bytes \<Rightarrow> string"

section \<open>The pipeline\<close>

fun read_source :: "('c, 'w) ingest_env \<Rightarrow> ingest_source \<Rightarrow> ('w, string \<times> bytes) sr" where
  "read_source env (Path p) w =
     (case ie_read_file env p w of
        (Inl e, w') \<Rightarrow> (Inl (InvalidConfig (''read '' @ p @ '': '' @ e)), w')
      | (Inr bs, w') \<Rightarrow> (Inr (p, bs), w'))"
| "read_source env (Text name content) w = (Inr (name, content), w)"
| "read_source env (Bytes name bs) w = (Inr (name, bs), w)"

fun persist_entities ::
  "'s pg_client \<Rightarrow> ('c, 'w) ingest_env \<Rightarrow> 'w embedder \<Rightarrow> string \<Rightarrow> uuid \<Rightarrow> extracted_entity list
     \<Rightarrow> (string \<rightharpoonup> uuid) \<Rightarrow> ('s \<times> 'w, string \<rightharpoonup> uuid) sr" where
  "persist_entities cl env emb ns chunk_id [] name_to_id = sr_return name_to_id"
| "persist_entities cl env emb ns chunk_id (ent # ents) name_to_id =
     sr_bind (on_world (em_embed_batch emb [ee_name ent])) (\<lambda>name_emb_vec.
     sr_bind (sr_lift (ok_or (InvalidConfig ''entity-name embed returned empty'')
         (case name_emb_vec of [] \<Rightarrow> None | v # _ \<Rightarrow> Some v))) (\<lambda>name_emb.
     sr_bind (resolve_or_insert_entity cl (ie_new_v4 env) ns (ee_name ent) (ee_kind ent) name_emb
         (ee_description ent)) (\<lambda>entity_id.
     sr_bind (on_client (pg_insert_chunk_entity cl
         \<lparr>ce_chunk_id = chunk_id, ce_entity_id = entity_id, ce_confidence = ee_confidence ent\<rparr>)) (\<lambda>_.
     persist_entities cl env emb ns chunk_id ents (name_to_id(ee_name ent \<mapsto> entity_id))))))"

fun persist_relationships ::
  "'s pg_client \<Rightarrow> ('c, 'w) ingest_env \<Rightarrow> string \<Rightarrow> (string \<rightharpoonup> uuid) \<Rightarrow> extracted_relationship list
     \<Rightarrow> ('s \<times> 'w, unit) sr" where
  "persist_relationships cl env ns name_to_id [] = sr_return ()"
| "persist_relationships cl env ns name_to_id (rel # rels) =
     (case (name_to_id (er_src_name rel), name_to_id (er_dst_name rel)) of
        (Some src, Some dst) \<Rightarrow>
          sr_bind (fresh (ie_new_v4 env)) (\<lambda>i.
          sr_bind (on_client (pg_insert_relationship cl
            \<lparr>rr_id = i, rr_namespace = ns, rr_src_id = src, rr_dst_id = dst, rr_kind = er_kind rel,
             rr_weight = er_weight rel, rr_description = None\<rparr>)) (\<lambda>_.
          persist_relationships cl env ns name_to_id rels))
      | _ \<Rightarrow> persist_relationships cl env ns name_to_id rels)"

definition persist_chunk_extraction ::
  "'s pg_client \<Rightarrow> ('c, 'w) ingest_env \<Rightarrow> 'w embedder \<Rightarrow> 'w llm_provider \<Rightarrow> string \<Rightarrow> uuid \<Rightarrow> string
     \<Rightarrow> ('s \<times> 'w, unit) sr" where
  "persist_chunk_extraction cl env emb provider ns chunk_id chunk_text =
     sr_bind (on_world (lp_extract provider chunk_text ns)) (\<lambda>x.
     sr_bind (persist_entities cl env emb ns chunk_id (ex_entities x) Map.empty) (\<lambda>name_to_id.
     persist_relationships cl env ns name_to_id (ex_relationships x)))"

definition chunk_row_of :: "string \<Rightarrow> uuid \<Rightarrow> uuid \<times> chunk \<times> f32 list \<Rightarrow> chunk_row" where
  "chunk_row_of ns doc_id x = (case x of (chunk_id, chunk, embedding) \<Rightarrow>
     \<lparr>cw_id = chunk_id, cw_document_id = doc_id, cw_namespace = ns, cw_ord = ch_ord chunk,
      cw_text = ch_text chunk, cw_token_count = ch_token_count chunk, cw_embedding = embedding\<rparr>)"

definition persist_chunk ::
  "'s pg_client \<Rightarrow> ('c, 'w) ingest_env \<Rightarrow> 'w embedder \<Rightarrow> 'w llm_provider \<Rightarrow> string \<Rightarrow> uuid
     \<Rightarrow> uuid \<times> chunk \<times> f32 list \<Rightarrow> ('s \<times> 'w, unit) sr" where
  "persist_chunk cl env emb provider ns doc_id x =
     sr_bind (on_client (pg_insert_chunk cl (chunk_row_of ns doc_id x))) (\<lambda>_.
     persist_chunk_extraction cl env emb provider ns (fst x) (ch_text (fst (snd x))))"

fun fresh_ids :: "('w \<Rightarrow> uuid \<times> 'w) \<Rightarrow> 'x list \<Rightarrow> ('s \<times> 'w, uuid list) sr" where
  "fresh_ids nv [] = sr_return []"
| "fresh_ids nv (x # xs) = sr_bind (fresh nv) (\<lambda>u. sr_bind (fresh_ids nv xs) (\<lambda>us. sr_return (u # us)))"

text \<open>Step 7 inside the closure, then commit, or roll back and pass the error on.\<close>

definition persist_document ::
  "'s pg_client \<Rightarrow> ('c, 'w) ingest_env \<Rightarrow> 'w embedder \<Rightarrow> 'w llm_provider \<Rightarrow> doc_row
     \<Rightarrow> (uuid \<times> chunk \<times> f32 list) list \<Rightarrow> ('s \<times> 'w, unit) sr" where
  "persist_document cl env emb provider doc items =
     sr_bind (on_client (pg_insert_document cl doc)) (\<lambda>_.
     sr_for (persist_chunk cl env emb provider (dr_namespace doc) (dr_id doc)) items)"

definition commit_or_rollback ::
  "'s pg_client \<Rightarrow> ('s \<times> 'w, unit) sr \<Rightarrow> uuid \<Rightarrow> nat \<Rightarrow> ('s \<times> 'w, run_job_outcome) sr" where
  "commit_or_rollback cl persist doc_id n sw =
     (case persist sw of
        (Inr _, sw') \<Rightarrow>
          sr_bind (on_client (pg_commit cl)) (\<lambda>_. sr_return (Completed doc_id n)) sw'
      | (Inl e, sw') \<Rightarrow> (Inl e, snd (on_client (pg_rollback cl) sw')))"

definition run_job ::
  "'s pg_client \<Rightarrow> ('c, 'w) ingest_env \<Rightarrow> ingest_request \<Rightarrow> 'w embedder \<Rightarrow> 'w llm_provider
     \<Rightarrow> ('s \<times> 'w, run_job_outcome) sr" where
  "run_job cl env req embedder provider =
     sr_bind (on_world (read_source env (rq_source req))) (\<lambda>(source_name, bs).
     let hash = content_hash (ie_sha env) bs in
     sr_bind (on_client (pg_document_exists_by_hash cl (rq_namespace req) hash)) (\<lambda>known.
     if known then sr_return (SkippedDuplicate hash)
     else
       let strategy = unwrap_or chunk_strategy_default (chunk_strategy_parse (rq_chunk_strategy req)) in
       sr_bind (sr_lift (if is_utf8 bs then Inr bs
           else Inl (InvalidConfig (''source not valid utf-8: '' @ ie_utf8_error env bs)))) (\<lambda>txt.
       sr_bind (sr_lift (chunker_chunk (ie_chunkshop env) (chunker_new strategy) txt)) (\<lambda>chunks.
       if chunks = [] then
         sr_fail (InvalidConfig ''chunkshop produced 0 chunks for non-empty source'')
       else
         sr_bind (on_world (em_embed_batch embedder (map ch_text chunks))) (\<lambda>embeddings.
         if length embeddings \<noteq> length chunks then
           sr_fail (InvalidConfig (''embedder returned '' @ show_nat (length embeddings)
             @ '' vectors for '' @ show_nat (length chunks) @ '' chunks''))
         else
           sr_bind (fresh_ids (ie_new_v4 env) chunks) (\<lambda>chunk_ids.
           sr_bind (fresh (ie_new_v4 env)) (\<lambda>doc_id.
             commit_or_rollback cl
               (persist_document cl env embedder provider
                  \<lparr>dr_id = doc_id, dr_namespace = rq_namespace req, dr_source = source_name,
                   dr_content_hash = hash, dr_title = None\<rparr>
                  (zip chunk_ids (zip chunks embeddings)))
               doc_id (length chunks))))))))"

section \<open>Atomicity against any client\<close>

context tx_client
begin

lemma persist_entities_keeps:
  "sr_keeps (\<lambda>sw sw'. committed (fst sw') = committed (fst sw))
     (persist_entities cl env emb ns chunk_id ents m)"
proof (induction ents arbitrary: m)
  case Nil
  then show ?case by (simp add: sr_keeps_return_fst)
next
  case (Cons e ents)
  then show ?case by (auto intro!: sr_keeps_fst resolve_keeps simp: chunk_entity_keeps)
qed

lemma persist_relationships_keeps:
  "sr_keeps (\<lambda>sw sw'. committed (fst sw') = committed (fst sw))
     (persist_relationships cl env ns m rels)"
proof (induction rels)
  case Nil
  then show ?case by (simp add: sr_keeps_return_fst)
next
  case (Cons r rels)
  then show ?case
    by (auto intro!: sr_keeps_fst simp: relationship_keeps fresh_def split: option.split)
qed

lemma persist_document_keeps:
  "sr_keeps (\<lambda>sw sw'. committed (fst sw') = committed (fst sw))
     (persist_document cl env emb p doc items)"
  unfolding persist_document_def persist_chunk_def persist_chunk_extraction_def
  by (intro sr_keeps_fst sr_keeps_for[OF reflp_fst_eq transp_fst_eq]
      persist_entities_keeps persist_relationships_keeps)
    (simp_all add: document_keeps chunk_keeps)

lemma fresh_ids_keeps:
  "sr_keeps (\<lambda>sw sw'. committed (fst sw') = committed (fst sw)) (fresh_ids nv xs)"
  by (induction xs) (auto intro!: sr_keeps_fst simp: fresh_def sr_keeps_return_fst)

text \<open>Only a document that is \<open>Completed\<close> changes what others see.\<close>

definition visible_only_if_completed :: "('s \<times> 'w, run_job_outcome) sr \<Rightarrow> bool" where
  "visible_only_if_completed m \<longleftrightarrow>
     (\<forall>sw r sw'. m sw = (r, sw') \<longrightarrow> (\<forall>d n. r \<noteq> Inr (Completed d n)) \<longrightarrow>
        committed (fst sw') = committed (fst sw))"

lemma visible_keeps:
  "sr_keeps (\<lambda>sw sw'. committed (fst sw') = committed (fst sw)) m \<Longrightarrow> visible_only_if_completed m"
  unfolding visible_only_if_completed_def by (blast dest: sr_keepsD)

lemma visible_bind:
  assumes "sr_keeps (\<lambda>sw sw'. committed (fst sw') = committed (fst sw)) m"
    and "\<And>a. visible_only_if_completed (f a)"
  shows "visible_only_if_completed (sr_bind m f)"
  unfolding visible_only_if_completed_def
proof (intro allI impI)
  fix sw r sw'
  assume b: "sr_bind m f sw = (r, sw')" and n: "\<forall>d n. r \<noteq> Inr (Completed d n)"
  obtain q s1 where m: "m sw = (q, s1)" by (cases "m sw")
  have 1: "committed (fst s1) = committed (fst sw)" using sr_keepsD[OF assms(1) m] .
  show "committed (fst sw') = committed (fst sw)"
  proof (cases q)
    case (Inl e)
    with b m 1 show ?thesis by simp
  next
    case (Inr a)
    with b m have "f a s1 = (r, sw')" by simp
    with assms(2) n 1 show ?thesis unfolding visible_only_if_completed_def by metis
  qed
qed

lemma visible_commit_or_rollback:
  assumes "sr_keeps (\<lambda>sw sw'. committed (fst sw') = committed (fst sw)) persist"
  shows "visible_only_if_completed (commit_or_rollback cl persist d n)"
  unfolding visible_only_if_completed_def
proof (intro allI impI)
  fix sw r sw'
  assume b: "commit_or_rollback cl persist d n sw = (r, sw')" and n: "\<forall>d n. r \<noteq> Inr (Completed d n)"
  obtain q s1 where p: "persist sw = (q, s1)" by (cases "persist sw")
  have 1: "committed (fst s1) = committed (fst sw)" using sr_keepsD[OF assms p] .
  show "committed (fst sw') = committed (fst sw)"
  proof (cases q)
    case (Inl e)
    with b p 1 show ?thesis
      using rollback_keeps[of "fst s1"] by (auto simp: commit_or_rollback_def on_client_snd)
  next
    case (Inr a)
    obtain c s2 where c: "pg_commit cl (fst s1) = (c, s2)" by (cases "pg_commit cl (fst s1)")
    show ?thesis
    proof (cases c)
      case (Inl e)
      with Inr b p c 1 show ?thesis
        using failed_commit_keeps[of "fst s1" e s2]
        by (auto simp: commit_or_rollback_def on_client_def sr_bind_def)
    next
      case (Inr u)
      with \<open>q = Inr a\<close> b p c n show ?thesis
        by (auto simp: commit_or_rollback_def on_client_def sr_bind_def sr_apply)
    qed
  qed
qed

lemma visible_done: "visible_only_if_completed (sr_return a)" "visible_only_if_completed (sr_fail e)"
  by (rule visible_keeps, rule sr_keeps_return_fst, rule visible_keeps, rule sr_keeps_fail[OF reflp_fst_eq])

lemma visible_if:
  "visible_only_if_completed x \<Longrightarrow> visible_only_if_completed y
   \<Longrightarrow> visible_only_if_completed (if b then x else y)"
  by simp

lemma visible_split:
  "(\<And>a b. visible_only_if_completed (f a b)) \<Longrightarrow> visible_only_if_completed (case p of (a, b) \<Rightarrow> f a b)"
  by (simp split: prod.split)

lemmas visible_intros = visible_bind visible_if visible_split visible_done visible_commit_or_rollback sr_keeps_on_world
  sr_keeps_on_client sr_keeps_lift[OF reflp_fst_eq] persist_document_keeps fresh_ids_keeps

lemma run_job_visible: "visible_only_if_completed (run_job cl env req emb p)"
proof -
  have store: "visible_only_if_completed (sr_bind (fresh_ids nv chunks) (\<lambda>ids. sr_bind (fresh nv) (\<lambda>d.
      commit_or_rollback cl (persist_document cl env emb p (doc d) (zip ids items)) d n)))" for nv chunks doc items n
    unfolding fresh_def by (intro visible_intros)
  show ?thesis
    unfolding run_job_def Let_def
    by (intro visible_intros store exists_keeps)
qed

end

section \<open>Invariants of the client\<close>

text \<open>Whatever every operation of the client keeps, a whole job keeps, on every path.\<close>

context pg_invariant
begin

abbreviation keeps_inv :: "('s \<times> 'w, 'a) sr \<Rightarrow> bool" where
  "keeps_inv \<equiv> sr_keeps (\<lambda>sw sw'. inv (fst sw) \<longrightarrow> inv (fst sw'))"

lemma keeps_inv_bind: "keeps_inv m \<Longrightarrow> (\<And>a. keeps_inv (f a)) \<Longrightarrow> keeps_inv (sr_bind m f)"
  by (rule sr_keeps_bind) (auto simp: transp_def)

lemma keeps_inv_for: "(\<And>x. keeps_inv (f x)) \<Longrightarrow> keeps_inv (sr_for f xs)"
  by (rule sr_keeps_for) (auto simp: transp_def reflp_def)

lemma keeps_inv_pure: "keeps_inv (sr_return a)" "keeps_inv (sr_fail e)" "keeps_inv (sr_lift r)"
  by (simp_all add: sr_keeps_def sr_apply)

lemma keeps_inv_client: "(\<And>s. inv s \<Longrightarrow> inv (snd (m s))) \<Longrightarrow> keeps_inv (on_client m)"
  by (simp add: sr_keeps_def on_client_snd)

lemma keeps_inv_world: "keeps_inv (on_world m)" "keeps_inv (fresh nv)"
  by (simp_all add: sr_keeps_def on_world_fst fresh_def)

lemma keeps_inv_if: "keeps_inv x \<Longrightarrow> keeps_inv y \<Longrightarrow> keeps_inv (if b then x else y)"
  by simp

lemma keeps_inv_case: "(\<And>a b. keeps_inv (f a b)) \<Longrightarrow> keeps_inv (case p of (a, b) \<Rightarrow> f a b)"
  by (simp split: prod.split)

lemma keeps_inv_option:
  "keeps_inv x \<Longrightarrow> (\<And>a. keeps_inv (f a)) \<Longrightarrow> keeps_inv (case q of None \<Rightarrow> x | Some a \<Rightarrow> f a)"
  by (simp split: option.split)

lemmas keeps_inv_intros = keeps_inv_bind keeps_inv_for keeps_inv_pure keeps_inv_world keeps_inv_if
  keeps_inv_case keeps_inv_option keeps_inv_client
  exists_inv document_inv chunk_inv entity_inv relationship_inv chunk_entity_inv fuzzy_inv

lemma resolve_inv: "keeps_inv (resolve_or_insert_entity cl nv ns name kind emb d)"
  unfolding resolve_or_insert_entity_def by (intro keeps_inv_intros)

lemma persist_entities_inv: "keeps_inv (persist_entities cl env emb ns cid ents m)"
proof (induction ents arbitrary: m)
  case Nil
  then show ?case by (simp add: keeps_inv_pure)
next
  case (Cons e ents)
  then show ?case unfolding persist_entities.simps by (intro keeps_inv_intros resolve_inv)
qed

lemma persist_relationships_inv: "keeps_inv (persist_relationships cl env ns m rels)"
proof (induction rels)
  case Nil
  then show ?case by (simp add: keeps_inv_pure)
next
  case (Cons r rels)
  then show ?case unfolding persist_relationships.simps by (intro keeps_inv_intros)
qed

lemma persist_document_inv: "keeps_inv (persist_document cl env emb p doc items)"
  unfolding persist_document_def persist_chunk_def persist_chunk_extraction_def
  by (intro keeps_inv_intros persist_entities_inv persist_relationships_inv)

lemma fresh_ids_inv: "keeps_inv (fresh_ids nv xs)"
proof (induction xs)
  case Nil
  then show ?case by (simp add: keeps_inv_pure)
next
  case (Cons x xs)
  then show ?case unfolding fresh_ids.simps by (intro keeps_inv_intros)
qed

lemma commit_or_rollback_inv:
  assumes "keeps_inv persist"
  shows "keeps_inv (commit_or_rollback cl persist d n)"
proof (rule sr_keepsI)
  fix sw
  obtain q s1 where p: "persist sw = (q, s1)" by (cases "persist sw")
  have 1: "inv (fst sw) \<longrightarrow> inv (fst s1)" using sr_keepsD[OF assms p] .
  have "keeps_inv (sr_bind (on_client (pg_commit cl)) (\<lambda>_. sr_return (Completed d n)))"
    by (intro keeps_inv_intros commit_inv)
  then have 2: "inv (fst s1) \<longrightarrow> inv (fst (snd (sr_bind (on_client (pg_commit cl)) (\<lambda>_. sr_return (Completed d n)) s1)))"
    unfolding sr_keeps_def by blast
  show "inv (fst sw) \<longrightarrow> inv (fst (snd (commit_or_rollback cl persist d n sw)))"
  proof (cases q)
    case (Inl e)
    with p 1 rollback_inv[of "fst s1"] show ?thesis by (simp add: commit_or_rollback_def on_client_snd)
  next
    case (Inr a)
    with p 1 2 show ?thesis by (simp add: commit_or_rollback_def)
  qed
qed

lemma run_job_inv: "keeps_inv (run_job cl env req emb p)"
  unfolding run_job_def Let_def
  by (intro keeps_inv_intros commit_or_rollback_inv persist_document_inv fresh_ids_inv)

end

text \<open>What operations keep when they succeed, persisting keeps when it succeeds.\<close>

context pg_ok_invariant
begin

lemma ok_client: "sr_ok inv m \<Longrightarrow> sr_ok (\<lambda>sw. inv (fst sw)) (on_client m)"
  by (auto simp: sr_ok_def on_client_Inr)

lemma ok_world: "sr_ok (\<lambda>sw. inv (fst sw)) (on_world m)" "sr_ok (\<lambda>sw. inv (fst sw)) (fresh nv)"
  by (auto simp: sr_ok_def on_world_def fresh_def split: prod.splits)

lemmas ok_intros = sr_ok_bind sr_ok_for sr_ok_pure sr_ok_option sr_ok_case ok_world ok_client
  exists_ok document_ok chunk_ok entity_ok relationship_ok chunk_entity_ok fuzzy_ok

lemma persist_entities_ok: "sr_ok (\<lambda>sw. inv (fst sw)) (persist_entities cl env emb ns cid ents m)"
proof (induction ents arbitrary: m)
  case Nil
  then show ?case by (simp add: sr_ok_pure)
next
  case (Cons e ents)
  then show ?case
    unfolding persist_entities.simps resolve_or_insert_entity_def by (intro ok_intros)
qed

lemma persist_relationships_ok: "sr_ok (\<lambda>sw. inv (fst sw)) (persist_relationships cl env ns m rels)"
proof (induction rels)
  case Nil
  then show ?case by (simp add: sr_ok_pure)
next
  case (Cons r rels)
  then show ?case unfolding persist_relationships.simps by (intro ok_intros)
qed

lemma persist_chunks_ok: "sr_ok (\<lambda>sw. inv (fst sw)) (sr_for (persist_chunk cl env emb p ns d) items)"
  unfolding persist_chunk_def persist_chunk_extraction_def
  by (intro ok_intros persist_entities_ok persist_relationships_ok)

end

section \<open>What a completed document writes, on the in-memory client\<close>

text \<open>\<open>grown s s' ds cs es rs ls\<close>: the buffers grew by these rows and nothing else changed.\<close>

definition grown ::
  "fake_pg_client \<Rightarrow> fake_pg_client \<Rightarrow> doc_row list \<Rightarrow> chunk_row list \<Rightarrow> entity_row list \<Rightarrow> rel_row list
     \<Rightarrow> chunk_entity_row list \<Rightarrow> bool" where
  "grown s s' ds cs es rs ls \<longleftrightarrow> fake_canonical s' = fake_canonical s
     \<and> fk_buffered_documents s' = fk_buffered_documents s @ ds
     \<and> fk_buffered_chunks s' = fk_buffered_chunks s @ cs
     \<and> fk_buffered_entities s' = fk_buffered_entities s @ es
     \<and> fk_buffered_relationships s' = fk_buffered_relationships s @ rs
     \<and> fk_buffered_chunk_entities s' = fk_buffered_chunk_entities s @ ls"

lemma grown_refl: "grown s s [] [] [] [] []"
  by (simp add: grown_def)

lemma grown_trans:
  "grown s s1 ds cs es rs ls \<Longrightarrow> grown s1 s2 ds' cs' es' rs' ls' \<Longrightarrow>
   grown s s2 (ds @ ds') (cs @ cs') (es @ es') (rs @ rs') (ls @ ls')"
  by (simp add: grown_def)

text \<open>The entities a reference may point to: committed or written by this transaction.\<close>

definition entity_ids :: "fake_pg_client \<Rightarrow> uuid set" where
  "entity_ids s = en_id ` (set (fk_entities s) \<union> set (fk_buffered_entities s))"

lemma grown_entity_ids: "grown s s' ds cs es rs ls \<Longrightarrow> entity_ids s \<subseteq> entity_ids s'"
  by (auto simp: grown_def entity_ids_def fake_canonical_def)

lemma resolve_grown:
  assumes "resolve_or_insert_entity (fake_client lower) nv ns name kind emb d (s, w) = (Inr i, (s', w'))"
  shows "\<exists>es. grown s s' [] [] es [] [] \<and> i \<in> entity_ids s'"
proof (cases "merge_target emb (take 8 (stable_sort
    (\<lambda>a b. fcmp_le (ec_trgm_similarity b) (ec_trgm_similarity a))
    (map (candidate_of lower name) (filter (\<lambda>e. en_namespace e = ns) (fk_entities s)))))")
  case (Some j)
  then obtain pre c post where c: "take 8 (stable_sort
      (\<lambda>a b. fcmp_le (ec_trgm_similarity b) (ec_trgm_similarity a))
      (map (candidate_of lower name) (filter (\<lambda>e. en_namespace e = ns) (fk_entities s)))) = pre @ c # post"
      "ec_id c = j"
    using merge_target_Some[OF Some] by blast
  have "c \<in> set (stable_sort
      (\<lambda>a b. fcmp_le (ec_trgm_similarity b) (ec_trgm_similarity a))
      (map (candidate_of lower name) (filter (\<lambda>e. en_namespace e = ns) (fk_entities s))))"
    by (rule in_set_takeD[of _ 8]) (simp add: c(1))
  with c(2) have "j \<in> entity_ids s" by (auto simp: candidate_of_def entity_ids_def)
  moreover have "i = j" "s' = s"
    using assms Some
    by (auto simp: resolve_or_insert_entity_def on_client_def TRGM_CANDIDATE_LIMIT_def sr_bind_def sr_apply
        fake_fuzzy_match_entity_def Let_def)
  ultimately show ?thesis using grown_refl by blast
next
  case None
  then have "\<exists>e. s' = s\<lparr>fk_buffered_entities := fk_buffered_entities s @ [e]\<rparr> \<and> en_id e = i"
    using assms
    by (auto simp: resolve_or_insert_entity_def on_client_def TRGM_CANDIDATE_LIMIT_def sr_bind_def sr_apply
        fake_fuzzy_match_entity_def fresh_def on_world_def fake_insert_entity_def Let_def split: prod.splits)
  then show ?thesis by (auto simp: grown_def fake_canonical_def entity_ids_def)
qed

lemma on_world_Inr: "on_world m (s, w) = (Inr a, (s', w')) \<longleftrightarrow> m w = (Inr a, w') \<and> s' = s"
  by (auto simp: on_world_def split: prod.splits)

lemma sr_lift_Inr: "sr_lift r s = (Inr a, s') \<longleftrightarrow> r = Inr a \<and> s' = s"
  by (auto simp: sr_apply)

lemma sr_bind_pairE:
  assumes "sr_bind m f (s, w) = (Inr b, t)"
  obtains a s1 w1 where "m (s, w) = (Inr a, (s1, w1))" and "f a (s1, w1) = (Inr b, t)"
  using assms by (elim sr_bind_InrE) (metis surj_pair)

lemma insert_grown:
  "on_client (fake_insert_document dr) (s, w) = (Inr u, (s', w')) \<Longrightarrow> grown s s' [dr] [] [] [] [] \<and> w' = w"
  "on_client (fake_insert_chunk c) (s, w) = (Inr u, (s', w')) \<Longrightarrow> grown s s' [] [c] [] [] [] \<and> w' = w"
  "on_client (fake_insert_relationship r) (s, w) = (Inr u, (s', w')) \<Longrightarrow> grown s s' [] [] [] [r] [] \<and> w' = w"
  "on_client (fake_insert_chunk_entity l) (s, w) = (Inr u, (s', w')) \<Longrightarrow> grown s s' [] [] [] [] [l] \<and> w' = w"
  by (auto simp: on_client_Inr fake_ops grown_def fake_canonical_def Let_def split: if_splits)

lemma persist_entities_grown:
  assumes "persist_entities (fake_client lower) env emb ns cid ents m (s, w) = (Inr m', (s', w'))"
  shows "\<exists>es ls. grown s s' [] [] es [] ls
    \<and> (\<forall>l \<in> set ls. ce_chunk_id l = cid \<and> ce_entity_id l \<in> entity_ids s')
    \<and> ran m' \<subseteq> ran m \<union> ce_entity_id ` set ls"
  using assms
proof (induction ents arbitrary: m s w)
  case Nil
  then have "m' = m \<and> s' = s" by (simp add: sr_apply)
  with grown_refl[of s] show ?case by (intro exI[of _ "[]"]) simp
next
  case (Cons e ents)
  from Cons.prems obtain i s2 w2 s3 w3 emb' where r:
      "resolve_or_insert_entity (fake_client lower) (ie_new_v4 env) ns (ee_name e) (ee_kind e) emb'
         (ee_description e) (s, w2) = (Inr i, (s2, w3))"
      "grown s2 s3 [] [] [] [] [\<lparr>ce_chunk_id = cid, ce_entity_id = i, ce_confidence = ee_confidence e\<rparr>]"
      "persist_entities (fake_client lower) env emb ns cid ents (m(ee_name e \<mapsto> i)) (s3, w3) = (Inr m', (s', w'))"
    by (auto simp: on_world_Inr sr_lift_Inr dest!: insert_grown elim!: sr_bind_pairE)
  from resolve_grown[OF r(1)] obtain es1 where g1: "grown s s2 [] [] es1 [] []" "i \<in> entity_ids s2" by blast
  from Cons.IH[OF r(3)] obtain es2 ls2 where g2: "grown s3 s' [] [] es2 [] ls2"
      "\<forall>l \<in> set ls2. ce_chunk_id l = cid \<and> ce_entity_id l \<in> entity_ids s'"
      "ran m' \<subseteq> ran (m(ee_name e \<mapsto> i)) \<union> ce_entity_id ` set ls2"
    by blast
  let ?l = "\<lparr>ce_chunk_id = cid, ce_entity_id = i, ce_confidence = ee_confidence e\<rparr>"
  have "grown s s' [] [] (es1 @ es2) [] (?l # ls2)"
    using grown_trans[OF grown_trans[OF g1(1) r(2)] g2(1)] by simp
  moreover have "i \<in> entity_ids s'"
    using g1(2) grown_entity_ids[OF r(2)] grown_entity_ids[OF g2(1)] by blast
  moreover have "ran (m(ee_name e \<mapsto> i)) \<subseteq> insert i (ran m)" by (auto simp: ran_def)
  ultimately show ?case
    using g2(2,3) by (intro exI[of _ "es1 @ es2"] exI[of _ "?l # ls2"]) auto
qed

lemma persist_relationships_grown:
  assumes "persist_relationships (fake_client lower) env ns m rels (s, w) = (Inr u, (s', w'))"
  shows "\<exists>rs. grown s s' [] [] [] rs [] \<and> (\<forall>r \<in> set rs. rr_src_id r \<in> ran m \<and> rr_dst_id r \<in> ran m)"
  using assms
proof (induction rels arbitrary: s w)
  case Nil
  then have "s' = s" by (simp add: sr_apply)
  with grown_refl[of s] show ?case by (intro exI[of _ "[]"]) simp
next
  case (Cons x rels)
  show ?case
  proof (cases "\<exists>src dst. m (er_src_name x) = Some src \<and> m (er_dst_name x) = Some dst")
    case False
    then have "persist_relationships (fake_client lower) env ns m rels (s, w) = (Inr u, (s', w'))"
      using Cons.prems by (auto split: option.splits)
    then show ?thesis by (rule Cons.IH)
  next
    case True
    then obtain src dst where sd: "m (er_src_name x) = Some src" "m (er_dst_name x) = Some dst" by blast
    with Cons.prems obtain r s1 w1 where r: "grown s s1 [] [] [] [r] []" "rr_src_id r = src" "rr_dst_id r = dst"
        "persist_relationships (fake_client lower) env ns m rels (s1, w1) = (Inr u, (s', w'))"
      by (auto simp: fresh_Inr dest!: insert_grown elim!: sr_bind_pairE)
    from Cons.IH[OF r(4)] obtain rs where g: "grown s1 s' [] [] [] rs []"
        "\<forall>r \<in> set rs. rr_src_id r \<in> ran m \<and> rr_dst_id r \<in> ran m" by blast
    have "grown s s' [] [] [] (r # rs) []" using grown_trans[OF r(1) g(1)] by simp
    moreover have "src \<in> ran m" "dst \<in> ran m" using sd by (auto simp: ran_def)
    ultimately show ?thesis using g(2) r(2,3) by (intro exI[of _ "r # rs"]) auto
  qed
qed

text \<open>Links point to a chunk of the list and to known entities, relationships join linked entities.\<close>

definition graph_ok :: "uuid set \<Rightarrow> uuid set \<Rightarrow> rel_row list \<Rightarrow> chunk_entity_row list \<Rightarrow> bool" where
  "graph_ok cids eids rs ls \<longleftrightarrow>
     (\<forall>l \<in> set ls. ce_chunk_id l \<in> cids \<and> ce_entity_id l \<in> eids)
     \<and> (\<forall>r \<in> set rs. rr_src_id r \<in> ce_entity_id ` set ls \<and> rr_dst_id r \<in> ce_entity_id ` set ls)"

lemma graph_ok_append:
  "graph_ok c e rs ls \<Longrightarrow> graph_ok c' e' rs' ls' \<Longrightarrow> e \<subseteq> e' \<Longrightarrow> graph_ok (c \<union> c') e' (rs @ rs') (ls @ ls')"
  unfolding graph_ok_def by auto

lemma persist_chunk_grown:
  assumes "persist_chunk (fake_client lower) env emb p ns d x (s, w) = (Inr u, (s', w'))"
  shows "\<exists>es rs ls. grown s s' [] [chunk_row_of ns d x] es rs ls
    \<and> graph_ok {fst x} (entity_ids s') rs ls"
proof -
  from assms obtain s1 w1 ex m s2 w2 where r: "grown s s1 [] [chunk_row_of ns d x] [] [] []"
      "persist_entities (fake_client lower) env emb ns (fst x) (ex_entities (ex :: extraction)) Map.empty (s1, w1) = (Inr m, (s2, w2))"
      "persist_relationships (fake_client lower) env ns m (ex_relationships ex) (s2, w2) = (Inr u, (s', w'))"
    unfolding persist_chunk_def persist_chunk_extraction_def
    by (auto simp: on_world_Inr dest!: insert_grown elim!: sr_bind_pairE)
  from persist_entities_grown[OF r(2)] obtain es ls where g1: "grown s1 s2 [] [] es [] ls"
      "\<forall>l \<in> set ls. ce_chunk_id l = fst x \<and> ce_entity_id l \<in> entity_ids s2" "ran m \<subseteq> ce_entity_id ` set ls"
    by auto
  from persist_relationships_grown[OF r(3)] obtain rs where g2: "grown s2 s' [] [] [] rs []"
      "\<forall>r \<in> set rs. rr_src_id r \<in> ran m \<and> rr_dst_id r \<in> ran m" by blast
  have "grown s s' [] [chunk_row_of ns d x] es rs ls"
    using grown_trans[OF grown_trans[OF r(1) g1(1)] g2(1)] by simp
  moreover have "graph_ok {fst x} (entity_ids s') rs ls"
    using g1(2,3) g2(2) grown_entity_ids[OF g2(1)] unfolding graph_ok_def by auto
  ultimately show ?thesis by blast
qed

lemma persist_chunks_grown:
  assumes "sr_for (persist_chunk (fake_client lower) env emb p ns d) xs (s, w) = (Inr u, (s', w'))"
  shows "\<exists>es rs ls. grown s s' [] (map (chunk_row_of ns d) xs) es rs ls
    \<and> graph_ok (fst ` set xs) (entity_ids s') rs ls"
  using assms
proof (induction xs arbitrary: s w)
  case Nil
  then have "s' = s" by (simp add: sr_apply)
  with grown_refl[of s] show ?case by (intro exI[of _ "[]"]) (simp add: graph_ok_def)
next
  case (Cons x xs)
  from Cons.prems obtain v s1 w1 where r: "persist_chunk (fake_client lower) env emb p ns d x (s, w) = (Inr v, (s1, w1))"
      "sr_for (persist_chunk (fake_client lower) env emb p ns d) xs (s1, w1) = (Inr u, (s', w'))"
    by (auto elim!: sr_bind_pairE)
  from persist_chunk_grown[OF r(1)] obtain es rs ls where g1: "grown s s1 [] [chunk_row_of ns d x] es rs ls"
      "graph_ok {fst x} (entity_ids s1) rs ls" by blast
  from Cons.IH[OF r(2)] obtain es' rs' ls' where g2: "grown s1 s' [] (map (chunk_row_of ns d) xs) es' rs' ls'"
      "graph_ok (fst ` set xs) (entity_ids s') rs' ls'" by blast
  have "grown s s' [] (map (chunk_row_of ns d) (x # xs)) (es @ es') (rs @ rs') (ls @ ls')"
    using grown_trans[OF g1(1) g2(1)] by simp
  moreover have "graph_ok (fst ` set (x # xs)) (entity_ids s') (rs @ rs') (ls @ ls')"
  proof -
    have "fst ` set (x # xs) = {fst x} \<union> fst ` set xs" by simp
    then show ?thesis using graph_ok_append[OF g1(2) g2(2) grown_entity_ids[OF g2(1)]] by (simp only:)
  qed
  ultimately show ?case by blast
qed

lemma fresh_ids_Inr:
  "fresh_ids nv xs (s, w) = (Inr ids, (s', w')) \<Longrightarrow> s' = s \<and> length ids = length xs"
  by (induction xs arbitrary: w ids)
    (auto simp: sr_apply fresh_Inr elim!: sr_bind_pairE)

lemma commit_grown:
  assumes "grown s s1 ds cs es rs ls" and "fake_clean s"
  shows "fk_documents (snd (fake_commit s1)) = fk_documents s @ ds
    \<and> fk_chunks (snd (fake_commit s1)) = fk_chunks s @ cs
    \<and> fk_entities (snd (fake_commit s1)) = fk_entities s @ es
    \<and> fk_relationships (snd (fake_commit s1)) = fk_relationships s @ rs
    \<and> fk_chunk_entities (snd (fake_commit s1)) = fk_chunk_entities s @ ls
    \<and> fake_clean (snd (fake_commit s1)) \<and> entity_ids s1 = en_id ` set (fk_entities (snd (fake_commit s1)))"
  using assms by (auto simp: grown_def fake_clean_def fake_commit_def fake_canonical_def entity_ids_def)

lemma commit_or_rollback_InrD:
  assumes "commit_or_rollback cl persist d n sw = (Inr out, t)"
  shows "\<exists>sw' s'. persist sw = (Inr (), sw') \<and> pg_commit cl (fst sw') = (Inr (), s')
    \<and> t = (s', snd sw') \<and> out = Completed d n"
proof -
  obtain q s1 w1 where p: "persist sw = (q, (s1, w1))" by (metis surj_pair)
  with assms show ?thesis
    by (cases q) (auto simp: commit_or_rollback_def on_client_Inr sr_apply elim!: sr_bind_pairE)
qed

lemma fresh_idE: "fresh nv (s, w) = (Inr u, t) \<Longrightarrow> \<exists>v w'. u = fst (nv v) \<and> t = (s, w')"
  by (metis fresh_Inr fst_conv)

text \<open>On any client: a job that succeeds met a known hash, or persisted and committed its document.\<close>

lemma run_job_InrE:
  assumes "run_job cl env req emb p (s, w) = (Inr out, t)"
    and "read_source env (rq_source req) w = (Inr (name, bs), w0)"
  obtains (dup) s1 where
      "pg_document_exists_by_hash cl (rq_namespace req) (content_hash (ie_sha env) bs) s = (Inr True, s1)"
      "out = SkippedDuplicate (content_hash (ie_sha env) bs)" "t = (s1, w0)"
  | (new) s1 ids chunks vecs v w1 sw2 s3 where
      "pg_document_exists_by_hash cl (rq_namespace req) (content_hash (ie_sha env) bs) s = (Inr False, s1)"
      "chunks \<noteq> []" "length ids = length chunks" "length vecs = length chunks"
      "persist_document cl env emb p
         \<lparr>dr_id = fst (ie_new_v4 env v), dr_namespace = rq_namespace req, dr_source = name,
          dr_content_hash = content_hash (ie_sha env) bs, dr_title = None\<rparr>
         (zip ids (zip chunks vecs)) (s1, w1) = (Inr (), sw2)"
      "pg_commit cl (fst sw2) = (Inr (), s3)" "t = (s3, snd sw2)"
      "out = Completed (fst (ie_new_v4 env v)) (length chunks)"
proof -
  from assms obtain known s1 where k:
      "pg_document_exists_by_hash cl (rq_namespace req) (content_hash (ie_sha env) bs) s = (Inr known, s1)"
    unfolding run_job_def Let_def by (elim sr_bind_pairE) (auto simp: on_world_Inr on_client_Inr elim!: sr_bind_pairE)
  show thesis
  proof (cases known)
    case True
    with assms k dup show thesis
      unfolding run_job_def Let_def
      by (auto simp: on_world_Inr on_client_Inr sr_apply elim!: sr_bind_pairE)
  next
    case False
    with assms k new show thesis
      unfolding run_job_def
      by (auto simp: on_world_Inr on_client_Inr Let_def sr_apply sr_lift_Inr
          elim!: sr_bind_pairE dest!: fresh_ids_Inr fresh_idE commit_or_rollback_InrD split: if_splits)
  qed
qed

lemma run_job_CompletedE:
  assumes "run_job (fake_client lower) env req emb p (s, w) = (Inr (Completed d n), (s', w'))"
  obtains name bs chunks vecs ids w0 w1 s1 w2 where
    "read_source env (rq_source req) w = (Inr (name, bs), w0)"
    "chunker_chunk (ie_chunkshop env)
       (chunker_new (unwrap_or chunk_strategy_default (chunk_strategy_parse (rq_chunk_strategy req)))) bs
       = Inr chunks"
    "\<not> list_ex (\<lambda>dr. dr_namespace dr = rq_namespace req \<and> dr_content_hash dr = content_hash (ie_sha env) bs)
        (fk_documents s)"
    "chunks \<noteq> []" "length vecs = length chunks" "length ids = length chunks" "n = length chunks"
    "persist_document (fake_client lower) env emb p
       \<lparr>dr_id = d, dr_namespace = rq_namespace req, dr_source = name,
        dr_content_hash = content_hash (ie_sha env) bs, dr_title = None\<rparr>
       (zip ids (zip chunks vecs)) (s, w1) = (Inr (), (s1, w2))"
    "s' = snd (fake_commit s1)"
  using assms that
  by (auto simp: run_job_def on_world_Inr on_client_Inr fake_document_exists_by_hash_def Let_def sr_apply
      commit_or_rollback_def fake_commit_def fresh_Inr sr_lift_Inr sr_bind_def[of "on_client fake_commit"]
      elim!: sr_bind_pairE dest!: fresh_ids_Inr split: prod.splits sum.splits if_splits)

section \<open>Properties\<close>


definition demo_chunkshop :: "unit chunkshop" where
  "demo_chunkshop = \<lparr>cs_sentence_aware = (\<lambda>c. ()), cs_hierarchy = (\<lambda>c. ()), cs_fixed_overlap = (\<lambda>c. Inr ()),
     cs_neighbor_expand = (\<lambda>n c m s. ()),
     cs_chunk = (\<lambda>c d. if do_content d = [] then []
       else [\<lparr>rc_seq_num = 0, rc_embedded_content = do_content d\<rparr>])\<rparr>"

definition demo_env :: "(unit, int) ingest_env" where
  "demo_env = \<lparr>ie_sha = (\<lambda>b. take 2 (b @ ''..'')), ie_chunkshop = demo_chunkshop,
     ie_new_v4 = (\<lambda>w. (Uuid w, w + 1)), ie_read_file = (\<lambda>p w. (Inl ''no such file'', w)),
     ie_utf8_error = (\<lambda>b. ''invalid'')\<rparr>"

definition demo_embedder :: "int embedder" where
  "demo_embedder = \<lparr>em_dim = 1, em_embed = (\<lambda>t. sr_return [Fin 1]),
     em_embed_batch = embed_batch_default (\<lambda>t. sr_return [Fin 1])\<rparr>"

definition demo_provider :: "int llm_provider" where
  "demo_provider = mock_llm (with_stub_extraction mock_new
     \<lparr>ex_entities = [\<lparr>ee_name = ''A'', ee_kind = None, ee_description = None, ee_confidence = Fin 1\<rparr>,
                     \<lparr>ee_name = ''B'', ee_kind = None, ee_description = None, ee_confidence = Fin 1\<rparr>],
      ex_relationships = [\<lparr>er_src_name = ''A'', er_dst_name = ''B'', er_kind = ''k'', er_weight = Fin 1,
                            er_confidence = Fin 1\<rparr>,
                          \<lparr>er_src_name = ''A'', er_dst_name = ''Z'', er_kind = ''k'', er_weight = Fin 1,
                            er_confidence = Fin 1\<rparr>]\<rparr>)"

definition demo_req :: "string \<Rightarrow> ingest_request" where
  "demo_req t = \<lparr>rq_source = Text ''a.txt'' t, rq_namespace = ''ns'', rq_chunk_strategy = ''auto''\<rparr>"

lemmas demo_defs = demo_req_def demo_provider_def demo_embedder_def demo_env_def demo_chunkshop_def
  mock_llm_def mock_extract_def with_stub_extraction_def mock_new_def

text \<open>The first chunk write fails after the document was buffered.\<close>

lemma demo_chunk:
  "chunker_chunk demo_chunkshop (chunker_new Auto) ''hi''
     = Inr [\<lparr>ch_ord = 0, ch_text = ''hi'', ch_token_count = 1\<rparr>]"
proof -
  have "split_whitespace_count ''hi'' = 1"
    by (simp add: split_whitespace_count_def chars_def uchars_ascii is_whitespace_def)
  then show ?thesis
    by (simp add: chunker_chunk_def select_chunker_def chunker_new_def demo_chunkshop_def slim_chunk_def
        i32_from_usize_or_max_def i32_max_def)
qed

lemma demo_fail:
  "run_job (fake_client id) demo_env (demo_req ''hi'') demo_embedder demo_provider
     (with_chunk_write_failure_at fake_new 0, 0)
   = (Inl (InvalidConfig ''synthetic chunk write failure''), (with_chunk_write_failure_at fake_new 0, 2))"
  by (simp add: run_job_def sr_bind_def sr_apply on_world_def on_client_def demo_req_def demo_env_def
      demo_embedder_def fake_ops Let_def fake_new_def with_chunk_write_failure_at_def demo_chunk
      chunk_strategy_parse_def is_utf8_ascii fresh_def persist_document_def persist_chunk_def
      commit_or_rollback_def)


lemma run_job_grown:
  assumes "run_job (fake_client lower) env req emb p (s, w) = (Inr (Completed d n), (s', w'))"
  obtains name bs w0 chunks vecs ids s1 es rs ls where
      "read_source env (rq_source req) w = (Inr (name, bs), w0)"
      "chunker_chunk (ie_chunkshop env)
         (chunker_new (unwrap_or chunk_strategy_default (chunk_strategy_parse (rq_chunk_strategy req)))) bs
         = Inr chunks"
      "chunks \<noteq> []" "length vecs = length chunks" "length ids = length chunks" "n = length chunks"
      "grown s s1 [\<lparr>dr_id = d, dr_namespace = rq_namespace req, dr_source = name,
         dr_content_hash = content_hash (ie_sha env) bs, dr_title = None\<rparr>]
         (map (chunk_row_of (rq_namespace req) d) (zip ids (zip chunks vecs))) es rs ls"
      "graph_ok (fst ` set (zip ids (zip chunks vecs))) (entity_ids s1) rs ls"
      "s' = snd (fake_commit s1)"
proof -
  obtain name bs chunks vecs ids w0 w1 s1 w2 where r:
      "read_source env (rq_source req) w = (Inr (name, bs), w0)"
      "chunker_chunk (ie_chunkshop env)
         (chunker_new (unwrap_or chunk_strategy_default (chunk_strategy_parse (rq_chunk_strategy req)))) bs
         = Inr chunks"
      "chunks \<noteq> []" "length vecs = length chunks" "length ids = length chunks" "n = length chunks"
      "persist_document (fake_client lower) env emb p
         \<lparr>dr_id = d, dr_namespace = rq_namespace req, dr_source = name,
          dr_content_hash = content_hash (ie_sha env) bs, dr_title = None\<rparr>
         (zip ids (zip chunks vecs)) (s, w1) = (Inr (), (s1, w2))"
      "s' = snd (fake_commit s1)"
    using assms by (elim run_job_CompletedE)
  let ?items = "zip ids (zip chunks vecs)"
  from r(7) obtain s0 w3 where p: "grown s s0 [\<lparr>dr_id = d, dr_namespace = rq_namespace req, dr_source = name,
         dr_content_hash = content_hash (ie_sha env) bs, dr_title = None\<rparr>] [] [] [] []"
      "sr_for (persist_chunk (fake_client lower) env emb p (rq_namespace req) d) ?items (s0, w3) = (Inr (), (s1, w2))"
    unfolding persist_document_def by (auto dest!: insert_grown elim!: sr_bind_pairE)
  from persist_chunks_grown[OF p(2)] obtain es rs ls where
      "grown s0 s1 [] (map (chunk_row_of (rq_namespace req) d) ?items) es rs ls"
      "graph_ok (fst ` set ?items) (entity_ids s1) rs ls" by blast
  with grown_trans[OF p(1)] that[OF r(1-6) _ _ r(8)] show thesis by fastforce
qed

text \<open>
  C2 (what a completed job writes): one document with the job's id, namespace and content hash; one
  row per chunk, in order, with its text, position and token count, pointing to the document; links
  only from those chunks to entities that exist; relationships only between entities linked to those
  chunks; and nothing stays buffered.
\<close>

theorem run_job_completed:
  assumes "fake_clean s"
    and "run_job (fake_client lower) env req emb p (s, w) = (Inr (Completed d n), (s', w'))"
  shows "\<exists>doc rows es rs ls name bs w0 chunks.
      read_source env (rq_source req) w = (Inr (name, bs), w0)
    \<and> chunker_chunk (ie_chunkshop env)
        (chunker_new (unwrap_or chunk_strategy_default (chunk_strategy_parse (rq_chunk_strategy req)))) bs
        = Inr chunks
    \<and> fk_documents s' = fk_documents s @ [doc] \<and> doc = \<lparr>dr_id = d, dr_namespace = rq_namespace req,
        dr_source = name, dr_content_hash = content_hash (ie_sha env) bs, dr_title = None\<rparr>
    \<and> fk_chunks s' = fk_chunks s @ rows \<and> 0 < n \<and> length rows = n
    \<and> map (\<lambda>c. (cw_text c, cw_ord c, cw_token_count c)) rows
        = map (\<lambda>c. (ch_text c, ch_ord c, ch_token_count c)) chunks
    \<and> (\<forall>c \<in> set rows. cw_document_id c = d \<and> cw_namespace c = rq_namespace req)
    \<and> fk_entities s' = fk_entities s @ es \<and> fk_relationships s' = fk_relationships s @ rs
    \<and> fk_chunk_entities s' = fk_chunk_entities s @ ls
    \<and> graph_ok (cw_id ` set rows) (en_id ` set (fk_entities s')) rs ls \<and> fake_clean s'"
proof -
  from assms(2) obtain name bs w0 chunks vecs ids s1 es rs ls where r:
      "read_source env (rq_source req) w = (Inr (name, bs), w0)"
      "chunker_chunk (ie_chunkshop env)
         (chunker_new (unwrap_or chunk_strategy_default (chunk_strategy_parse (rq_chunk_strategy req)))) bs
         = Inr chunks"
      "chunks \<noteq> []" "length vecs = length chunks" "length ids = length chunks" "n = length chunks"
      "grown s s1 [\<lparr>dr_id = d, dr_namespace = rq_namespace req, dr_source = name,
         dr_content_hash = content_hash (ie_sha env) bs, dr_title = None\<rparr>]
         (map (chunk_row_of (rq_namespace req) d) (zip ids (zip chunks vecs))) es rs ls"
      "graph_ok (fst ` set (zip ids (zip chunks vecs))) (entity_ids s1) rs ls"
      "s' = snd (fake_commit s1)"
    by (rule run_job_grown)
  let ?items = "zip ids (zip chunks vecs)"
  let ?rows = "map (chunk_row_of (rq_namespace req) d) ?items"
  have ids: "cw_id ` set ?rows = fst ` set ?items"
    by (force simp: chunk_row_of_def image_image)
  have "map (\<lambda>c. (cw_text c, cw_ord c, cw_token_count c)) ?rows
      = map (\<lambda>c. (ch_text c, ch_ord c, ch_token_count c)) (map (fst \<circ> snd) ?items)"
    by (simp add: chunk_row_of_def case_prod_beta)
  also have "map (fst \<circ> snd) ?items = chunks"
    by (intro nth_equalityI) (use r(4,5) in simp_all)
  finally have rows: "map (\<lambda>c. (cw_text c, cw_ord c, cw_token_count c)) ?rows
      = map (\<lambda>c. (ch_text c, ch_ord c, ch_token_count c)) chunks" .
  have "\<forall>c \<in> set ?rows. cw_document_id c = d \<and> cw_namespace c = rq_namespace req"
    by (auto simp: chunk_row_of_def)
  moreover have "length ?rows = n" "0 < n" using r(3-6) by simp_all
  moreover have "graph_ok (cw_id ` set ?rows) (en_id ` set (fk_entities s')) rs ls"
    using r(8) commit_grown[OF r(7) assms(1)] unfolding ids r(9) by simp
  ultimately show ?thesis
    using r(1,2) rows commit_grown[OF r(7) assms(1)] unfolding r(9)
    by (intro exI[of _ "\<lparr>dr_id = d, dr_namespace = rq_namespace req, dr_source = name,
          dr_content_hash = content_hash (ie_sha env) bs, dr_title = None\<rparr>"]
        exI[of _ ?rows] exI[of _ es] exI[of _ rs] exI[of _ ls]) blast
qed

lemma demo_completed:
  "\<exists>s'. run_job (fake_client id) demo_env (demo_req ''hi'') demo_embedder demo_provider (fake_new, 0)
     = (Inr (Completed (Uuid 1) 1), (s', 5))"
  by (simp add: run_job_def sr_bind_def sr_apply on_world_def on_client_def demo_req_def demo_env_def
      demo_embedder_def fake_ops Let_def fake_new_def demo_chunk demo_provider_def mock_llm_def
      mock_extract_def with_stub_extraction_def mock_new_def persist_chunk_extraction_def
      resolve_or_insert_entity_def
      chunk_strategy_parse_def is_utf8_ascii fresh_def persist_document_def persist_chunk_def
      commit_or_rollback_def)

lemma fake_clean_new: "fake_clean fake_new"
  by (simp add: fake_clean_def fake_new_def)

theorem run_job_completed_witness:
  "\<exists>s' doc. run_job (fake_client id) demo_env (demo_req ''hi'') demo_embedder demo_provider (fake_new, 0)
       = (Inr (Completed (Uuid 1) 1), (s', 5))
     \<and> fk_documents s' = [doc] \<and> dr_namespace doc = ''ns'' \<and> length (fk_chunks s') = 1
     \<and> graph_ok (cw_id ` set (fk_chunks s')) (en_id ` set (fk_entities s')) (fk_relationships s')
         (fk_chunk_entities s')"
proof -
  obtain s' where r: "run_job (fake_client id) demo_env (demo_req ''hi'') demo_embedder demo_provider (fake_new, 0)
     = (Inr (Completed (Uuid 1) 1), (s', 5))"
    using demo_completed by blast
  have e: "fk_documents fake_new = []" "fk_chunks fake_new = []" "fk_relationships fake_new = []"
      "fk_chunk_entities fake_new = []" "rq_namespace (demo_req ''hi'') = ''ns''"
    by (simp_all add: fake_new_def demo_req_def)
  show ?thesis
    using run_job_completed[OF fake_clean_new r] unfolding e append_Nil
    by (intro exI[of _ s']) (auto simp: r)
qed

text \<open>
  C13 (re-ingestion): once a job has completed, running it again in the resulting state, when the source
  still has the same bytes, is skipped as a duplicate and changes nothing at all.
\<close>

theorem run_job_idempotent:
  assumes "fake_clean s"
    and "run_job (fake_client lower) env req emb p (s, w) = (Inr (Completed d n), (s', w'))"
    and "read_source env (rq_source req) w = (Inr (name, bs), w0)"
    and "read_source env (rq_source req) w2 = (Inr (name2, bs), w3)"
  shows "run_job (fake_client lower) env req emb2 p2 (s', w2)
    = (Inr (SkippedDuplicate (content_hash (ie_sha env) bs)), (s', w3))"
proof -
  from assms(2,3) obtain doc where
      "fk_documents s' = fk_documents s @ [doc]" "dr_namespace doc = rq_namespace req"
      "dr_content_hash doc = content_hash (ie_sha env) bs"
    by (elim run_job_grown) (use commit_grown[OF _ assms(1)] in force)
  then have "fake_document_exists_by_hash (rq_namespace req) (content_hash (ie_sha env) bs) s' = (Inr True, s')"
    by (simp add: fake_document_exists_by_hash_def)
  then show ?thesis
    using assms(4) by (simp add: run_job_def on_world_def on_client_def sr_bind_def sr_apply Let_def)
qed

theorem run_job_idempotent_witness:
  "\<exists>s'. run_job (fake_client id) demo_env (demo_req ''hi'') demo_embedder demo_provider (fake_new, 0)
       = (Inr (Completed (Uuid 1) 1), (s', 5))
     \<and> run_job (fake_client id) demo_env (demo_req ''hi'') demo_embedder demo_provider (s', 9)
       = (Inr (SkippedDuplicate (content_hash (ie_sha demo_env) ''hi'')), (s', 9))"
proof -
  obtain s' where r: "run_job (fake_client id) demo_env (demo_req ''hi'') demo_embedder demo_provider (fake_new, 0)
     = (Inr (Completed (Uuid 1) 1), (s', 5))"
    using demo_completed by blast
  show ?thesis
    using run_job_idempotent[OF fake_clean_new r, of "''a.txt''" "''hi''" 0 9 "''a.txt''" 9] r
    by (intro exI[of _ s']) (simp add: demo_req_def)
qed

end
