(* ===== verification/PgDatabase.thy ===== *)
theory PgDatabase
  imports RunJob FloatText
begin

text \<open>
  The \<open>pgrg\<close> schema (\<^verbatim>\<open>pg_raggraph/sql/001_tables.sql\<close>) as a record of tables, the SQL statements of
  the ingest clients as operations on it, and the two clients that send them: \<open>TokioPgClient\<close>
  (\<^verbatim>\<open>pg_raggraph_sidecar/src/pg_client.rs\<close>) and \<open>SpiPgClient\<close>
  (\<^verbatim>\<open>pg_raggraph/src/bgw/spi_client.rs\<close>). PostgreSQL is not part of the repository: what the
  statements do follows its documentation (\<open>ON CONFLICT (columns) DO NOTHING\<close> skips a row that
  conflicts on those columns, any other duplicate key or a missing referenced row is an error, a null
  never equals a null in a unique constraint, an error aborts the transaction). The vector type's text
  forms, \<open>similarity\<close>, the order in which a scan meets the rows, and the wording of errors are
  parameters. Columns that only carry defaults (metadata, properties, timestamps of documents) are left out.
\<close>

section \<open>Tables\<close>

datatype job_status = Queued | Running | JobCompleted | JobFailed

record namespace_row =
  nr_name :: string
  nr_embedding_model :: string
  nr_llm_provider :: "string option"
  nr_settings :: jv

record job_row =
  jb_id :: uuid
  jb_status :: job_status
  jb_source :: string
  jb_namespace :: string
  jb_chunk_strategy :: string
  jb_error :: "string option"
  jb_attempt_count :: i32
  jb_payload :: "bytes option"
  jb_enqueued_at :: int
  jb_started_at :: "int option"
  jb_finished_at :: "int option"
  jb_updated_at :: int

record provider_row =
  pv_name :: string
  pv_kind :: string
  pv_provider :: string
  pv_base_url :: "string option"
  pv_model :: "string option"
  pv_credential :: "string option"
  pv_config :: jv

record database =
  db_dim :: nat
  db_namespaces :: "namespace_row list"
  db_documents :: "doc_row list"
  db_chunks :: "chunk_row list"
  db_entities :: "entity_row list"
  db_relationships :: "rel_row list"
  db_chunk_entities :: "chunk_entity_row list"
  db_jobs :: "job_row list"
  db_providers :: "provider_row list"

datatype sql_error =
    UniqueViolation string
  | ForeignKeyViolation string
  | DataException string
  | InFailedTransaction
  | Fault string

record pg_ext =
  px_vector_in :: "string \<Rightarrow> string + f32 list"
  px_vector_out :: "f32 list \<Rightarrow> string"
  px_similarity :: "string \<Rightarrow> string \<Rightarrow> f32"
  px_scan :: "entity_row list \<Rightarrow> entity_row list"
  px_render :: "sql_error \<Rightarrow> string"

section \<open>Statements\<close>

definition sql_document_exists :: "string \<Rightarrow> string \<Rightarrow> database \<Rightarrow> bool" where
  "sql_document_exists ns h db =
     list_ex (\<lambda>d. dr_namespace d = ns \<and> dr_content_hash d = h) (db_documents db)"

text \<open>\<open>content_hash\<close> is unique over all namespaces.\<close>

definition sql_insert_document :: "doc_row \<Rightarrow> database \<Rightarrow> sql_error + database" where
  "sql_insert_document d db =
     (if list_ex (\<lambda>x. dr_content_hash x = dr_content_hash d) (db_documents db) then Inr db
      else if list_ex (\<lambda>x. dr_id x = dr_id d) (db_documents db) then Inl (UniqueViolation ''documents_pkey'')
      else if \<not> list_ex (\<lambda>n. nr_name n = dr_namespace d) (db_namespaces db) then
        Inl (ForeignKeyViolation ''documents_namespace_fkey'')
      else Inr (db\<lparr>db_documents := db_documents db @ [d]\<rparr>))"

text \<open>\<open>'...'::vector\<close> into a \<open>vector(dim)\<close> column.\<close>

definition sql_vector :: "pg_ext \<Rightarrow> database \<Rightarrow> string \<Rightarrow> sql_error + f32 list" where
  "sql_vector X db lit =
     (case px_vector_in X lit of
        Inl e \<Rightarrow> Inl (DataException e)
      | Inr v \<Rightarrow> if length v = db_dim db then Inr v else Inl (DataException ''dimensions''))"

definition sql_insert_chunk :: "pg_ext \<Rightarrow> chunk_row \<Rightarrow> string \<Rightarrow> database \<Rightarrow> sql_error + database" where
  "sql_insert_chunk X c lit db =
     res_bind (sql_vector X db lit) (\<lambda>v.
     if list_ex (\<lambda>x. cw_document_id x = cw_document_id c \<and> cw_ord x = cw_ord c) (db_chunks db) then Inr db
     else if list_ex (\<lambda>x. cw_id x = cw_id c) (db_chunks db) then Inl (UniqueViolation ''chunks_pkey'')
     else if \<not> list_ex (\<lambda>d. dr_id d = cw_document_id c) (db_documents db) then
       Inl (ForeignKeyViolation ''chunks_document_id_fkey'')
     else Inr (db\<lparr>db_chunks := db_chunks db @ [c\<lparr>cw_embedding := v\<rparr>]\<rparr>))"

definition sql_insert_entity :: "pg_ext \<Rightarrow> entity_row \<Rightarrow> string option \<Rightarrow> database \<Rightarrow> sql_error + database" where
  "sql_insert_entity X e lit db =
     res_bind (case lit of None \<Rightarrow> Inr None | Some l \<Rightarrow> map_sum id Some (sql_vector X db l)) (\<lambda>v.
     if en_kind e \<noteq> None \<and> list_ex (\<lambda>x. en_namespace x = en_namespace e \<and> en_name x = en_name e
          \<and> en_kind x = en_kind e) (db_entities db) then Inr db
     else if list_ex (\<lambda>x. en_id x = en_id e) (db_entities db) then Inl (UniqueViolation ''entities_pkey'')
     else Inr (db\<lparr>db_entities := db_entities db @ [e\<lparr>en_name_emb := v\<rparr>]\<rparr>))"

definition entity_exists :: "database \<Rightarrow> uuid \<Rightarrow> bool" where
  "entity_exists db i = list_ex (\<lambda>e. en_id e = i) (db_entities db)"

definition sql_insert_relationship :: "rel_row \<Rightarrow> database \<Rightarrow> sql_error + database" where
  "sql_insert_relationship r db =
     (if list_ex (\<lambda>x. rr_namespace x = rr_namespace r \<and> rr_src_id x = rr_src_id r \<and> rr_dst_id x = rr_dst_id r
          \<and> rr_kind x = rr_kind r) (db_relationships db) then Inr db
      else if list_ex (\<lambda>x. rr_id x = rr_id r) (db_relationships db) then
        Inl (UniqueViolation ''relationships_pkey'')
      else if \<not> entity_exists db (rr_src_id r) then Inl (ForeignKeyViolation ''relationships_src_id_fkey'')
      else if \<not> entity_exists db (rr_dst_id r) then Inl (ForeignKeyViolation ''relationships_dst_id_fkey'')
      else Inr (db\<lparr>db_relationships := db_relationships db @ [r]\<rparr>))"

definition sql_insert_chunk_entity :: "chunk_entity_row \<Rightarrow> database \<Rightarrow> sql_error + database" where
  "sql_insert_chunk_entity l db =
     (if list_ex (\<lambda>x. ce_chunk_id x = ce_chunk_id l \<and> ce_entity_id x = ce_entity_id l) (db_chunk_entities db)
      then Inr db
      else if \<not> list_ex (\<lambda>c. cw_id c = ce_chunk_id l) (db_chunks db) then
        Inl (ForeignKeyViolation ''chunk_entities_chunk_id_fkey'')
      else if \<not> entity_exists db (ce_entity_id l) then
        Inl (ForeignKeyViolation ''chunk_entities_entity_id_fkey'')
      else Inr (db\<lparr>db_chunk_entities := db_chunk_entities db @ [l]\<rparr>))"

definition sql_fuzzy_match :: "pg_ext \<Rightarrow> string \<Rightarrow> string \<Rightarrow> nat \<Rightarrow> database \<Rightarrow> (entity_row \<times> f32) list" where
  "sql_fuzzy_match X ns name k db =
     take k (stable_sort (\<lambda>a b. fcmp_le (snd b) (snd a))
       (map (\<lambda>e. (e, px_similarity X (en_name e) name))
         (filter (\<lambda>e. en_namespace e = ns) (px_scan X (db_entities db)))))"

section \<open>A transaction and its clients\<close>

text \<open>
  A connection between \<open>BEGIN\<close> and \<open>COMMIT\<close>: what is committed, what the transaction sees, whether
  an error has aborted it, and the connection faults still to come, one entry per statement.
\<close>

record pg_tx =
  tx_committed :: database
  tx_work :: database
  tx_aborted :: bool
  tx_faults :: "string option list"

definition tx_begin :: "string option list \<Rightarrow> database \<Rightarrow> pg_tx" where
  "tx_begin faults db = \<lparr>tx_committed = db, tx_work = db, tx_aborted = False, tx_faults = faults\<rparr>"

definition tx_exec :: "(database \<Rightarrow> sql_error + 'a \<times> database) \<Rightarrow> pg_tx \<Rightarrow> (sql_error + 'a) \<times> pg_tx" where
  "tx_exec stmt t =
     (let fault = (case tx_faults t of [] \<Rightarrow> None | f # _ \<Rightarrow> f);
          t' = t\<lparr>tx_faults := tl (tx_faults t)\<rparr>
      in case fault of
        Some m \<Rightarrow> (Inl (Fault m), t'\<lparr>tx_aborted := True\<rparr>)
      | None \<Rightarrow>
          if tx_aborted t then (Inl InFailedTransaction, t')
          else case stmt (tx_work t) of
            Inl e \<Rightarrow> (Inl e, t'\<lparr>tx_aborted := True\<rparr>)
          | Inr (a, db) \<Rightarrow> (Inr a, t'\<lparr>tx_work := db\<rparr>))"

definition tx_update :: "(database \<Rightarrow> sql_error + database) \<Rightarrow> pg_tx \<Rightarrow> (sql_error + unit) \<times> pg_tx" where
  "tx_update stmt = tx_exec (\<lambda>db. map_sum id (\<lambda>db'. ((), db')) (stmt db))"

definition tx_query :: "(database \<Rightarrow> 'a) \<Rightarrow> pg_tx \<Rightarrow> (sql_error + 'a) \<times> pg_tx" where
  "tx_query q = tx_exec (\<lambda>db. Inr (q db, db))"

text \<open>What \<open>COMMIT\<close> leaves: an aborted transaction is rolled back instead.\<close>

definition tx_commit :: "pg_tx \<Rightarrow> database" where
  "tx_commit t = (if tx_aborted t then tx_committed t else tx_work t)"

text \<open>What \<open>ROLLBACK\<close> leaves.\<close>

definition tx_rollback :: "pg_tx \<Rightarrow> database" where
  "tx_rollback t = tx_committed t"

text \<open>\<open>Self::map_err(ctx, e)\<close>\<close>

definition map_pg_err :: "pg_ext \<Rightarrow> string \<Rightarrow> sql_error \<Rightarrow> core_error" where
  "map_pg_err X ctx e = InvalidConfig (ctx @ '': '' @ px_render X e)"

definition tx_run :: "pg_ext \<Rightarrow> string \<Rightarrow> (pg_tx \<Rightarrow> (sql_error + 'a) \<times> pg_tx) \<Rightarrow> (pg_tx, 'a) sr" where
  "tx_run X ctx m t = (case m t of (r, t') \<Rightarrow> (map_err (map_pg_err X ctx) r, t'))"

definition tokio_document_exists_by_hash :: "pg_ext \<Rightarrow> string \<Rightarrow> string \<Rightarrow> (pg_tx, bool) sr" where
  "tokio_document_exists_by_hash X ns h = tx_run X ''spi document_exists'' (tx_query (sql_document_exists ns h))"

definition tokio_insert_document :: "pg_ext \<Rightarrow> doc_row \<Rightarrow> (pg_tx, unit) sr" where
  "tokio_insert_document X d = tx_run X ''spi insert document'' (tx_update (sql_insert_document d))"

definition tokio_insert_chunk :: "pg_ext \<Rightarrow> chunk_row \<Rightarrow> (pg_tx, unit) sr" where
  "tokio_insert_chunk X c =
     tx_run X ''spi insert chunk'' (tx_update (sql_insert_chunk X c (vector_literal (cw_embedding c))))"

definition tokio_insert_entity :: "pg_ext \<Rightarrow> entity_row \<Rightarrow> (pg_tx, unit) sr" where
  "tokio_insert_entity X e =
     tx_run X ''spi insert entity'' (tx_update (sql_insert_entity X e (map_option vector_literal (en_name_emb e))))"

text \<open>\<open>f64::from(row.weight)\<close> is exact.\<close>

definition tokio_insert_relationship :: "pg_ext \<Rightarrow> rel_row \<Rightarrow> (pg_tx, unit) sr" where
  "tokio_insert_relationship X r = tx_run X ''spi insert relationship'' (tx_update (sql_insert_relationship r))"

definition tokio_insert_chunk_entity :: "pg_ext \<Rightarrow> chunk_entity_row \<Rightarrow> (pg_tx, unit) sr" where
  "tokio_insert_chunk_entity X l = tx_run X ''spi insert chunk_entity'' (tx_update (sql_insert_chunk_entity l))"

text \<open>\<open>i64::try_from(limit)\<close>, the query, and each row decoded.\<close>

definition tokio_fuzzy_match_entity ::
  "pg_ext \<Rightarrow> string \<Rightarrow> string \<Rightarrow> nat \<Rightarrow> (pg_tx, entity_candidate list) sr" where
  "tokio_fuzzy_match_entity X ns name limit =
     (if 2 ^ 63 \<le> limit then sr_fail (InvalidConfig ''fuzzy_match_entity: limit too large'')
      else sr_bind (tx_run X ''spi fuzzy_match_entity'' (tx_query (sql_fuzzy_match X ns name limit))) (\<lambda>rows.
        sr_return (map (\<lambda>(e, sim).
          \<lparr>ec_id = en_id e, ec_name = en_name e, ec_trgm_similarity = sim,
           ec_name_emb = (case map_option (px_vector_out X) (en_name_emb e) of
             None \<Rightarrow> None | Some txt \<Rightarrow> parse_vector_literal txt)\<rparr>) rows)))"

definition tokio_rollback :: "(pg_tx, unit) sr" where
  "tokio_rollback = sr_return ()"

definition tokio_commit :: "(pg_tx, unit) sr" where
  "tokio_commit = sr_return ()"

definition tokio_client :: "pg_ext \<Rightarrow> pg_tx pg_client" where
  "tokio_client X = \<lparr>
     pg_document_exists_by_hash = tokio_document_exists_by_hash X,
     pg_insert_document = tokio_insert_document X,
     pg_insert_chunk = tokio_insert_chunk X,
     pg_insert_entity = tokio_insert_entity X,
     pg_insert_relationship = tokio_insert_relationship X,
     pg_insert_chunk_entity = tokio_insert_chunk_entity X,
     pg_fuzzy_match_entity = tokio_fuzzy_match_entity X,
     pg_rollback = tokio_rollback,
     pg_commit = tokio_commit\<rparr>"

text \<open>\<open>SpiPgClient\<close>: the same statements sent through SPI.\<close>

definition spi_document_exists_by_hash :: "pg_ext \<Rightarrow> string \<Rightarrow> string \<Rightarrow> (pg_tx, bool) sr" where
  "spi_document_exists_by_hash X ns h = tx_run X ''spi document_exists'' (tx_query (sql_document_exists ns h))"

definition spi_insert_document :: "pg_ext \<Rightarrow> doc_row \<Rightarrow> (pg_tx, unit) sr" where
  "spi_insert_document X d = tx_run X ''spi insert document'' (tx_update (sql_insert_document d))"

definition spi_insert_chunk :: "pg_ext \<Rightarrow> chunk_row \<Rightarrow> (pg_tx, unit) sr" where
  "spi_insert_chunk X c =
     tx_run X ''spi insert chunk'' (tx_update (sql_insert_chunk X c (vector_literal (cw_embedding c))))"

definition spi_insert_entity :: "pg_ext \<Rightarrow> entity_row \<Rightarrow> (pg_tx, unit) sr" where
  "spi_insert_entity X e =
     tx_run X ''spi insert entity'' (tx_update (sql_insert_entity X e (map_option vector_literal (en_name_emb e))))"

definition spi_insert_relationship :: "pg_ext \<Rightarrow> rel_row \<Rightarrow> (pg_tx, unit) sr" where
  "spi_insert_relationship X r = tx_run X ''spi insert relationship'' (tx_update (sql_insert_relationship r))"

definition spi_insert_chunk_entity :: "pg_ext \<Rightarrow> chunk_entity_row \<Rightarrow> (pg_tx, unit) sr" where
  "spi_insert_chunk_entity X l = tx_run X ''spi insert chunk_entity'' (tx_update (sql_insert_chunk_entity l))"

definition spi_fuzzy_match_entity ::
  "pg_ext \<Rightarrow> string \<Rightarrow> string \<Rightarrow> nat \<Rightarrow> (pg_tx, entity_candidate list) sr" where
  "spi_fuzzy_match_entity X ns name limit =
     (if 2 ^ 63 \<le> limit then sr_fail (InvalidConfig ''fuzzy_match_entity: limit too large'')
      else sr_bind (tx_run X ''spi fuzzy_match_entity'' (tx_query (sql_fuzzy_match X ns name limit))) (\<lambda>rows.
        sr_return (map (\<lambda>(e, sim).
          \<lparr>ec_id = en_id e, ec_name = en_name e, ec_trgm_similarity = sim,
           ec_name_emb = Option.bind (map_option (px_vector_out X) (en_name_emb e)) parse_vector_literal\<rparr>) rows)))"

definition spi_rollback :: "(pg_tx, unit) sr" where
  "spi_rollback = sr_return ()"

definition spi_commit :: "(pg_tx, unit) sr" where
  "spi_commit = sr_return ()"

definition spi_client :: "pg_ext \<Rightarrow> pg_tx pg_client" where
  "spi_client X = \<lparr>
     pg_document_exists_by_hash = spi_document_exists_by_hash X,
     pg_insert_document = spi_insert_document X,
     pg_insert_chunk = spi_insert_chunk X,
     pg_insert_entity = spi_insert_entity X,
     pg_insert_relationship = spi_insert_relationship X,
     pg_insert_chunk_entity = spi_insert_chunk_entity X,
     pg_fuzzy_match_entity = spi_fuzzy_match_entity X,
     pg_rollback = spi_rollback,
     pg_commit = spi_commit\<rparr>"

text \<open>The parity the comments promise: the two clients do the same.\<close>

lemma spi_tokio_agree: "spi_client X = tokio_client X"
proof -
  have "spi_fuzzy_match_entity X = tokio_fuzzy_match_entity X"
    by (intro ext) (auto simp: spi_fuzzy_match_entity_def tokio_fuzzy_match_entity_def sr_bind_def sr_apply
        split: prod.split sum.split option.split)
  then show ?thesis
    by (simp add: spi_client_def tokio_client_def spi_document_exists_by_hash_def
        tokio_document_exists_by_hash_def spi_insert_document_def tokio_insert_document_def
        spi_insert_chunk_def tokio_insert_chunk_def spi_insert_entity_def tokio_insert_entity_def
        spi_insert_relationship_def tokio_insert_relationship_def spi_insert_chunk_entity_def
        tokio_insert_chunk_entity_def spi_rollback_def tokio_rollback_def spi_commit_def tokio_commit_def
        fun_eq_iff)
qed

section \<open>Facts\<close>

lemma tokio_client_sel [simp]:
  "pg_document_exists_by_hash (tokio_client X) = tokio_document_exists_by_hash X"
  "pg_insert_document (tokio_client X) = tokio_insert_document X"
  "pg_insert_chunk (tokio_client X) = tokio_insert_chunk X"
  "pg_insert_entity (tokio_client X) = tokio_insert_entity X"
  "pg_insert_relationship (tokio_client X) = tokio_insert_relationship X"
  "pg_insert_chunk_entity (tokio_client X) = tokio_insert_chunk_entity X"
  "pg_fuzzy_match_entity (tokio_client X) = tokio_fuzzy_match_entity X"
  "pg_rollback (tokio_client X) = tokio_rollback"
  "pg_commit (tokio_client X) = tokio_commit"
  by (simp_all add: tokio_client_def)

lemmas tokio_ops = tokio_document_exists_by_hash_def tokio_insert_document_def tokio_insert_chunk_def
  tokio_insert_entity_def tokio_insert_relationship_def tokio_insert_chunk_entity_def
  tokio_rollback_def tokio_commit_def

lemma tx_exec_committed: "tx_committed (snd (tx_exec stmt t)) = tx_committed t"
  by (simp add: tx_exec_def Let_def split: option.split sum.split prod.split)

lemma tx_run_committed:
  "tx_committed (snd (tx_run X ctx (tx_update st) t)) = tx_committed t"
  "tx_committed (snd (tx_run X ctx (tx_query q) t)) = tx_committed t"
  using tx_exec_committed[of "\<lambda>db. map_sum id (\<lambda>db'. ((), db')) (st db)" t]
    tx_exec_committed[of "\<lambda>db. Inr (q db, db)" t]
  by (auto simp: tx_run_def tx_update_def tx_query_def split: prod.splits)

lemma tokio_fuzzy_state:
  "snd (tokio_fuzzy_match_entity X ns name k t) = t
   \<or> snd (tokio_fuzzy_match_entity X ns name k t)
       = snd (tx_run X ''spi fuzzy_match_entity'' (tx_query (sql_fuzzy_match X ns name k)) t)"
  by (auto simp: tokio_fuzzy_match_entity_def sr_apply sr_bind_def split: prod.split sum.split)

interpretation tokio: tx_client "tokio_client X" tx_committed for X
proof unfold_locales
  show "tx_committed (snd (pg_fuzzy_match_entity (tokio_client X) ns nm k s)) = tx_committed s" for X ns nm k s
    using tokio_fuzzy_state[of X ns nm k s] tx_run_committed(2) by (metis tokio_client_sel(7))
qed (simp_all add: tokio_ops tx_run_committed sr_apply)

interpretation spi: tx_client "spi_client X" tx_committed for X
  unfolding spi_tokio_agree by (rule tokio.tx_client_axioms)

section \<open>The constraints of the schema\<close>

definition db_ok :: "database \<Rightarrow> bool" where
  "db_ok db \<longleftrightarrow>
     distinct (map dr_id (db_documents db)) \<and> distinct (map dr_content_hash (db_documents db))
   \<and> (\<forall>d \<in> set (db_documents db). dr_namespace d \<in> nr_name ` set (db_namespaces db))
   \<and> distinct (map cw_id (db_chunks db))
   \<and> distinct (map (\<lambda>c. (cw_document_id c, cw_ord c)) (db_chunks db))
   \<and> (\<forall>c \<in> set (db_chunks db). cw_document_id c \<in> dr_id ` set (db_documents db)
        \<and> length (cw_embedding c) = db_dim db)
   \<and> distinct (map en_id (db_entities db))
   \<and> distinct (map (\<lambda>e. (en_namespace e, en_name e, en_kind e)) (filter (\<lambda>e. en_kind e \<noteq> None) (db_entities db)))
   \<and> (\<forall>e \<in> set (db_entities db). \<forall>v. en_name_emb e = Some v \<longrightarrow> length v = db_dim db)
   \<and> distinct (map rr_id (db_relationships db))
   \<and> distinct (map (\<lambda>r. (rr_namespace r, rr_src_id r, rr_dst_id r, rr_kind r)) (db_relationships db))
   \<and> (\<forall>r \<in> set (db_relationships db). {rr_src_id r, rr_dst_id r} \<subseteq> en_id ` set (db_entities db))
   \<and> distinct (map (\<lambda>l. (ce_chunk_id l, ce_entity_id l)) (db_chunk_entities db))
   \<and> (\<forall>l \<in> set (db_chunk_entities db). ce_chunk_id l \<in> cw_id ` set (db_chunks db)
        \<and> ce_entity_id l \<in> en_id ` set (db_entities db))"

lemma distinct_map_snoc:
  "distinct (map f (xs @ [x])) \<longleftrightarrow> distinct (map f xs) \<and> \<not> list_ex (\<lambda>y. f y = f x) xs"
  by (auto simp: list_ex_iff image_iff)

lemma in_image_list_ex: "i \<in> f ` set xs \<longleftrightarrow> list_ex (\<lambda>y. f y = i) xs"
  by (auto simp: list_ex_iff image_iff)

lemma ball_set_snoc: "(\<forall>y \<in> set (xs @ [x]). Q y) \<longleftrightarrow> (\<forall>y \<in> set xs. Q y) \<and> Q x"
  by auto

lemmas key_simps = distinct_map_snoc in_image_list_ex ball_set_snoc

lemma db_ok_insert_document:
  "db_ok db \<Longrightarrow> sql_insert_document d db = Inr db' \<Longrightarrow> db_ok db'"
  unfolding sql_insert_document_def db_ok_def
  by (clarsimp simp: key_simps simp del: map_append set_append distinct_append split: if_splits)

lemma sql_vector_length: "sql_vector X db lit = Inr v \<Longrightarrow> length v = db_dim db"
  by (auto simp: sql_vector_def split: sum.splits if_splits)

lemma db_ok_insert_chunk:
  "db_ok db \<Longrightarrow> sql_insert_chunk X c lit db = Inr db' \<Longrightarrow> db_ok db'"
  unfolding sql_insert_chunk_def db_ok_def res_bind_Inr_iff
  by (elim exE conjE, clarsimp simp: key_simps sql_vector_length
      simp del: map_append set_append distinct_append split: if_splits)

lemma db_ok_insert_relationship:
  "db_ok db \<Longrightarrow> sql_insert_relationship r db = Inr db' \<Longrightarrow> db_ok db'"
  unfolding sql_insert_relationship_def entity_exists_def db_ok_def
  by (clarsimp simp: key_simps simp del: map_append set_append distinct_append split: if_splits)

lemma db_ok_insert_chunk_entity:
  "db_ok db \<Longrightarrow> sql_insert_chunk_entity l db = Inr db' \<Longrightarrow> db_ok db'"
  unfolding sql_insert_chunk_entity_def entity_exists_def db_ok_def
  by (clarsimp simp: key_simps simp del: map_append set_append distinct_append split: if_splits)

lemma sql_vector_opt_length:
  "(case lit of None \<Rightarrow> Inr None | Some l \<Rightarrow> map_sum id Some (sql_vector X db l)) = Inr (Some v)
   \<Longrightarrow> length v = db_dim db"
  by (auto simp: sql_vector_length map_sum_def split: option.splits sum.splits)

lemma db_ok_add_entity:
  assumes "db_ok db" and "\<And>w. v = Some w \<Longrightarrow> length w = db_dim db"
    and "\<not> list_ex (\<lambda>x. en_id x = en_id e) (db_entities db)"
    and "en_kind e = None \<or> \<not> list_ex (\<lambda>x. en_namespace x = en_namespace e \<and> en_name x = en_name e
          \<and> en_kind x = en_kind e) (db_entities db)"
  shows "db_ok (db\<lparr>db_entities := db_entities db @ [e\<lparr>en_name_emb := v\<rparr>]\<rparr>)"
proof -
  have "distinct (map (\<lambda>e. (en_namespace e, en_name e, en_kind e))
      (filter (\<lambda>e. en_kind e \<noteq> None) (db_entities db @ [e\<lparr>en_name_emb := v\<rparr>])))"
    using assms(1,4) by (auto simp: db_ok_def list_ex_iff)
  with assms(1-3) show ?thesis
    unfolding db_ok_def
    by (simp add: key_simps del: map_append set_append distinct_append filter_append)
qed

lemma db_ok_insert_entity:
  "db_ok db \<Longrightarrow> sql_insert_entity X e lit db = Inr db' \<Longrightarrow> db_ok db'"
  unfolding sql_insert_entity_def res_bind_Inr_iff
  by (elim exE conjE, drule sym, simp only: split: if_splits)
     (auto intro!: db_ok_add_entity dest: sql_vector_opt_length)

end
