(* ===== verification/PgIngest.thy ===== *)
theory PgIngest
  imports PgDatabase
begin

text \<open>
  The pipeline of \<^verbatim>\<open>ingest/run.rs\<close> on the two SQL clients: what it promises about the tables of the
  schema, and what happens to a content that another namespace already holds.
\<close>

section \<open>The constraints are kept\<close>

definition tx_ok :: "pg_tx \<Rightarrow> bool" where
  "tx_ok t \<longleftrightarrow> db_ok (tx_committed t) \<and> db_ok (tx_work t)"

lemma tx_exec_ok:
  assumes "tx_ok t" and "\<And>a db'. stmt (tx_work t) = Inr (a, db') \<Longrightarrow> db_ok db'"
  shows "tx_ok (snd (tx_exec stmt t))"
  using assms by (auto simp: tx_exec_def tx_ok_def Let_def split: option.split sum.split)

lemma tx_run_snd: "snd (tx_run X ctx m t) = snd (m t)"
  by (simp add: tx_run_def split: prod.split)

lemma tx_update_ok:
  assumes "tx_ok t" and "\<And>db db'. db_ok db \<Longrightarrow> stmt db = Inr db' \<Longrightarrow> db_ok db'"
  shows "tx_ok (snd (tx_run X ctx (tx_update stmt) t))"
  unfolding tx_run_snd tx_update_def
proof (rule tx_exec_ok[OF assms(1)])
  fix a db'
  assume "map_sum id (Pair ()) (stmt (tx_work t)) = Inr (a, db')"
  then have "stmt (tx_work t) = Inr db'" by (cases "stmt (tx_work t)") auto
  with assms show "db_ok db'" by (auto simp: tx_ok_def)
qed

lemma tx_query_ok: "tx_ok t \<Longrightarrow> tx_ok (snd (tx_run X ctx (tx_query q) t))"
  unfolding tx_run_snd tx_query_def by (rule tx_exec_ok) (auto simp: tx_ok_def)

interpretation tokio_inv: pg_invariant "tokio_client X" tx_ok for X
proof unfold_locales
  fix X ns nm k s
  assume "tx_ok s"
  then show "tx_ok (snd (pg_fuzzy_match_entity (tokio_client X) ns nm k s))"
    using tokio_fuzzy_state[of X ns nm k s] tx_query_ok by (metis tokio_client_sel(7))
qed (auto simp: tokio_ops sr_apply intro!: tx_update_ok tx_query_ok
    intro: db_ok_insert_document db_ok_insert_chunk db_ok_insert_entity db_ok_insert_relationship
      db_ok_insert_chunk_entity)

lemma tx_begin_ok: "db_ok db \<Longrightarrow> tx_ok (tx_begin faults db)"
  by (simp add: tx_ok_def tx_begin_def)

lemma tx_commit_ok: "tx_ok t \<Longrightarrow> db_ok (tx_commit t)"
  by (simp add: tx_ok_def tx_commit_def)

section \<open>A content that another namespace holds\<close>

lemma tx_run_Inr:
  "tx_run X ctx m t = (Inr a, t') \<longleftrightarrow> m t = (Inr a, t')"
  by (auto simp: tx_run_def split: prod.split sum.split)

lemma tx_exec_Inr: "tx_exec stmt t = (Inr a, t') \<Longrightarrow> stmt (tx_work t) = Inr (a, tx_work t')"
  by (simp add: tx_exec_def Let_def split: option.splits if_splits sum.splits prod.splits)
     (auto split: option.splits if_splits sum.splits prod.splits)

lemma tx_update_Inr:
  "tx_run X ctx (tx_update stmt) t = (Inr u, t') \<Longrightarrow> stmt (tx_work t) = Inr (tx_work t')"
  unfolding tx_run_Inr tx_update_def
  by (drule tx_exec_Inr) (auto simp: map_sum_def split: sum.splits)

lemma tx_query_Inr:
  "tx_run X ctx (tx_query q) t = (Inr a, t') \<Longrightarrow> a = q (tx_work t) \<and> tx_work t' = tx_work t"
  unfolding tx_run_Inr tx_query_def by (drule tx_exec_Inr) auto

lemma orphan_chunk_fails:
  assumes "db_ok db" and "cw_document_id c \<notin> dr_id ` set (db_documents db)"
  shows "\<exists>e. sql_insert_chunk X c lit db = Inl e"
proof -
  have "\<not> list_ex (\<lambda>x. cw_document_id x = cw_document_id c \<and> cw_ord x = cw_ord c) (db_chunks db)"
  proof -
    have "\<forall>x \<in> set (db_chunks db). cw_document_id x \<in> dr_id ` set (db_documents db)"
      using assms(1) by (simp add: db_ok_def)
    with assms(2) show ?thesis unfolding list_ex_iff by metis
  qed
  moreover have "\<not> list_ex (\<lambda>d. dr_id d = cw_document_id c) (db_documents db)"
    using assms(2) by (force simp: list_ex_iff)
  ultimately show ?thesis by (simp add: sql_insert_chunk_def res_bind_def split: sum.split)
qed

lemma chunk_row_doc: "cw_document_id (chunk_row_of ns d x) = d"
  by (simp add: chunk_row_of_def split: prod.split)

lemma duplicate_persist_fails:
  assumes "db_ok (tx_work t)" and "list_ex (\<lambda>x. dr_content_hash x = dr_content_hash doc) (db_documents (tx_work t))"
    and "dr_id doc \<notin> dr_id ` set (db_documents (tx_work t))" and "items \<noteq> []"
  shows "persist_document (tokio_client X) env emb p doc items (t, w) \<noteq> (Inr (), s)"
proof
  assume "persist_document (tokio_client X) env emb p doc items (t, w) = (Inr (), s)"
  moreover obtain x xs where "items = x # xs" using assms(4) by (cases items) auto
  ultimately obtain t1 t2 where 1: "tokio_insert_document X doc t = (Inr (), t1)"
      "tokio_insert_chunk X (chunk_row_of (dr_namespace doc) (dr_id doc) x) t1 = (Inr (), t2)"
    unfolding persist_document_def persist_chunk_def
    by (auto elim!: sr_bind_pairE simp: on_client_Inr)
  have "tx_work t1 = tx_work t"
    using tx_update_Inr[OF 1(1)[unfolded tokio_insert_document_def]] assms(2)
    by (simp add: sql_insert_document_def)
  moreover obtain e where "sql_insert_chunk X (chunk_row_of (dr_namespace doc) (dr_id doc) x)
      (vector_literal (cw_embedding (chunk_row_of (dr_namespace doc) (dr_id doc) x))) (tx_work t) = Inl e"
    using orphan_chunk_fails[OF assms(1)] assms(3) by (metis (no_types, lifting) chunk_row_doc)
  ultimately show False
    using tx_update_Inr[OF 1(2)[unfolded tokio_insert_chunk_def]] by simp
qed

section \<open>A completed job leaves its document\<close>

definition doc_there :: "doc_row \<Rightarrow> pg_tx \<Rightarrow> bool" where
  "doc_there d t \<longleftrightarrow> d \<in> set (db_documents (tx_work t)) \<and> \<not> tx_aborted t"

lemma tx_exec_not_aborted: "tx_exec stmt t = (Inr a, t') \<Longrightarrow> \<not> tx_aborted t'"
  by (auto simp: tx_exec_def Let_def split: option.splits if_splits sum.splits)

lemma tx_run_there:
  assumes "\<And>db db'. stmt db = Inr db' \<Longrightarrow> set (db_documents db) \<subseteq> set (db_documents db')"
  shows "sr_ok (doc_there d) (tx_run X ctx (tx_update stmt))"
    and "sr_ok (doc_there d) (tx_run X ctx (tx_query q))"
proof -
  show "sr_ok (doc_there d) (tx_run X ctx (tx_update stmt))"
    unfolding sr_ok_def
  proof (intro allI impI)
    fix t a t'
    assume r: "tx_run X ctx (tx_update stmt) t = (Inr a, t')" and "doc_there d t"
    moreover have "\<not> tx_aborted t'"
      using r unfolding tx_run_Inr tx_update_def by (rule tx_exec_not_aborted)
    ultimately show "doc_there d t'"
      using assms[OF tx_update_Inr[OF r]] by (auto simp: doc_there_def)
  qed
  show "sr_ok (doc_there d) (tx_run X ctx (tx_query q))"
    unfolding sr_ok_def
  proof (intro allI impI)
    fix t a t'
    assume r: "tx_run X ctx (tx_query q) t = (Inr a, t')" and "doc_there d t"
    moreover have "\<not> tx_aborted t'"
      using r unfolding tx_run_Inr tx_query_def by (rule tx_exec_not_aborted)
    ultimately show "doc_there d t'" using tx_query_Inr[OF r] by (simp add: doc_there_def)
  qed
qed

lemma inserts_keep_documents:
  "sql_insert_document x db = Inr db' \<Longrightarrow> set (db_documents db) \<subseteq> set (db_documents db')"
  "sql_insert_chunk X c lit db = Inr db' \<Longrightarrow> set (db_documents db) \<subseteq> set (db_documents db')"
  "sql_insert_entity X e elit db = Inr db' \<Longrightarrow> set (db_documents db) \<subseteq> set (db_documents db')"
  "sql_insert_relationship r db = Inr db' \<Longrightarrow> set (db_documents db) \<subseteq> set (db_documents db')"
  "sql_insert_chunk_entity l db = Inr db' \<Longrightarrow> set (db_documents db) \<subseteq> set (db_documents db')"
  by (auto simp: sql_insert_document_def sql_insert_chunk_def sql_insert_entity_def sql_insert_relationship_def
      sql_insert_chunk_entity_def res_bind_Inr_iff split: if_splits)

lemma tokio_fuzzy_there: "sr_ok (doc_there d) (tokio_fuzzy_match_entity X ns nm k)"
  unfolding tokio_fuzzy_match_entity_def
  by (auto intro!: sr_ok_bind sr_ok_pure tx_run_there[of Inr])

interpretation tokio_doc: pg_ok_invariant "tokio_client X" "doc_there d" for X d
  by unfold_locales (auto simp: tokio_ops tokio_fuzzy_there sr_ok_pure
      intro!: tx_run_there intro: tx_run_there[of Inr] dest: inserts_keep_documents[THEN subsetD])

lemma persist_leaves_document:
  assumes "persist_document (tokio_client X) env emb p doc items (t, w) = (Inr (), s)"
    and "db_ok (tx_work t)" and "dr_id doc \<notin> dr_id ` set (db_documents (tx_work t))" and "items \<noteq> []"
  shows "doc_there doc (fst s)"
proof -
  have new: "\<not> list_ex (\<lambda>x. dr_content_hash x = dr_content_hash doc) (db_documents (tx_work t))"
    using duplicate_persist_fails[OF assms(2) _ assms(3,4), of X env emb p w s] assms(1) by auto
  obtain t1 w1 where 1: "tokio_insert_document X doc t = (Inr (), t1)"
      "sr_for (persist_chunk (tokio_client X) env emb p (dr_namespace doc) (dr_id doc)) items (t1, w1) = (Inr (), s)"
    using assms(1) unfolding persist_document_def by (auto elim!: sr_bind_pairE simp: on_client_Inr)
  have "sql_insert_document doc (tx_work t) = Inr (tx_work t1)"
    using tx_update_Inr[OF 1(1)[unfolded tokio_insert_document_def]] .
  with new have "doc \<in> set (db_documents (tx_work t1))"
    by (auto simp: sql_insert_document_def split: if_splits dest: sym)
  moreover have "\<not> tx_aborted t1"
    using 1(1) unfolding tokio_insert_document_def tx_run_Inr tx_update_def by (rule tx_exec_not_aborted)
  ultimately have "doc_there doc (fst (t1, w1))" by (simp add: doc_there_def)
  then show ?thesis by (rule sr_okD[OF tokio_doc.persist_chunks_ok 1(2)])
qed

text \<open>After a job that succeeded, COMMIT keeps its work and the content is there, in its namespace.\<close>

lemma tokio_job_document:
  assumes "run_job (tokio_client X) env req emb p (tx_begin faults db, w) = (Inr out, (t, w'))"
    and "db_ok db" and "read_source env (rq_source req) w = (Inr (name, bs), w0)"
    and "\<And>v. fst (ie_new_v4 env v) \<notin> dr_id ` set (db_documents db)"
  shows "sql_document_exists (rq_namespace req) (content_hash (ie_sha env) bs) (tx_commit t)"
  using assms(1)
proof (cases rule: run_job_InrE[OF _ assms(3), consumes 1, case_names dup new])
  case (dup t1)
  have "\<not> tx_aborted t1"
    using dup(1) by (simp add: tokio_document_exists_by_hash_def tx_run_Inr tx_query_def tx_exec_not_aborted)
  moreover have "sql_document_exists (rq_namespace req) (content_hash (ie_sha env) bs) db \<and> tx_work t1 = db"
    using tx_query_Inr[OF dup(1)[simplified, unfolded tokio_document_exists_by_hash_def]]
    by (simp add: tx_begin_def)
  ultimately show ?thesis using dup(3) by (simp add: tx_commit_def)
next
  case (new t1 ids chunks vecs v w1 sw2 t3)
  have w: "tx_work t1 = db"
    using tx_query_Inr[OF new(1)[simplified, unfolded tokio_document_exists_by_hash_def]]
    by (simp add: tx_begin_def)
  have "zip ids (zip chunks vecs) \<noteq> []" using new(2-4) by (auto simp: zip_eq_Nil_iff)
  from persist_leaves_document[OF new(5) _ _ this, unfolded w, OF assms(2)] assms(4)
  have d: "doc_there \<lparr>dr_id = fst (ie_new_v4 env v), dr_namespace = rq_namespace req, dr_source = name,
      dr_content_hash = content_hash (ie_sha env) bs, dr_title = None\<rparr> (fst sw2)"
    by simp
  moreover have "t = fst sw2" using new(6,7) by (simp add: tokio_commit_def sr_apply)
  ultimately show ?thesis
    by (force simp: doc_there_def tx_commit_def sql_document_exists_def list_ex_iff)
qed

section \<open>Properties\<close>


definition demo_db :: database where
  "demo_db = \<lparr>db_dim = 1, db_namespaces = [\<lparr>nr_name = ''ns'', nr_embedding_model = ''m'', nr_llm_provider = None, nr_settings = JObj []\<rparr>],
     db_documents = [], db_chunks = [], db_entities = [], db_relationships = [], db_chunk_entities = [],
     db_jobs = [], db_providers = []\<rparr>"

definition demo_ext :: pg_ext where
  "demo_ext = \<lparr>px_vector_in = (\<lambda>_. Inr [Fin 1]), px_vector_out = (\<lambda>_. ''[1]''), px_similarity = (\<lambda>_ _. Fin 0),
     px_scan = id, px_render = (\<lambda>_. ''error'')\<rparr>"

lemma demo_db_ok: "db_ok demo_db"
  by (simp add: db_ok_def demo_db_def)


text \<open>
  C10 (one hash for all namespaces): when another namespace already holds a document with the same
  content, ingesting it into this namespace never completes. The duplicate check is per namespace, but
  the insert of the document is dropped silently by the unique hash, so its first chunk refers to a
  document that does not exist; the job fails and nothing becomes visible.
\<close>

theorem cross_namespace_duplicate_fails:
  assumes "db_ok db" and "read_source env (rq_source req) w = (Inr (name, bs), w0)"
    and "list_ex (\<lambda>d. dr_content_hash d = content_hash (ie_sha env) bs) (db_documents db)"
    and "\<not> sql_document_exists (rq_namespace req) (content_hash (ie_sha env) bs) db"
    and "\<And>v. fst (ie_new_v4 env v) \<notin> dr_id ` set (db_documents db)"
  shows "\<exists>e t' w'. run_job (tokio_client X) env req emb p (tx_begin faults db, w) = (Inl e, (t', w'))
    \<and> tx_committed t' = db"
proof -
  obtain r t' w' where r: "run_job (tokio_client X) env req emb p (tx_begin faults db, w) = (r, (t', w'))"
    by (metis surj_pair)
  have "r \<noteq> Inr out" for out
  proof
    assume "r = Inr out"
    with r have "run_job (tokio_client X) env req emb p (tx_begin faults db, w) = (Inr out, (t', w'))" by simp
    then show False
    proof (cases rule: run_job_InrE[OF _ assms(2), consumes 1, case_names dup new])
      case (dup t1)
      with assms(4) show False
        by (auto simp: tokio_document_exists_by_hash_def tx_begin_def dest!: tx_query_Inr)
    next
      case (new t1 ids chunks vecs v w1 sw2 t3)
      have w: "tx_work t1 = db"
        using tx_query_Inr[OF new(1)[simplified, unfolded tokio_document_exists_by_hash_def]]
        by (simp add: tx_begin_def)
      have "zip ids (zip chunks vecs) \<noteq> []" using new(2-4) by (auto simp: zip_eq_Nil_iff)
      from duplicate_persist_fails[OF _ _ _ this, of t1 "\<lparr>dr_id = fst (ie_new_v4 env v),
          dr_namespace = rq_namespace req, dr_source = name, dr_content_hash = content_hash (ie_sha env) bs,
          dr_title = None\<rparr>" X env emb p w1 sw2, unfolded w] assms(1,3,5) new(5)
      show False by simp
    qed
  qed
  then obtain e where "r = Inl e" by (cases r) auto
  with r tokio.run_job_visible[of X env req emb p] show ?thesis
    unfolding tokio.visible_only_if_completed_def by (fastforce simp: tx_begin_def)
qed


definition demo_doc :: doc_row where
  "demo_doc = \<lparr>dr_id = Uuid (-1), dr_namespace = ''other'', dr_source = ''b.txt'',
     dr_content_hash = content_hash (ie_sha demo_env) ''hi'', dr_title = None\<rparr>"

definition demo_db2 :: database where
  "demo_db2 = demo_db\<lparr>db_namespaces := db_namespaces demo_db
       @ [\<lparr>nr_name = ''other'', nr_embedding_model = ''m'', nr_llm_provider = None, nr_settings = JObj []\<rparr>],
     db_documents := [demo_doc]\<rparr>"

definition demo_env2 :: "(unit, int) ingest_env" where
  "demo_env2 = demo_env\<lparr>ie_new_v4 := (\<lambda>w. (Uuid \<bar>w\<bar>, w + 1))\<rparr>"

theorem cross_namespace_duplicate_fails_witness:
  "\<exists>e t' w'. run_job (tokio_client demo_ext) demo_env2 (demo_req ''hi'') demo_embedder demo_provider
     (tx_begin [] demo_db2, 0) = (Inl e, (t', w')) \<and> tx_committed t' = demo_db2"
proof (rule cross_namespace_duplicate_fails)
  show "db_ok demo_db2" by (simp add: db_ok_def demo_db2_def demo_db_def demo_doc_def)
  show "read_source demo_env2 (rq_source (demo_req ''hi'')) 0 = (Inr (''a.txt'', ''hi''), 0)"
    by (simp add: demo_req_def)
qed (simp_all add: demo_db2_def demo_doc_def demo_env2_def demo_req_def sql_document_exists_def)

end
