(* ===== verification/Jobs.thy ===== *)
theory Jobs
  imports PgIngest
begin

text \<open>
  The job queue: the statements on \<open>pgrg.ingest_jobs\<close>, the sidecar's poll cycle and reaper
  (\<^verbatim>\<open>pg_raggraph_sidecar/src/jobloop.rs\<close>, \<^verbatim>\<open>main.rs\<close>), the background worker's cycle and reaper
  (\<^verbatim>\<open>pg_raggraph/src/bgw/queue.rs\<close>, \<^verbatim>\<open>worker.rs\<close>, \<^verbatim>\<open>reaper.rs\<close>) and the enqueue functions
  (\<^verbatim>\<open>pg_raggraph/src/ingest.rs\<close>). Times are microseconds. A statement outside an explicit transaction
  commits on its own.
\<close>

section \<open>Backoff\<close>

record backoff =
  bo_current_secs :: u64

definition backoff_new :: backoff where
  "backoff_new = \<lparr>bo_current_secs = 1\<rparr>"

definition next_delay :: "backoff \<Rightarrow> nat \<times> backoff" where
  "next_delay b =
     (from_secs (bo_current_secs b),
      b\<lparr>bo_current_secs :=
          (if bo_current_secs b = 1 then 5
           else if bo_current_secs b = 5 then 10
           else min (bo_current_secs b * 2) 30)\<rparr>)"

definition backoff_reset :: "backoff \<Rightarrow> backoff" where
  "backoff_reset b = b\<lparr>bo_current_secs := 1\<rparr>"

section \<open>Statements on the queue\<close>

text \<open>
  \<open>... WHERE status = 'queued' ORDER BY enqueued_at LIMIT 1 FOR UPDATE SKIP LOCKED\<close>, then the update
  of that row; \<open>locked\<close> are the rows other sessions hold. Rows of equal age come in table order.
\<close>

definition sql_claim :: "uuid list \<Rightarrow> int \<Rightarrow> database \<Rightarrow> sql_error + job_row option \<times> database" where
  "sql_claim locked now db =
     (case stable_sort (\<lambda>a b. jb_enqueued_at a \<le> jb_enqueued_at b)
         (filter (\<lambda>j. jb_status j = Queued \<and> jb_id j \<notin> set locked) (db_jobs db)) of
        [] \<Rightarrow> Inr (None, db)
      | j # _ \<Rightarrow>
          if sint (jb_attempt_count j) = i32_max then Inl (DataException ''integer out of range'')
          else
            let j' = j\<lparr>jb_status := Running,
                       jb_started_at := Some (case jb_started_at j of None \<Rightarrow> now | Some t \<Rightarrow> t),
                       jb_updated_at := now,
                       jb_attempt_count := jb_attempt_count j + 1\<rparr>
            in Inr (Some j', db\<lparr>db_jobs := map (\<lambda>x. if jb_id x = jb_id j then j' else x) (db_jobs db)\<rparr>))"

definition update_job :: "uuid \<Rightarrow> (job_row \<Rightarrow> job_row) \<Rightarrow> database \<Rightarrow> database" where
  "update_job i f db = db\<lparr>db_jobs := map (\<lambda>x. if jb_id x = i then f x else x) (db_jobs db)\<rparr>"

definition complete_job :: "int \<Rightarrow> uuid \<Rightarrow> database \<Rightarrow> database" where
  "complete_job now i =
     update_job i (\<lambda>j. j\<lparr>jb_status := JobCompleted, jb_finished_at := Some now, jb_updated_at := now,
       jb_error := None\<rparr>)"

definition fail_job :: "int \<Rightarrow> uuid \<Rightarrow> string \<Rightarrow> database \<Rightarrow> database" where
  "fail_job now i err =
     update_job i (\<lambda>j. j\<lparr>jb_status := JobFailed, jb_finished_at := Some now, jb_updated_at := now,
       jb_error := Some err\<rparr>)"

definition is_stale :: "int \<Rightarrow> int \<Rightarrow> job_row \<Rightarrow> bool" where
  "is_stale now secs j \<longleftrightarrow> jb_status j = Running \<and> jb_updated_at j < now - secs * 1000000"

definition sql_requeue :: "int \<Rightarrow> int \<Rightarrow> database \<Rightarrow> nat \<times> database" where
  "sql_requeue now secs db =
     (let hit = (\<lambda>j. is_stale now secs j \<and> sint (jb_attempt_count j) < 3)
      in (length (filter hit (db_jobs db)),
          db\<lparr>db_jobs := map (\<lambda>j. if hit j then j\<lparr>jb_status := Queued, jb_updated_at := now\<rparr> else j)
               (db_jobs db)\<rparr>))"

definition sql_fail_cap :: "int \<Rightarrow> int \<Rightarrow> database \<Rightarrow> nat \<times> database" where
  "sql_fail_cap now secs db =
     (let hit = (\<lambda>j. is_stale now secs j \<and> 3 \<le> sint (jb_attempt_count j))
      in (length (filter hit (db_jobs db)),
          db\<lparr>db_jobs := map (\<lambda>j. if hit j then
                 j\<lparr>jb_status := JobFailed,
                   jb_error := Some (unwrap_or [] (jb_error j) @ '' (reaper: max attempts reached)''),
                   jb_finished_at := Some now, jb_updated_at := now\<rparr> else j) (db_jobs db)\<rparr>))"

text \<open>\<open>pgrg.ingest\<close>, \<open>ingest_text\<close> and \<open>ingest_bytes\<close>: one queued row.\<close>

definition queued_row :: "int \<Rightarrow> uuid \<Rightarrow> string \<Rightarrow> string \<Rightarrow> string \<Rightarrow> bytes option \<Rightarrow> job_row" where
  "queued_row now i source ns strategy payload =
     \<lparr>jb_id = i, jb_status = Queued, jb_source = source, jb_namespace = ns, jb_chunk_strategy = strategy,
      jb_error = None, jb_attempt_count = 0, jb_payload = payload, jb_enqueued_at = now,
      jb_started_at = None, jb_finished_at = None, jb_updated_at = now\<rparr>"

definition sql_enqueue :: "job_row \<Rightarrow> database \<Rightarrow> sql_error + database" where
  "sql_enqueue j db =
     (if list_ex (\<lambda>x. jb_id x = jb_id j) (db_jobs db) then Inl (UniqueViolation ''ingest_jobs_pkey'')
      else Inr (db\<lparr>db_jobs := db_jobs db @ [j]\<rparr>))"

definition enqueue_path :: "int \<Rightarrow> uuid \<Rightarrow> string \<Rightarrow> string \<Rightarrow> string \<Rightarrow> database \<Rightarrow> sql_error + uuid \<times> database" where
  "enqueue_path now i path ns strategy db =
     map_sum id (\<lambda>db'. (i, db')) (sql_enqueue (queued_row now i path ns strategy None) db)"

definition enqueue_payload ::
  "int \<Rightarrow> uuid \<Rightarrow> string \<Rightarrow> bytes \<Rightarrow> string \<Rightarrow> string \<Rightarrow> database \<Rightarrow> sql_error + uuid \<times> database" where
  "enqueue_payload now i name bs ns strategy db =
     map_sum id (\<lambda>db'. (i, db')) (sql_enqueue (queued_row now i name ns strategy (Some bs)) db)"

text \<open>The three SQL functions. A \<open>&str\<close> is valid UTF-8, the bytes of \<open>ingest_bytes\<close> need not be.\<close>

definition ingest :: "int \<Rightarrow> uuid \<Rightarrow> string \<Rightarrow> string \<Rightarrow> string \<Rightarrow> database \<Rightarrow> sql_error + uuid \<times> database" where
  "ingest now i path ns strategy db = enqueue_path now i path ns strategy db"

definition ingest_text ::
  "int \<Rightarrow> uuid \<Rightarrow> string \<Rightarrow> string \<Rightarrow> string \<Rightarrow> string \<Rightarrow> database \<Rightarrow> sql_error + uuid \<times> database" where
  "ingest_text now i name content ns strategy db = enqueue_payload now i name content ns strategy db"

definition ingest_bytes ::
  "int \<Rightarrow> uuid \<Rightarrow> string \<Rightarrow> bytes \<Rightarrow> string \<Rightarrow> string \<Rightarrow> database \<Rightarrow> sql_error + uuid \<times> database" where
  "ingest_bytes now i name bs ns strategy db = enqueue_payload now i name bs ns strategy db"

section \<open>The sidecar\<close>

record claimed_job =
  cj_id :: uuid
  cj_source :: "string option"
  cj_namespace :: string
  cj_chunk_strategy :: "string option"
  cj_payload :: "bytes option"
  cj_attempt_count :: i32

datatype process_outcome = POIdle | POCompleted uuid | POFailed uuid string

definition row_to_ingest_source :: "string \<Rightarrow> bytes option \<Rightarrow> ingest_source" where
  "row_to_ingest_source source payload =
     (case payload of
        Some bs \<Rightarrow> if is_utf8 bs then Text source bs else Bytes source bs
      | None \<Rightarrow> Path source)"

definition build_request :: "claimed_job \<Rightarrow> ingest_request" where
  "build_request job =
     (let chunk_strategy = unwrap_or ''auto'' (cj_chunk_strategy job);
          ns = cj_namespace job;
          source_name = unwrap_or ''(unnamed)'' (cj_source job);
          source = row_to_ingest_source source_name (cj_payload job)
      in \<lparr>rq_source = source, rq_namespace = ns, rq_chunk_strategy = chunk_strategy\<rparr>)"

text \<open>The columns \<open>source\<close>, \<open>namespace\<close> and \<open>chunk_strategy\<close> are not nullable, so each is \<open>Some\<close>.\<close>

definition claimed_of :: "job_row \<Rightarrow> claimed_job" where
  "claimed_of j = \<lparr>cj_id = jb_id j, cj_source = Some (jb_source j),
     cj_namespace = unwrap_or ''default'' (Some (jb_namespace j)),
     cj_chunk_strategy = Some (jb_chunk_strategy j), cj_payload = jb_payload j,
     cj_attempt_count = jb_attempt_count j\<rparr>"

text \<open>The faults of one control connection: \<open>cf_commit\<close> says whether the server had committed.\<close>

record ctrl_faults =
  cf_connect :: "string option"
  cf_claim :: "string option"
  cf_begin :: "string option"
  cf_statements :: "string option list"
  cf_commit :: "(string \<times> bool) option"
  cf_mark :: "string option"

definition no_faults :: ctrl_faults where
  "no_faults = \<lparr>cf_connect = None, cf_claim = None, cf_begin = None, cf_statements = [],
     cf_commit = None, cf_mark = None\<rparr>"

definition claim_next_job ::
  "pg_ext \<Rightarrow> string option \<Rightarrow> uuid list \<Rightarrow> int \<Rightarrow> database \<Rightarrow> string + claimed_job option \<times> database" where
  "claim_next_job X fault locked now db =
     (case fault of
        Some e \<Rightarrow> Inl e
      | None \<Rightarrow>
          (case sql_claim locked now db of
             Inl e \<Rightarrow> Inl (px_render X e)
           | Inr (row, db') \<Rightarrow> Inr (map_option claimed_of row, db')))"

text \<open>
  One poll cycle. \<open>t1\<close> and \<open>t2\<close> are the times of the claim and of the final update, \<open>dbg\<close> is the
  derived \<open>Debug\<close> form of an error.
\<close>

definition process_one ::
  "pg_ext \<Rightarrow> ('c, 'w) ingest_env \<Rightarrow> (core_error \<Rightarrow> string) \<Rightarrow> ctrl_faults \<Rightarrow> uuid list \<Rightarrow> int \<Rightarrow> int
     \<Rightarrow> 'w embedder \<Rightarrow> database \<times> 'w \<Rightarrow> (string + process_outcome) \<times> database \<times> 'w" where
  "process_one X env dbg cf locked t1 t2 embedder dbw =
     (case dbw of (db, w) \<Rightarrow>
      case cf_connect cf of Some e \<Rightarrow> (Inl e, db, w) | None \<Rightarrow>
      case claim_next_job X (cf_claim cf) locked t1 db of
        Inl e \<Rightarrow> (Inl e, db, w)
      | Inr (None, db1) \<Rightarrow> (Inr POIdle, db1, w)
      | Inr (Some job, db1) \<Rightarrow>
          let job_id = cj_id job; req = build_request job in
          case cf_begin cf of Some e \<Rightarrow> (Inl e, db1, w) | None \<Rightarrow>
          case run_job (tokio_client X) env req embedder (mock_llm mock_new)
              (tx_begin (cf_statements cf) db1, w) of
            (Inr _, t, w') \<Rightarrow>
              (case cf_commit cf of
                 Some (e, applied) \<Rightarrow> (Inl e, if applied then tx_commit t else db1, w')
               | None \<Rightarrow>
                   let db2 = tx_commit t in
                   case cf_mark cf of
                     Some e \<Rightarrow> (Inl e, db2, w')
                   | None \<Rightarrow> (Inr (POCompleted job_id), complete_job t2 job_id db2, w'))
          | (Inl e, t, w') \<Rightarrow>
              let db2 = tx_rollback t in
              (Inr (POFailed job_id (dbg e)),
               case cf_mark cf of Some _ \<Rightarrow> db2 | None \<Rightarrow> fail_job t2 job_id (dbg e) db2, w'))"

text \<open>\<open>i32::try_from(interval_secs).unwrap_or(i32::MAX)\<close>, then exact in \<open>f64\<close>.\<close>

definition reap_secs :: "i64 \<Rightarrow> int" where
  "reap_secs s = (if - (2 ^ 31) \<le> sint s \<and> sint s \<le> i32_max then sint s else i32_max)"

record reap_outcome =
  ro_requeued :: nat
  ro_failed :: nat

definition reap_stale_jobs :: "int \<Rightarrow> int \<Rightarrow> i64 \<Rightarrow> database \<Rightarrow> reap_outcome \<times> database" where
  "reap_stale_jobs t1 t2 interval_secs db =
     (let secs = reap_secs interval_secs;
          (n, db1) = sql_requeue t1 secs db;
          (m, db2) = sql_fail_cap t2 secs db1
      in (\<lparr>ro_requeued = n, ro_failed = m\<rparr>, db2))"

text \<open>\<open>run_worker\<close>: the pause after one poll, and the backoff it leaves.\<close>

definition worker_pause :: "string + process_outcome \<Rightarrow> backoff \<Rightarrow> nat \<times> backoff" where
  "worker_pause r b =
     (case r of
        Inr POIdle \<Rightarrow> next_delay b
      | Inr (POCompleted _) \<Rightarrow> (0, backoff_reset b)
      | Inr (POFailed _ _) \<Rightarrow> (0, backoff_reset b)
      | Inl _ \<Rightarrow> (from_secs 1, b))"

fun worker_pauses :: "(string + process_outcome) list \<Rightarrow> backoff \<Rightarrow> nat list" where
  "worker_pauses [] b = []"
| "worker_pauses (r # rs) b = (case worker_pause r b of (d, b') \<Rightarrow> d # worker_pauses rs b')"

section \<open>Facts\<close>

text \<open>The tables that hold documents and their graph, which the queue statements do not touch.\<close>

definition data_of ::
  "database \<Rightarrow> doc_row list \<times> chunk_row list \<times> entity_row list \<times> rel_row list \<times> chunk_entity_row list" where
  "data_of db = (db_documents db, db_chunks db, db_entities db, db_relationships db, db_chunk_entities db)"

lemma queue_keeps_data [simp]:
  "data_of (update_job i f db) = data_of db"
  "data_of (complete_job now i db) = data_of db"
  "data_of (fail_job now i err db) = data_of db"
  by (simp_all add: data_of_def update_job_def complete_job_def fail_job_def)

lemma claim_keeps_data: "sql_claim locked now db = Inr (r, db') \<Longrightarrow> data_of db' = data_of db"
  by (auto simp: sql_claim_def data_of_def Let_def split: list.splits if_splits)

lemma queue_keeps_ok [simp]:
  "db_ok (db\<lparr>db_jobs := js\<rparr>) = db_ok db"
  by (simp add: db_ok_def)

lemma claim_keeps_ok: "sql_claim locked now db = Inr (r, db') \<Longrightarrow> db_ok db' = db_ok db"
  by (auto simp: sql_claim_def Let_def split: list.splits if_splits)

lemma document_exists_queue [simp]:
  "sql_document_exists ns h (update_job i f db) = sql_document_exists ns h db"
  by (simp add: sql_document_exists_def update_job_def)

text \<open>What a claim does to the queue.\<close>

lemma sql_claim_SomeE:
  assumes "sql_claim locked now db = Inr (Some j', db')"
  obtains j where "j \<in> set (db_jobs db)" "jb_status j = Queued" "jb_id j \<notin> set locked"
    "sint (jb_attempt_count j) \<noteq> i32_max"
    "j' = j\<lparr>jb_status := Running,
         jb_started_at := Some (case jb_started_at j of None \<Rightarrow> now | Some t \<Rightarrow> t),
         jb_updated_at := now, jb_attempt_count := jb_attempt_count j + 1\<rparr>"
    "db' = update_job (jb_id j) (\<lambda>_. j') db"
proof -
  let ?q = "filter (\<lambda>j. jb_status j = Queued \<and> jb_id j \<notin> set locked) (db_jobs db)"
  obtain j rest where q: "stable_sort (\<lambda>a b. jb_enqueued_at a \<le> jb_enqueued_at b) ?q = j # rest"
    using assms by (auto simp: sql_claim_def split: list.splits)
  then have "j \<in> set (stable_sort (\<lambda>a b. jb_enqueued_at a \<le> jb_enqueued_at b) ?q)" by simp
  then have "j \<in> set ?q" by simp
  with assms q that[of j] show thesis
    by (auto simp: sql_claim_def update_job_def Let_def split: if_splits)
qed

text \<open>No statement of the ingest clients touches the queue.\<close>

definition jobs_are :: "job_row list \<Rightarrow> pg_tx \<Rightarrow> bool" where
  "jobs_are js t \<longleftrightarrow> db_jobs (tx_work t) = js \<and> db_jobs (tx_committed t) = js"

lemma inserts_keep_jobs:
  "sql_insert_document x db = Inr db' \<Longrightarrow> db_jobs db' = db_jobs db"
  "sql_insert_chunk X c lit db = Inr db' \<Longrightarrow> db_jobs db' = db_jobs db"
  "sql_insert_entity X e elit db = Inr db' \<Longrightarrow> db_jobs db' = db_jobs db"
  "sql_insert_relationship r db = Inr db' \<Longrightarrow> db_jobs db' = db_jobs db"
  "sql_insert_chunk_entity l db = Inr db' \<Longrightarrow> db_jobs db' = db_jobs db"
  by (auto simp: sql_insert_document_def sql_insert_chunk_def sql_insert_entity_def sql_insert_relationship_def
      sql_insert_chunk_entity_def res_bind_Inr_iff split: if_splits)

lemma tx_exec_jobs:
  assumes "jobs_are js t" and "\<And>a db'. stmt (tx_work t) = Inr (a, db') \<Longrightarrow> db_jobs db' = db_jobs (tx_work t)"
  shows "jobs_are js (snd (tx_exec stmt t))"
  using assms by (auto simp: tx_exec_def jobs_are_def Let_def split: option.split sum.split)

lemma tx_update_jobs:
  assumes "jobs_are js t" and "\<And>db db'. stmt db = Inr db' \<Longrightarrow> db_jobs db' = db_jobs db"
  shows "jobs_are js (snd (tx_run X ctx (tx_update stmt) t))"
  unfolding tx_run_snd tx_update_def
proof (rule tx_exec_jobs[OF assms(1)])
  fix a db'
  assume "map_sum id (Pair ()) (stmt (tx_work t)) = Inr (a, db')"
  then have "stmt (tx_work t) = Inr db'" by (cases "stmt (tx_work t)") auto
  then show "db_jobs db' = db_jobs (tx_work t)" by (rule assms(2))
qed

lemma tx_query_jobs: "jobs_are js t \<Longrightarrow> jobs_are js (snd (tx_run X ctx (tx_query q) t))"
  unfolding tx_run_snd tx_query_def by (rule tx_exec_jobs) auto

interpretation tokio_jobs: pg_invariant "tokio_client X" "jobs_are js" for X js
proof unfold_locales
  fix X js ns nm k s
  assume "jobs_are js s"
  then show "jobs_are js (snd (pg_fuzzy_match_entity (tokio_client X) ns nm k s))"
    using tokio_fuzzy_state[of X ns nm k s] tx_query_jobs by (metis tokio_client_sel(7))
qed (auto simp: tokio_ops sr_apply intro!: tx_update_jobs tx_query_jobs intro: inserts_keep_jobs)

lemma tokio_job_jobs:
  assumes "run_job (tokio_client X) env req emb p (tx_begin faults db, w) = (r, (t, w'))"
  shows "db_jobs (tx_commit t) = db_jobs db"
proof -
  have "jobs_are (db_jobs db) (fst (tx_begin faults db, w))" by (simp add: jobs_are_def tx_begin_def)
  with sr_keepsD[OF tokio_jobs.run_job_inv assms, of "db_jobs db"] have "jobs_are (db_jobs db) t" by simp
  then show ?thesis by (simp add: jobs_are_def tx_commit_def)
qed

lemma tokio_job_error_rolls_back:
  assumes "run_job (tokio_client X) env req emb p (tx_begin faults db, w) = (Inl e, (t, w'))"
  shows "tx_rollback t = db"
  using tokio.run_job_visible[of X env req emb p] assms
  unfolding tokio.visible_only_if_completed_def by (fastforce simp: tx_rollback_def tx_begin_def)

text \<open>A poll that reports a completed job, taken apart.\<close>

lemma process_one_CompletedE:
  assumes "process_one X env dbg cf locked t1 t2 emb (db, w) = (Inr (POCompleted i), db', w')"
  obtains j db1 out t where "sql_claim locked t1 db = Inr (Some j, db1)" "i = jb_id j"
    "run_job (tokio_client X) env (build_request (claimed_of j)) emb (mock_llm mock_new)
       (tx_begin (cf_statements cf) db1, w) = (Inr out, (t, w'))"
    "db' = complete_job t2 i (tx_commit t)"
  using assms
  by (auto simp: process_one_def claim_next_job_def Let_def claimed_of_def
      split: option.splits sum.splits prod.splits)

section \<open>Properties\<close>

text \<open>
  C3 (completed means stored): when a poll reports a job as completed, its row is marked completed
  without an error, and the namespace of the job holds a document with the hash of the job's content;
  it is there after the COMMIT, not only in the transaction.
\<close>

theorem process_one_completed:
  assumes "process_one X env dbg cf locked t1 t2 emb (db, w) = (Inr (POCompleted i), db', w')"
    and "db_ok db" and "\<And>v. fst (ie_new_v4 env v) \<notin> dr_id ` set (db_documents db)"
  shows "\<exists>j \<in> set (db_jobs db'). jb_id j = i \<and> jb_status j = JobCompleted \<and> jb_error j = None
    \<and> (\<exists>name bs w0. read_source env (rq_source (build_request (claimed_of j))) w = (Inr (name, bs), w0)
         \<and> sql_document_exists (jb_namespace j) (content_hash (ie_sha env) bs) db')"
proof -
  obtain j db1 out t where r: "sql_claim locked t1 db = Inr (Some j, db1)" "i = jb_id j"
      "run_job (tokio_client X) env (build_request (claimed_of j)) emb (mock_llm mock_new)
         (tx_begin (cf_statements cf) db1, w) = (Inr out, (t, w'))"
      "db' = complete_job t2 i (tx_commit t)"
    using assms(1) by (rule process_one_CompletedE)
  obtain q where c: "q \<in> set (db_jobs db)" "jb_id j = jb_id q" "db1 = update_job (jb_id q) (\<lambda>_. j) db"
    using r(1) by (rule sql_claim_SomeE) auto
  have j1: "j \<in> set (db_jobs (tx_commit t))"
    unfolding tokio_job_jobs[OF r(3)] c(3) update_job_def using c(1) by force
  let ?j = "j\<lparr>jb_status := JobCompleted, jb_finished_at := Some t2, jb_updated_at := t2, jb_error := None\<rparr>"
  have "?j \<in> set (db_jobs db')"
    using j1 unfolding r(2,4) complete_job_def update_job_def by force
  moreover obtain name bs w0 where s: "read_source env (rq_source (build_request (claimed_of j))) w = (Inr (name, bs), w0)"
    using r(3) by (auto simp: run_job_def on_world_Inr elim!: sr_bind_pairE)
  moreover have "sql_document_exists (jb_namespace j) (content_hash (ie_sha env) bs) (tx_commit t)"
  proof -
    have "db_documents db1 = db_documents db" using claim_keeps_data[OF r(1)] by (simp add: data_of_def)
    moreover have "db_ok db1" using claim_keeps_ok[OF r(1)] assms(2) by simp
    ultimately show ?thesis
      using tokio_job_document[OF r(3) _ s] assms(3)
      by (simp add: build_request_def claimed_of_def Let_def)
  qed
  ultimately show ?thesis
    unfolding r(4) complete_job_def
    by (intro bexI[of _ ?j]) (auto simp: r(2) build_request_def claimed_of_def)
qed

definition demo_job :: job_row where
  "demo_job = queued_row 0 (Uuid 77) ''a.txt'' ''ns'' ''auto'' (Some ''hi'')"

definition demo_queue :: database where
  "demo_queue = demo_db\<lparr>db_jobs := [demo_job]\<rparr>"

definition demo_running :: job_row where
  "demo_running = demo_job\<lparr>jb_status := Running, jb_started_at := Some 5, jb_updated_at := 5,
     jb_attempt_count := 1\<rparr>"

definition demo_claimed :: database where
  "demo_claimed = demo_queue\<lparr>db_jobs := [demo_running]\<rparr>"

lemma demo_claim: "sql_claim [] 5 demo_queue = Inr (Some demo_running, demo_claimed)"
  by (simp add: sql_claim_def demo_claimed_def demo_running_def demo_queue_def demo_job_def queued_row_def
      i32_max_def Let_def)

lemma demo_request: "build_request (claimed_of demo_running) = demo_req ''hi''"
  by (simp add: build_request_def claimed_of_def demo_running_def demo_job_def queued_row_def demo_req_def
      row_to_ingest_source_def is_utf8_ascii)

lemma demo_claimed_sel:
  "db_documents demo_claimed = []" "db_chunks demo_claimed = []" "db_dim demo_claimed = 1"
  "db_namespaces demo_claimed = [\<lparr>nr_name = ''ns'', nr_embedding_model = ''m'', nr_llm_provider = None, nr_settings = JObj []\<rparr>]"
  by (simp_all add: demo_claimed_def demo_queue_def demo_db_def)

lemma demo_tokio_run:
  "\<exists>t. run_job (tokio_client demo_ext) demo_env (demo_req ''hi'') demo_embedder (mock_llm mock_new)
     (tx_begin [] demo_claimed, 0) = (Inr (Completed (Uuid 1) 1), (t, 2))"
  by (simp add: run_job_def sr_bind_def sr_apply
      on_world_def on_client_def demo_env_def demo_embedder_def Let_def demo_chunk mock_llm_def mock_extract_def
      mock_new_def extraction_default_def persist_chunk_extraction_def chunk_strategy_parse_def fresh_def
      persist_document_def persist_chunk_def commit_or_rollback_def tokio_ops tx_run_def tx_query_def
      tx_update_def tx_exec_def tx_begin_def sql_document_exists_def sql_insert_document_def demo_claimed_sel
      sql_insert_chunk_def sql_vector_def demo_ext_def chunk_row_of_def demo_req_def is_utf8_ascii)

lemma demo_queue_ok: "db_ok demo_queue"
  using demo_db_ok by (simp add: demo_queue_def)

lemma demo_process_one:
  "\<exists>db'. process_one demo_ext demo_env (\<lambda>_. []) no_faults [] 5 6 demo_embedder (demo_queue, 0)
     = (Inr (POCompleted (Uuid 77)), db', 2)"
proof -
  have "cj_id (claimed_of demo_running) = Uuid 77"
    by (simp add: claimed_of_def demo_running_def demo_job_def queued_row_def)
  with demo_tokio_run show ?thesis
    by (auto simp: process_one_def no_faults_def claim_next_job_def demo_claim demo_request Let_def)
qed

theorem process_one_completed_witness:
  "\<exists>db' j. process_one demo_ext demo_env (\<lambda>_. []) no_faults [] 5 6 demo_embedder (demo_queue, 0)
       = (Inr (POCompleted (Uuid 77)), db', 2)
     \<and> j \<in> set (db_jobs db') \<and> jb_status j = JobCompleted"
proof -
  obtain db' where r: "process_one demo_ext demo_env (\<lambda>_. []) no_faults [] 5 6 demo_embedder (demo_queue, 0)
     = (Inr (POCompleted (Uuid 77)), db', 2)"
    using demo_process_one by blast
  have "db_documents demo_queue = []" by (simp add: demo_queue_def demo_db_def)
  with process_one_completed[OF r demo_queue_ok] r show ?thesis by auto
qed

text \<open>
  Failed means untouched: whatever faults the connection has, as long as COMMIT and the final
  update go through, a poll that does not complete a job leaves the documents, chunks, entities,
  relationships and links exactly as they were.
\<close>

theorem process_one_failed:
  assumes "process_one X env dbg cf locked t1 t2 emb (db, w) = (r, db', w')"
    and "cf_commit cf = None" and "cf_mark cf = None" and "\<And>i. r \<noteq> Inr (POCompleted i)"
  shows "data_of db' = data_of db"
  using assms
  by (auto simp: process_one_def claim_next_job_def Let_def
      dest!: claim_keeps_data tokio_job_error_rolls_back split: option.splits sum.splits prod.splits)

theorem process_one_failed_witness:
  "data_of (fst (snd (process_one demo_ext demo_env (\<lambda>_. []) (no_faults\<lparr>cf_begin := Some ''down''\<rparr>) [] 5 6
     demo_embedder (demo_queue, 0)))) = data_of demo_queue"
proof -
  have "process_one demo_ext demo_env (\<lambda>_. []) (no_faults\<lparr>cf_begin := Some ''down''\<rparr>) [] 5 6 demo_embedder (demo_queue, 0)
     = (Inl ''down'', demo_claimed, 0)"
    by (simp add: process_one_def no_faults_def claim_next_job_def demo_claim Let_def)
  from process_one_failed[OF this] this show ?thesis by (simp add: no_faults_def)
qed

text \<open>
  Poll backoff: an idle queue is polled after 1, 5, 10, 20 and then 30 seconds for ever, from
  the start and again after every processed job; an error pauses one second and keeps the backoff.
\<close>

theorem backoff_sequence:
  "worker_pauses (replicate n (Inr POIdle)) backoff_new
     = map from_secs (take n ([1, 5, 10, 20] @ replicate n 30))
   \<and> worker_pauses (Inr (POCompleted i) # rs) b = 0 # worker_pauses rs backoff_new
   \<and> worker_pauses (Inr (POFailed i e) # rs) b = 0 # worker_pauses rs backoff_new
   \<and> worker_pauses (Inl e # rs) b = from_secs 1 # worker_pauses rs b"
proof -
  have 30: "worker_pauses (replicate k (Inr POIdle)) \<lparr>bo_current_secs = 30\<rparr> = replicate k (from_secs 30)" for k
    by (induction k) (simp_all add: worker_pause_def next_delay_def)
  have "worker_pauses (replicate n (Inr POIdle)) backoff_new
     = map from_secs (take n ([1, 5, 10, 20] @ replicate n 30))"
  proof (cases "n < 4")
    case True
    then consider "n = 0" | "n = Suc 0" | "n = Suc (Suc 0)" | "n = Suc (Suc (Suc 0))" by linarith
    then show ?thesis
      by cases (simp_all add: worker_pause_def next_delay_def backoff_new_def)
  next
    case False
    then obtain k where "n = 4 + k" using le_Suc_ex not_less by blast
    then have "n = Suc (Suc (Suc (Suc k)))" by simp
    moreover have "take k (30 # 30 # 30 # 30 # replicate k (30 :: u64)) = replicate k 30"
      using take_replicate[of k "Suc (Suc (Suc (Suc k)))" "30 :: u64"] by simp
    ultimately show ?thesis
      by (simp add: worker_pause_def next_delay_def backoff_new_def 30 min_def map_replicate)
  qed
  moreover have "backoff_reset b = backoff_new" for b by (cases b) (simp add: backoff_reset_def backoff_new_def)
  ultimately show ?thesis by (simp add: worker_pause_def)
qed

end
