(* ===== verification/Providers.thy ===== *)
theory Providers
  imports LlmProviders Ask Credentials PgDatabase
begin

text \<open>
  How a row of \<open>pgrg.providers\<close> becomes a provider: \<^verbatim>\<open>pg_raggraph/src/provider_factory.rs\<close> (over SPI,
  failing with \<open>ereport!(ERROR)\<close>) and \<^verbatim>\<open>pg_raggraph_sidecar/src/provider_factory.rs\<close> (over
  tokio-postgres, failing with an \<open>anyhow\<close> error). Both errors are the left of a sum here, with the
  message; \<open>ereport!(ERROR)\<close> aborts the transaction of its caller. \<open>de_extraction\<close> is the derived
  deserialiser of \<open>Extraction\<close>.
\<close>

section \<open>Providers that can be built\<close>

datatype provider_impl =
    ImplOpenAi openai
  | ImplAnthropic anthropic
  | ImplOllama ollama
  | ImplMock mock_provider

text \<open>The \<open>Box<dyn LlmProvider>\<close> of such a value.\<close>

fun provider_llm :: "('r, 'v, 'w) transport \<Rightarrow> 'v json_api \<Rightarrow> provider_impl \<Rightarrow> 'w llm_provider" where
  "provider_llm T J (ImplOpenAi p) = openai_llm T J p"
| "provider_llm T J (ImplAnthropic p) = anthropic_llm T J p"
| "provider_llm T J (ImplOllama p) = ollama_llm T J p"
| "provider_llm T J (ImplMock p) = mock_llm p"

section \<open>Statements\<close>

definition sql_provider_row :: "string \<Rightarrow> database \<Rightarrow> (string \<times> string \<times> string option \<times> string option) option" where
  "sql_provider_row name db =
     map_option (\<lambda>p. (pv_provider p, unwrap_or [] (pv_model p), pv_base_url p, pv_credential p))
       (find (\<lambda>p. pv_name p = name) (db_providers db))"

text \<open>\<open>SELECT llm_provider FROM pgrg.namespaces WHERE name = $1\<close>, with a null read as no row.\<close>

definition sql_namespace_provider :: "string \<Rightarrow> database \<Rightarrow> string option" where
  "sql_namespace_provider ns db =
     Option.bind (find (\<lambda>n. nr_name n = ns) (db_namespaces db)) nr_llm_provider"

definition sql_provider_refs :: "database \<Rightarrow> provider_ref list" where
  "sql_provider_refs db = map (\<lambda>p. \<lparr>pr_name = pv_name p, pr_kind = pv_kind p\<rparr>) (db_providers db)"

text \<open>\<open>provider_model_for\<close>: the model of a row, or the empty string.\<close>

definition provider_model_for :: "database \<Rightarrow> string \<Rightarrow> string" where
  "provider_model_for db name =
     unwrap_or [] (Option.bind (find (\<lambda>p. pv_name p = name) (db_providers db)) pv_model)"

section \<open>The parts both factories repeat\<close>

definition default_base :: "string \<Rightarrow> string" where
  "default_base kind =
     (if kind = ''openai'' then ''https://api.openai.com''
      else if kind = ''anthropic'' then ''https://api.anthropic.com''
      else if kind = ''ollama'' then ''http://localhost:11434''
      else [])"

text \<open>The credential, decrypted when it is an envelope; \<open>unset\<close> is the message for a missing key path.\<close>

definition plaintext_credential ::
  "('k, 'w) crypto_api \<Rightarrow> ('h, 'w) file_api \<Rightarrow> string \<Rightarrow> string option \<Rightarrow> string option
     \<Rightarrow> 'w \<Rightarrow> (string + string) \<times> 'w" where
  "plaintext_credential C F unset key_path credential w =
     (case credential of
        None \<Rightarrow> (Inr [], w)
      | Some c \<Rightarrow>
          if is_encrypted c then
            (case key_path of
               None \<Rightarrow> (Inl unset, w)
             | Some path \<Rightarrow>
                 (case load_from_path F path w of
                    (Inl e, w') \<Rightarrow> (Inl (''provider_factory: master key load failed: '' @ core_error_display e), w')
                  | (Inr key, w') \<Rightarrow>
                      (case decrypt_v1 C c (mk_bytes key) of
                         Inl e \<Rightarrow> (Inl (''provider_factory: credential decrypt failed: '' @ core_error_display e), w')
                       | Inr p \<Rightarrow> (Inr p, w'))))
          else (Inr c, w))"

definition dispatch_provider ::
  "(string \<Rightarrow> string + extraction) \<Rightarrow> string \<Rightarrow> string \<Rightarrow> string \<Rightarrow> string \<Rightarrow> string \<Rightarrow> string + provider_impl" where
  "dispatch_provider de_extraction bad_json kind model base cred =
     (if kind = ''openai'' then Inr (ImplOpenAi (openai_new cred model base))
      else if kind = ''anthropic'' then Inr (ImplAnthropic (anthropic_new cred model base))
      else if kind = ''ollama'' then Inr (ImplOllama (ollama_new model base))
      else if kind = ''mock'' then Inr (ImplMock (with_stub_answer mock_new cred))
      else if kind = ''mock-extractor'' then
        (case de_extraction cred of
           Inl e \<Rightarrow> Inl (bad_json @ e)
         | Inr x \<Rightarrow> Inr (ImplMock (with_stub_extraction mock_new x)))
      else Inl (''provider_factory: unknown provider kind `'' @ kind @ ''`''))"

section \<open>The factory of the extension\<close>

definition spi_build_provider_impl ::
  "('k, 'w) crypto_api \<Rightarrow> ('h, 'w) file_api \<Rightarrow> (string \<Rightarrow> string + extraction) \<Rightarrow> string option
     \<Rightarrow> database \<Rightarrow> string \<Rightarrow> 'w \<Rightarrow> (string + provider_impl) \<times> 'w" where
  "spi_build_provider_impl C F de master_key_path db name w =
     (case sql_provider_row name db of
        None \<Rightarrow> (Inl (''provider_factory: provider `'' @ name @ ''` not found''), w)
      | Some (kind, model, base_url, credential) \<Rightarrow>
          (case plaintext_credential C F
              ''provider_factory: credential is encrypted but pg_raggraph.master_key_path is unset''
              master_key_path credential w of
             (Inl e, w') \<Rightarrow> (Inl e, w')
           | (Inr cred, w') \<Rightarrow>
               (dispatch_provider de ''mock-extractor credential must be JSON Extraction: '' kind model
                  (unwrap_or (default_base kind) base_url) cred, w')))"

text \<open>A provider that resolves but cannot be built is an error here.\<close>

definition spi_resolve_or_default ::
  "('k, 'w) crypto_api \<Rightarrow> ('h, 'w) file_api \<Rightarrow> (string \<Rightarrow> string + extraction) \<Rightarrow> string option
     \<Rightarrow> database \<Rightarrow> string \<Rightarrow> 'w \<Rightarrow> (string + provider_impl) \<times> 'w" where
  "spi_resolve_or_default C F de master_key_path db ns w =
     (case resolve_provider None (sql_namespace_provider ns db) (sql_provider_refs db) of
        Inr name \<Rightarrow> spi_build_provider_impl C F de master_key_path db name w
      | Inl _ \<Rightarrow> (Inr (ImplMock mock_new), w))"

section \<open>The factory of the sidecar\<close>

text \<open>\<open>fault\<close> is the connection error of the statement, if any.\<close>

definition tokio_build_provider_impl ::
  "('k, 'w) crypto_api \<Rightarrow> ('h, 'w) file_api \<Rightarrow> (string \<Rightarrow> string + extraction) \<Rightarrow> string option
     \<Rightarrow> string option \<Rightarrow> database \<Rightarrow> string \<Rightarrow> 'w \<Rightarrow> (string + provider_impl) \<times> 'w" where
  "tokio_build_provider_impl C F de master_key_path fault db name w =
     (case fault of
        Some e \<Rightarrow> (Inl (''provider_factory: provider row select for `'' @ name @ ''`''), w)
      | None \<Rightarrow>
     (case sql_provider_row name db of
        None \<Rightarrow> (Inl (''provider_factory: provider `'' @ name @ ''` not found''), w)
      | Some (kind, model, base_url, credential) \<Rightarrow>
          (case plaintext_credential C F
              ''provider_factory: credential is encrypted but PGRG_MASTER_KEY_PATH (master_key_path) is unset''
              master_key_path credential w of
             (Inl e, w') \<Rightarrow> (Inl e, w')
           | (Inr cred, w') \<Rightarrow>
               (dispatch_provider de ''provider_factory: mock-extractor credential must be JSON Extraction: ''
                  kind model (unwrap_or (default_base kind) base_url) cred, w'))))"

text \<open>
  The faults of its three statements: a failed namespace query reads as no default, a failed provider
  query as no provider.
\<close>

definition tokio_resolve_or_default ::
  "('k, 'w) crypto_api \<Rightarrow> ('h, 'w) file_api \<Rightarrow> (string \<Rightarrow> string + extraction) \<Rightarrow> string option
     \<Rightarrow> string option \<times> string option \<times> string option \<Rightarrow> database \<Rightarrow> string \<Rightarrow> 'w \<Rightarrow> provider_impl \<times> 'w" where
  "tokio_resolve_or_default C F de master_key_path faults db ns w =
     (case faults of (f1, f2, f3) \<Rightarrow>
      let ns_default = (case f1 of None \<Rightarrow> sql_namespace_provider ns db | Some _ \<Rightarrow> None);
          available = (case f2 of None \<Rightarrow> sql_provider_refs db | Some _ \<Rightarrow> [])
      in case resolve_provider None ns_default available of
           Inr name \<Rightarrow>
             (case tokio_build_provider_impl C F de master_key_path f3 db name w of
                (Inr p, w') \<Rightarrow> (p, w')
              | (Inl _, w') \<Rightarrow> (ImplMock mock_new, w'))
         | Inl _ \<Rightarrow> (ImplMock mock_new, w))"

section \<open>Facts\<close>

lemma plaintext_credential_msg:
  "map_prod (map_sum (\<lambda>_. ()) id) id (plaintext_credential C F m1 kp cr w)
     = map_prod (map_sum (\<lambda>_. ()) id) id (plaintext_credential C F m2 kp cr w)"
  by (simp add: plaintext_credential_def split: option.split sum.split prod.split)

lemma dispatch_provider_msg:
  "map_sum (\<lambda>_. ()) id (dispatch_provider de m1 kind model base cred)
     = map_sum (\<lambda>_. ()) id (dispatch_provider de m2 kind model base cred)"
  by (simp add: dispatch_provider_def split: sum.split)

lemma factories_agree:
  "map_prod (map_sum (\<lambda>_. ()) id) id (tokio_build_provider_impl C F de kp None db name w)
     = map_prod (map_sum (\<lambda>_. ()) id) id (spi_build_provider_impl C F de kp db name w)"
proof (cases "sql_provider_row name db")
  case None
  then show ?thesis by (simp add: tokio_build_provider_impl_def spi_build_provider_impl_def)
next
  case (Some row)
  obtain kind model base cr where row: "row = (kind, model, base, cr)" by (metis surj_pair)
  show ?thesis
    using plaintext_credential_msg[of C F "''provider_factory: credential is encrypted but PGRG_MASTER_KEY_PATH (master_key_path) is unset''" kp cr w
        "''provider_factory: credential is encrypted but pg_raggraph.master_key_path is unset''"]
      dispatch_provider_msg[of de "''provider_factory: mock-extractor credential must be JSON Extraction: ''"
        kind model "unwrap_or (default_base kind) base" _ "''mock-extractor credential must be JSON Extraction: ''"]
    by (auto simp: tokio_build_provider_impl_def spi_build_provider_impl_def Some row split: prod.splits sum.splits)
qed

section \<open>Properties\<close>

text \<open>
  C38 (fallback): with no connection fault the sidecar uses the provider the extension would use; where
  the extension raises an error (unknown provider, missing or unreadable key, bad envelope), the sidecar
  silently takes the mock provider that extracts nothing.
\<close>

theorem resolve_or_default_agree:
  "tokio_resolve_or_default C F de kp (None, None, None) db ns w
     = (case spi_resolve_or_default C F de kp db ns w of
          (Inr p, w') \<Rightarrow> (p, w')
        | (Inl _, w') \<Rightarrow> (ImplMock mock_new, w'))"
proof (cases "resolve_provider None (sql_namespace_provider ns db) (sql_provider_refs db)")
  case (Inl e)
  then show ?thesis by (simp add: tokio_resolve_or_default_def spi_resolve_or_default_def)
next
  case (Inr name)
  then show ?thesis
    using factories_agree[of C F de kp db name w]
    by (auto simp: tokio_resolve_or_default_def spi_resolve_or_default_def split: prod.splits sum.splits)
qed

text \<open>
  Credentials reach the provider: a credential encrypted under the master key and stored in the
  row of an OpenAI or Anthropic provider is decrypted when the provider is built; the provider's key is
  the original credential, with the row's model and the default address of its kind.
\<close>

theorem stored_credential_reaches_provider:
  assumes "crypto_laws C" and "is_utf8 secret" and "encrypt_v1 C secret (mk_bytes key) w0 = (Inr stored, w1)"
    and "load_from_path F path w = (Inr key, w')"
    and "sql_provider_row name db = Some (kind, model, None, Some stored)"
    and "kind = ''openai'' \<or> kind = ''anthropic''"
  shows "spi_build_provider_impl C F de (Some path) db name w
    = (Inr (if kind = ''openai'' then ImplOpenAi (openai_new secret model ''https://api.openai.com'')
            else ImplAnthropic (anthropic_new secret model ''https://api.anthropic.com'')), w')"
  using assms(4-6) decrypt_encrypted[OF assms(1-3)]
  by (auto simp: spi_build_provider_impl_def plaintext_credential_def dispatch_provider_def default_base_def)

definition demo_files :: "(unit, nat) file_api" where
  "demo_files = \<lparr>fi_mode = (\<lambda>p w. (Inr 0x180, w)), fi_open = (\<lambda>p w. (Inr (), w)),
     fi_read_to_end = (\<lambda>h w. (Inr (replicate 32 (CHR ''k'')), w))\<rparr>"

definition demo_stored :: string where
  "demo_stored = ENV_PREFIX @ demo_encode (replicate 12 (char_of (7::nat))) @ '':''
     @ demo_encode (replicate 32 (CHR ''k'') @ ''sk-secret'')"

definition demo_provider_db :: database where
  "demo_provider_db = \<lparr>db_dim = 1, db_namespaces = [], db_documents = [], db_chunks = [], db_entities = [],
     db_relationships = [], db_chunk_entities = [], db_jobs = [],
     db_providers = [\<lparr>pv_name = ''main'', pv_kind = ''llm'', pv_provider = ''openai'', pv_base_url = None,
       pv_model = Some ''gpt'', pv_credential = Some demo_stored, pv_config = JObj []\<rparr>]\<rparr>"

lemma demo_key:
  "load_from_path demo_files ''/key'' 3 = (Inr \<lparr>mk_bytes = replicate 32 (CHR ''k'')\<rparr>, 3)"
  by (simp add: load_from_path_def demo_files_def file_step_def sr_bind_def sr_apply group_world_bits_def
      MASTER_KEY_LEN_def)

theorem stored_credential_reaches_provider_witness:
  "spi_build_provider_impl demo_crypto demo_files (\<lambda>_. Inl []) (Some ''/key'') demo_provider_db ''main'' 3
     = (Inr (ImplOpenAi (openai_new ''sk-secret'' ''gpt'' ''https://api.openai.com'')), 3)"
proof -
  have k: "mk_bytes \<lparr>mk_bytes = replicate 32 (CHR ''k'')\<rparr> = replicate 32 (CHR ''k'')" by simp
  have u: "is_utf8 ''sk-secret''" by (simp add: is_utf8_ascii)
  have r: "sql_provider_row ''main'' demo_provider_db = Some (''openai'', ''gpt'', None, Some demo_stored)"
    by (simp add: sql_provider_row_def demo_provider_db_def)
  show ?thesis
    using stored_credential_reaches_provider[OF demo_crypto_laws u _ demo_key r, of 7 8]
      demo_encrypt by (simp add: demo_stored_def)
qed

end
