(* ===== verification/Worker.thy ===== *)
theory Worker
  imports Jobs Providers
begin

text \<open>
  One cycle of the background worker (\<^verbatim>\<open>pg_raggraph/src/bgw/queue.rs\<close>, \<^verbatim>\<open>worker.rs\<close>, \<^verbatim>\<open>reaper.rs\<close>).
  \<open>BackgroundWorker::transaction\<close> runs its closure in a transaction that commits when the closure
  returns, whatever it returns, and aborts when it raises; an SQL error inside the closure and
  \<open>ereport!(ERROR)\<close> are raised through it and end the worker process, which is restarted.
\<close>

section \<open>The queue over SPI\<close>

text \<open>
  \<open>installed\<close> is the answer of the \<open>to_regclass\<close> check. An error of the claim reads as no job.
\<close>

definition spi_claim_next_job ::
  "bool option \<Rightarrow> uuid list \<Rightarrow> int \<Rightarrow> database \<Rightarrow> claimed_job option \<times> database" where
  "spi_claim_next_job installed locked now db =
     (if installed \<noteq> Some True then (None, db)
      else case sql_claim locked now db of
        Inl _ \<Rightarrow> (None, db)
      | Inr (None, db') \<Rightarrow> (None, db')
      | Inr (Some j, db') \<Rightarrow> (Some (claimed_of j), db'))"

definition worker_build_request :: "claimed_job \<Rightarrow> string + ingest_request" where
  "worker_build_request job =
     (let chunk_strategy = unwrap_or ''auto'' (cj_chunk_strategy job);
          ns = cj_namespace job;
          source_name = unwrap_or ''(unnamed)'' (cj_source job);
          source = (case cj_payload job of
             Some bs \<Rightarrow> if is_utf8 bs then Text source_name bs else Bytes source_name bs
           | None \<Rightarrow> Path source_name)
      in Inr \<lparr>rq_source = source, rq_namespace = ns, rq_chunk_strategy = chunk_strategy\<rparr>)"

section \<open>The cycle\<close>

datatype job_outcome =
    JobDone uuid nat
  | JobSkipped string
  | JobError string

definition job_outcome_of :: "(core_error \<Rightarrow> string) \<Rightarrow> run_job_outcome core_result \<Rightarrow> job_outcome" where
  "job_outcome_of dbg r =
     (case r of
        Inr (Completed d n) \<Rightarrow> JobDone d n
      | Inr (SkippedDuplicate h) \<Rightarrow> JobSkipped h
      | Inl e \<Rightarrow> JobError (dbg e))"

datatype cycle_result = NoJob | Restarted | Finished job_outcome

definition mark_outcome :: "int \<Rightarrow> uuid \<Rightarrow> job_outcome \<Rightarrow> database \<Rightarrow> database" where
  "mark_outcome now i oc =
     (case oc of
        JobDone _ _ \<Rightarrow> complete_job now i
      | JobSkipped _ \<Rightarrow> complete_job now i
      | JobError m \<Rightarrow> fail_job now i m)"

text \<open>\<open>pick\<close> is \<open>resolve_or_default_provider\<close>, run in the transaction of the job.\<close>

definition worker_cycle ::
  "pg_ext \<Rightarrow> ('c, 'w) ingest_env \<Rightarrow> (core_error \<Rightarrow> string)
     \<Rightarrow> (database \<Rightarrow> string \<Rightarrow> 'w \<Rightarrow> (string + 'w llm_provider) \<times> 'w)
     \<Rightarrow> bool option \<Rightarrow> uuid list \<Rightarrow> int \<Rightarrow> int \<Rightarrow> 'w embedder \<Rightarrow> database \<times> 'w
     \<Rightarrow> cycle_result \<times> database \<times> 'w" where
  "worker_cycle X env dbg pick installed locked t1 t2 embedder dbw =
     (case dbw of (db, w) \<Rightarrow>
      case spi_claim_next_job installed locked t1 db of
        (None, db1) \<Rightarrow> (NoJob, db1, w)
      | (Some job, db1) \<Rightarrow>
          (case worker_build_request job of
             Inl e \<Rightarrow> (Finished (JobError e), fail_job t2 (cj_id job) e db1, w)
           | Inr req \<Rightarrow>
               (case pick db1 (rq_namespace req) w of
                  (Inl _, w1) \<Rightarrow> (Restarted, db1, w1)
                | (Inr provider, w1) \<Rightarrow>
                    (case run_job (spi_client X) env req embedder provider (tx_begin [] db1, w1) of
                       (r, t, w2) \<Rightarrow>
                         if tx_aborted t then (Restarted, tx_rollback t, w2)
                         else
                           let oc = job_outcome_of dbg r
                           in (Finished oc, mark_outcome t2 (cj_id job) oc (tx_commit t), w2)))))"

text \<open>The provider of a job: the factory of the extension, as a provider over the network.\<close>

definition worker_pick ::
  "('r, 'v, 'w) transport \<Rightarrow> 'v json_api \<Rightarrow> ('k, 'w) crypto_api \<Rightarrow> ('h, 'w) file_api
     \<Rightarrow> (string \<Rightarrow> string + extraction) \<Rightarrow> string option
     \<Rightarrow> database \<Rightarrow> string \<Rightarrow> 'w \<Rightarrow> (string + 'w llm_provider) \<times> 'w" where
  "worker_pick T J C F de kp db ns w =
     map_prod (map_sum id (provider_llm T J)) id (spi_resolve_or_default C F de kp db ns w)"

text \<open>\<open>run_reaper_sweep\<close>: both updates in one transaction, with one \<open>now()\<close>.\<close>

definition run_reaper_sweep :: "int \<Rightarrow> i32 \<Rightarrow> database \<Rightarrow> database" where
  "run_reaper_sweep now interval db =
     snd (sql_fail_cap now (sint interval) (snd (sql_requeue now (sint interval) db)))"

lemma requests_agree: "worker_build_request job = Inr (build_request job)"
  by (simp add: worker_build_request_def build_request_def row_to_ingest_source_def Let_def
      split: option.split)

section \<open>Properties\<close>

text \<open>
  Same claim, same request: where the schema is installed and no connection fails, both workers
  claim the same row with the same effect on the queue, and rebuild the same request from it; the
  background worker's fallible reconstruction never fails.
\<close>

theorem claims_agree:
  "spi_claim_next_job (Some True) locked now db
     = (case claim_next_job X None locked now db of Inr r \<Rightarrow> r | Inl _ \<Rightarrow> (None, db))
   \<and> worker_build_request job = Inr (build_request job)"
  by (simp add: requests_agree spi_claim_next_job_def claim_next_job_def split: sum.split prod.split option.split)

text \<open>
  Same sweep: for an interval that is a valid setting and one clock reading, the sidecar's sweep
  changes the queue exactly as the sweep of the extension does; the counts it reports are the rows that
  were running, stale, and below or at the cap.
\<close>

lemma sweeps_agree:
  assumes "sint secs = sint interval"
  shows "reap_stale_jobs now now secs db =
    (\<lparr>ro_requeued = length (filter (\<lambda>j. is_stale now (sint interval) j \<and> sint (jb_attempt_count j) < 3) (db_jobs db)),
      ro_failed = length (filter (\<lambda>j. is_stale now (sint interval) j \<and> 3 \<le> sint (jb_attempt_count j)) (db_jobs db))\<rparr>,
     run_reaper_sweep now interval db)"
proof -
  have secs: "reap_secs secs = sint interval"
    using sint_ge[of interval] sint_lt[of interval] by (simp add: reap_secs_def assms i32_max_def)
  let ?f = "\<lambda>j. if is_stale now (sint interval) j \<and> sint (jb_attempt_count j) < 3
      then j\<lparr>jb_status := Queued, jb_updated_at := now\<rparr> else j"
  have "(is_stale now (sint interval) (?f j) \<and> 3 \<le> sint (jb_attempt_count (?f j)))
      = (is_stale now (sint interval) j \<and> 3 \<le> sint (jb_attempt_count j))" for j
    by (auto simp: is_stale_def)
  then have "length (filter (\<lambda>j. is_stale now (sint interval) j \<and> 3 \<le> sint (jb_attempt_count j)) (map ?f js))
      = length (filter (\<lambda>j. is_stale now (sint interval) j \<and> 3 \<le> sint (jb_attempt_count j)) js)" for js
    by (induction js) simp_all
  then show ?thesis
    by (simp add: reap_stale_jobs_def run_reaper_sweep_def sql_requeue_def sql_fail_cap_def Let_def secs)
qed

text \<open>A provider whose extraction fails, as a malformed reply makes it.\<close>

definition broken_provider :: "int llm_provider" where
  "broken_provider = \<lparr>lp_extract = (\<lambda>t ns w. (Inl (Llm ''parse: eof''), w)),
     lp_complete = (\<lambda>p w. (Inl (Llm ''parse: eof''), w))\<rparr>"

definition broken_doc :: doc_row where
  "broken_doc = \<lparr>dr_id = Uuid 1, dr_namespace = ''ns'', dr_source = ''a.txt'',
     dr_content_hash = content_hash (ie_sha demo_env) ''hi'', dr_title = None\<rparr>"

definition broken_chunk :: chunk_row where
  "broken_chunk = \<lparr>cw_id = Uuid 0, cw_document_id = Uuid 1, cw_namespace = ''ns'', cw_ord = 0,
     cw_text = ''hi'', cw_token_count = 1, cw_embedding = [Fin 1]\<rparr>"

lemma broken_run:
  "run_job (spi_client demo_ext) demo_env (demo_req ''hi'') demo_embedder broken_provider
     (tx_begin [] demo_claimed, 0)
   = (Inl (Llm ''parse: eof''),
      \<lparr>tx_committed = demo_claimed,
       tx_work = demo_claimed\<lparr>db_documents := [broken_doc], db_chunks := [broken_chunk]\<rparr>,
       tx_aborted = False, tx_faults = []\<rparr>, 2)"
  unfolding spi_tokio_agree
  by (simp add: run_job_def sr_bind_def sr_apply
      on_world_def on_client_def demo_env_def demo_embedder_def Let_def demo_chunk broken_provider_def
      persist_chunk_extraction_def chunk_strategy_parse_def fresh_def
      persist_document_def persist_chunk_def commit_or_rollback_def tokio_ops tx_run_def tx_query_def
      tx_update_def tx_exec_def tx_begin_def sql_document_exists_def sql_insert_document_def demo_claimed_sel
      sql_insert_chunk_def sql_vector_def demo_ext_def chunk_row_of_def demo_req_def is_utf8_ascii
      broken_doc_def broken_chunk_def)

definition broken_cycle :: "cycle_result \<times> database \<times> int" where
  "broken_cycle = worker_cycle demo_ext demo_env (\<lambda>_. ''Llm'') (\<lambda>db ns w. (Inr broken_provider, w))
     (Some True) [] 5 6 demo_embedder (demo_queue, 0)"

lemma broken_cycle_eq:
  "broken_cycle = (Finished (JobError ''Llm''),
     fail_job 6 (Uuid 77) ''Llm'' (demo_claimed\<lparr>db_documents := [broken_doc], db_chunks := [broken_chunk]\<rparr>), 2)"
proof -
  have "cj_id (claimed_of demo_running) = Uuid 77"
    by (simp add: claimed_of_def demo_running_def demo_job_def queued_row_def)
  then show ?thesis
    by (simp add: broken_cycle_def worker_cycle_def spi_claim_next_job_def demo_claim requests_agree
        demo_request broken_run job_outcome_of_def mark_outcome_def tx_commit_def Let_def)
qed


end
