(* ===== verification/JobQueue.thy ===== *)
theory JobQueue
  imports Worker
begin

text \<open>
  The queue as a state machine: any number of workers, each somewhere in its poll cycle, the reaper, new
  jobs, crashes and the clock, in any order. Each transaction is one step; that the transactions of the
  data tables are atomic and ordered is PostgreSQL's isolation, taken for granted here.
\<close>

section \<open>Steps\<close>

datatype worker_pc =
    WIdle
  | WClaimed job_row
  | WStored uuid
  | WErred uuid string

record sys =
  sy_db :: database
  sy_now :: int
  sy_workers :: "nat \<Rightarrow> worker_pc"

datatype label =
    LTick int
  | LEnqueue uuid
  | LClaim nat uuid
  | LIngest nat
  | LMark nat
  | LCrash nat
  | LReap int

inductive queue_step ::
  "pg_ext \<Rightarrow> ('c, 'w) ingest_env \<Rightarrow> (core_error \<Rightarrow> string) \<Rightarrow> 'w embedder \<Rightarrow> sys \<Rightarrow> label \<Rightarrow> sys \<Rightarrow> bool"
  for X env dbg emb where
  tick: "0 \<le> d \<Longrightarrow> queue_step X env dbg emb s (LTick d) (s\<lparr>sy_now := sy_now s + d\<rparr>)"
| enqueue: "sql_enqueue (queued_row (sy_now s) i src ns strategy payload) (sy_db s) = Inr db' \<Longrightarrow>
    queue_step X env dbg emb s (LEnqueue i) (s\<lparr>sy_db := db'\<rparr>)"
| claim: "sy_workers s k = WIdle \<Longrightarrow> sql_claim locked (sy_now s) (sy_db s) = Inr (Some j, db') \<Longrightarrow>
    queue_step X env dbg emb s (LClaim k (jb_id j))
      (s\<lparr>sy_db := db', sy_workers := (sy_workers s)(k := WClaimed j)\<rparr>)"
| ingest_ok: "sy_workers s k = WClaimed j \<Longrightarrow>
    run_job (tokio_client X) env (build_request (claimed_of j)) emb (mock_llm mock_new)
      (tx_begin faults (sy_db s), w) = (Inr out, (t, w')) \<Longrightarrow>
    queue_step X env dbg emb s (LIngest k)
      (s\<lparr>sy_db := tx_commit t, sy_workers := (sy_workers s)(k := WStored (jb_id j))\<rparr>)"
| ingest_err: "sy_workers s k = WClaimed j \<Longrightarrow>
    run_job (tokio_client X) env (build_request (claimed_of j)) emb (mock_llm mock_new)
      (tx_begin faults (sy_db s), w) = (Inl e, (t, w')) \<Longrightarrow>
    queue_step X env dbg emb s (LIngest k)
      (s\<lparr>sy_db := tx_rollback t, sy_workers := (sy_workers s)(k := WErred (jb_id j) (dbg e))\<rparr>)"
| mark_ok: "sy_workers s k = WStored i \<Longrightarrow>
    queue_step X env dbg emb s (LMark k)
      (s\<lparr>sy_db := complete_job (sy_now s) i (sy_db s), sy_workers := (sy_workers s)(k := WIdle)\<rparr>)"
| mark_err: "sy_workers s k = WErred i m \<Longrightarrow>
    queue_step X env dbg emb s (LMark k)
      (s\<lparr>sy_db := fail_job (sy_now s) i m (sy_db s), sy_workers := (sy_workers s)(k := WIdle)\<rparr>)"
| crash: "queue_step X env dbg emb s (LCrash k) (s\<lparr>sy_workers := (sy_workers s)(k := WIdle)\<rparr>)"
| reap: "queue_step X env dbg emb s (LReap secs)
      (s\<lparr>sy_db := snd (sql_fail_cap (sy_now s) secs (snd (sql_requeue (sy_now s) secs (sy_db s))))\<rparr>)"

inductive_cases queue_stepE: "queue_step X env dbg emb s l s'"
inductive_simps queue_step_crash [simp]: "queue_step X env dbg emb s (LCrash k) s'"

inductive queue_run ::
  "pg_ext \<Rightarrow> ('c, 'w) ingest_env \<Rightarrow> (core_error \<Rightarrow> string) \<Rightarrow> 'w embedder \<Rightarrow> sys \<Rightarrow> label list \<Rightarrow> sys \<Rightarrow> bool"
  for X env dbg emb s where
  start: "queue_run X env dbg emb s [] s"
| more: "queue_run X env dbg emb s ls s1 \<Longrightarrow> queue_step X env dbg emb s1 l s2 \<Longrightarrow>
    queue_run X env dbg emb s (ls @ [l]) s2"

text \<open>How often a job was claimed in a run.\<close>

definition claims_of :: "uuid \<Rightarrow> label list \<Rightarrow> nat" where
  "claims_of i ls = length (filter (\<lambda>l. case l of LClaim _ x \<Rightarrow> x = i | _ \<Rightarrow> False) ls)"

section \<open>The rows of the queue\<close>

definition row_ok :: "job_row \<Rightarrow> bool" where
  "row_ok j \<longleftrightarrow> 0 \<le> sint (jb_attempt_count j) \<and> sint (jb_attempt_count j) \<le> 3
     \<and> (jb_status j = Queued \<longrightarrow> sint (jb_attempt_count j) \<le> 2)
     \<and> (jb_status j = Running \<longrightarrow> 1 \<le> sint (jb_attempt_count j) \<and> jb_started_at j \<noteq> None)
     \<and> (jb_status j = JobCompleted \<longrightarrow> jb_finished_at j \<noteq> None \<and> jb_error j = None)
     \<and> (jb_status j = JobFailed \<longrightarrow> jb_finished_at j \<noteq> None \<and> jb_error j \<noteq> None)"

definition queue_ok :: "database \<Rightarrow> bool" where
  "queue_ok db \<longleftrightarrow> distinct (map jb_id (db_jobs db)) \<and> (\<forall>j \<in> set (db_jobs db). row_ok j)"

text \<open>The queue agrees with the history: the attempts of a row are the claims of its job.\<close>

definition history_ok :: "label list \<Rightarrow> database \<Rightarrow> bool" where
  "history_ok ls db \<longleftrightarrow>
     (\<forall>j \<in> set (db_jobs db). sint (jb_attempt_count j) = int (claims_of (jb_id j) ls))
   \<and> (\<forall>i. i \<notin> jb_id ` set (db_jobs db) \<longrightarrow> claims_of i ls = 0)"

lemma claims_of_snoc [simp]:
  "claims_of i (ls @ [l]) = claims_of i ls + (case l of LClaim _ x \<Rightarrow> if x = i then 1 else 0 | _ \<Rightarrow> 0)"
  by (simp add: claims_of_def split: label.split)

lemma update_job_jobs [simp]:
  "db_jobs (update_job i f db) = map (\<lambda>x. if jb_id x = i then f x else x) (db_jobs db)"
  by (simp add: update_job_def)

text \<open>An update that keeps the identifier and the attempts of each row keeps both invariants.\<close>

lemma queue_ok_map:
  assumes "queue_ok db" and "db_jobs db' = map f (db_jobs db)" and "\<And>j. jb_id (f j) = jb_id j"
    and "\<And>j. j \<in> set (db_jobs db) \<Longrightarrow> row_ok j \<Longrightarrow> row_ok (f j)"
  shows "queue_ok db'"
  using assms by (auto simp: queue_ok_def o_def cong: map_cong)

lemma history_ok_map:
  assumes "history_ok ls db" and "db_jobs db' = map f (db_jobs db)" and "\<And>j. jb_id (f j) = jb_id j"
    and "\<And>j. jb_attempt_count (f j) = jb_attempt_count j"
    and "\<And>i. claims_of i ls' = claims_of i ls"
  shows "history_ok ls' db'"
  using assms by (auto simp: history_ok_def image_image)

lemma row_ok_marks:
  "row_ok j \<Longrightarrow> row_ok (j\<lparr>jb_status := JobCompleted, jb_finished_at := Some n, jb_updated_at := n, jb_error := None\<rparr>)"
  "row_ok j \<Longrightarrow> row_ok (j\<lparr>jb_status := JobFailed, jb_finished_at := Some n, jb_updated_at := n, jb_error := Some m\<rparr>)"
  by (simp_all add: row_ok_def)

lemma sint_i32_Suc:
  fixes a :: i32
  assumes "0 \<le> sint a" and "sint a \<le> 2"
  shows "sint (a + 1) = sint a + 1"
  using assms by (simp add: sint_word_ariths signed_take_bit_int_eq_self)

lemma row_ok_claimed:
  assumes "row_ok j" and "jb_status j = Queued"
  shows "row_ok (j\<lparr>jb_status := Running, jb_started_at := Some n, jb_updated_at := m,
      jb_attempt_count := jb_attempt_count j + 1\<rparr>)"
    and "sint (jb_attempt_count j + 1) = sint (jb_attempt_count j) + 1"
  using assms sint_i32_Suc[of "jb_attempt_count j"] by (auto simp: row_ok_def)

lemma claim_queue_ok:
  assumes "queue_ok db" and "sql_claim locked now db = Inr (Some j, db')"
  shows "queue_ok db'" and "history_ok ls db \<Longrightarrow> history_ok (ls @ [LClaim k (jb_id j)]) db'"
proof -
  from assms(2) obtain q where q: "q \<in> set (db_jobs db)" "jb_status q = Queued"
      "j = q\<lparr>jb_status := Running, jb_started_at := Some (case jb_started_at q of None \<Rightarrow> now | Some t \<Rightarrow> t),
         jb_updated_at := now, jb_attempt_count := jb_attempt_count q + 1\<rparr>"
      "db' = update_job (jb_id q) (\<lambda>_. j) db"
    by (rule sql_claim_SomeE)
  have ok: "row_ok q" "distinct (map jb_id (db_jobs db))" using assms(1) q(1) by (auto simp: queue_ok_def)
  have j: "row_ok j" "jb_id j = jb_id q" "sint (jb_attempt_count j) = sint (jb_attempt_count q) + 1"
    using row_ok_claimed[OF ok(1) q(2)] unfolding q(3) by auto
  show "queue_ok db'"
    by (rule queue_ok_map[OF assms(1), of _ "\<lambda>x. if jb_id x = jb_id q then j else x"])
       (auto simp: q(4) j)
  have same: "x = q" if "x \<in> set (db_jobs db)" "jb_id x = jb_id q" for x
    using ok(2) q(1) that by (auto simp: distinct_map dest: inj_onD)
  show "history_ok (ls @ [LClaim k (jb_id j)]) db'" if h: "history_ok ls db"
  proof -
    have ids: "jb_id ` set (db_jobs db') = jb_id ` set (db_jobs db)"
    proof -
      have "map jb_id (db_jobs db') = map jb_id (db_jobs db)" using j(2) by (auto simp: q(4))
      then show ?thesis by (metis set_map)
    qed
    have "sint (jb_attempt_count x) = int (claims_of (jb_id x) (ls @ [LClaim k (jb_id j)]))"
      if x: "x \<in> set (db_jobs db')" for x
    proof (cases "jb_id x = jb_id q")
      case True
      with x j(2) have "x = j" by (auto simp: q(4) split: if_splits)
      with h q(1) j show ?thesis by (simp add: history_ok_def)
    next
      case False
      with x j(2) have "x \<in> set (db_jobs db)" by (auto simp: q(4) split: if_splits)
      with h False j(2) show ?thesis by (simp add: history_ok_def)
    qed
    moreover have "claims_of i (ls @ [LClaim k (jb_id j)]) = 0" if "i \<notin> jb_id ` set (db_jobs db')" for i
      using h that q(1) j(2) unfolding ids by (auto simp: history_ok_def)
    ultimately show ?thesis by (simp add: history_ok_def)
  qed
qed

lemma mark_queue_ok:
  assumes "queue_ok db"
  shows "queue_ok (complete_job now i db)" and "queue_ok (fail_job now i m db)"
    and "history_ok ls db \<Longrightarrow> history_ok (ls @ [LMark k]) (complete_job now i db)"
    and "history_ok ls db \<Longrightarrow> history_ok (ls @ [LMark k]) (fail_job now i m db)"
proof -
  show "queue_ok (complete_job now i db)" "queue_ok (fail_job now i m db)"
    unfolding complete_job_def fail_job_def
    by (rule queue_ok_map[OF assms update_job_jobs]; simp add: row_ok_marks)+
  show "history_ok (ls @ [LMark k]) (complete_job now i db)" if "history_ok ls db"
    unfolding complete_job_def by (rule history_ok_map[OF that update_job_jobs]) simp_all
  show "history_ok (ls @ [LMark k]) (fail_job now i m db)" if "history_ok ls db"
    unfolding fail_job_def by (rule history_ok_map[OF that update_job_jobs]) simp_all
qed

lemma sweep_jobs:
  "db_jobs (snd (sql_requeue now secs db)) = map (\<lambda>j. if is_stale now secs j \<and> sint (jb_attempt_count j) < 3
     then j\<lparr>jb_status := Queued, jb_updated_at := now\<rparr> else j) (db_jobs db)"
  "db_jobs (snd (sql_fail_cap now secs db)) = map (\<lambda>j. if is_stale now secs j \<and> 3 \<le> sint (jb_attempt_count j)
     then j\<lparr>jb_status := JobFailed,
            jb_error := Some (unwrap_or [] (jb_error j) @ '' (reaper: max attempts reached)''),
            jb_finished_at := Some now, jb_updated_at := now\<rparr> else j) (db_jobs db)"
  by (simp_all add: sql_requeue_def sql_fail_cap_def Let_def)

lemma reap_queue_ok:
  assumes "queue_ok db"
  shows "queue_ok (snd (sql_fail_cap now secs (snd (sql_requeue now secs db))))"
    and "history_ok ls db \<Longrightarrow>
      history_ok (ls @ [LReap secs]) (snd (sql_fail_cap now secs (snd (sql_requeue now secs db))))"
proof -
  have "queue_ok (snd (sql_requeue now secs db))"
    by (rule queue_ok_map[OF assms sweep_jobs(1)]) (simp_all add: row_ok_def)
  then show "queue_ok (snd (sql_fail_cap now secs (snd (sql_requeue now secs db))))"
    by (rule queue_ok_map[OF _ sweep_jobs(2)]) (simp_all add: row_ok_def)
  assume "history_ok ls db"
  then have "history_ok ls (snd (sql_requeue now secs db))"
    by (rule history_ok_map[OF _ sweep_jobs(1)]) simp_all
  then show "history_ok (ls @ [LReap secs]) (snd (sql_fail_cap now secs (snd (sql_requeue now secs db))))"
    by (rule history_ok_map[OF _ sweep_jobs(2)]) simp_all
qed

lemma enqueue_queue_ok:
  assumes "queue_ok db" and "sql_enqueue (queued_row now i src ns strategy payload) db = Inr db'"
  shows "queue_ok db'" and "history_ok ls db \<Longrightarrow> history_ok (ls @ [LEnqueue i]) db'"
proof -
  have e: "i \<notin> jb_id ` set (db_jobs db)" "db_jobs db' = db_jobs db @ [queued_row now i src ns strategy payload]"
    using assms(2) by (auto simp: sql_enqueue_def list_ex_iff queued_row_def split: if_splits)
  have q: "jb_id (queued_row now i src ns strategy payload) = i" "row_ok (queued_row now i src ns strategy payload)"
      "jb_attempt_count (queued_row now i src ns strategy payload) = 0"
    by (simp_all add: queued_row_def row_ok_def)
  show "queue_ok db'" using assms(1) e q(1,2) by (auto simp: queue_ok_def)
  show "history_ok (ls @ [LEnqueue i]) db'" if "history_ok ls db"
    using that e q(1,3) by (auto simp: history_ok_def)
qed

section \<open>Every step keeps the queue\<close>

lemma queue_step_ok:
  assumes "queue_step X env dbg emb s l s'" and "queue_ok (sy_db s)" and "history_ok ls (sy_db s)"
  shows "queue_ok (sy_db s') \<and> history_ok (ls @ [l]) (sy_db s')"
  using assms
proof (cases rule: queue_step.cases)
  case (ingest_ok k j faults w out t w')
  have "db_jobs (tx_commit t) = db_jobs (sy_db s)" using tokio_job_jobs[OF ingest_ok(4)] .
  with assms(2,3) ingest_ok(1,2) show ?thesis by (simp add: queue_ok_def history_ok_def)
next
  case (ingest_err k j faults w e t w')
  have "tx_rollback t = sy_db s" using tokio_job_error_rolls_back[OF ingest_err(4)] .
  with assms(2,3) ingest_err(1,2) show ?thesis by (simp add: queue_ok_def history_ok_def)
next
  case (claim k locked j db')
  with claim_queue_ok[OF assms(2) claim(4)] assms(3) show ?thesis by simp
next
  case (enqueue i src ns strategy payload db')
  with enqueue_queue_ok[OF assms(2) enqueue(3)] assms(3) show ?thesis by simp
next
  case (mark_ok k i)
  with mark_queue_ok(1,3)[OF assms(2)] assms(3) show ?thesis by simp
next
  case (mark_err k i m)
  with mark_queue_ok(2,4)[OF assms(2)] assms(3) show ?thesis by simp
next
  case (reap secs)
  with reap_queue_ok[OF assms(2)] assms(3) show ?thesis by simp
qed (use assms(2,3) in \<open>simp_all add: history_ok_def\<close>)

lemma queue_run_ok:
  assumes "queue_run X env dbg emb s ls s'" and "queue_ok (sy_db s)" and "history_ok [] (sy_db s)"
  shows "queue_ok (sy_db s') \<and> history_ok ls (sy_db s')"
  using assms by (induction rule: queue_run.induct) (auto dest: queue_step_ok)

section \<open>Counting claims\<close>

definition claim_count :: "label list \<Rightarrow> nat" where
  "claim_count ls = length (filter (\<lambda>l. case l of LClaim _ _ \<Rightarrow> True | _ \<Rightarrow> False) ls)"

lemma claim_count_sum:
  assumes "finite S" and "\<And>i. i \<notin> S \<Longrightarrow> claims_of i ls = 0"
  shows "claim_count ls = (\<Sum>i\<in>S. claims_of i ls)"
  using assms(2)
proof (induction ls rule: rev_induct)
  case Nil
  then show ?case by (simp add: claim_count_def claims_of_def)
next
  case (snoc l ls)
  have IH: "claim_count ls = (\<Sum>i\<in>S. claims_of i ls)"
    by (rule snoc.IH) (use snoc.prems in force)
  show ?case
  proof (cases "\<exists>k x. l = LClaim k x")
    case True
    then obtain k x where l: "l = LClaim k x" by blast
    then have "x \<in> S" using snoc.prems[of x] by (auto split: if_splits)
    with IH assms(1) l show ?thesis by (simp add: claim_count_def sum.distrib)
  next
    case False
    then show ?thesis using IH by (cases l) (simp_all add: claim_count_def)
  qed
qed

lemma claims_bounded:
  assumes "queue_ok db" and "history_ok ls db"
  shows "claims_of i ls \<le> 3" and "claim_count ls \<le> 3 * length (db_jobs db)"
proof -
  have b: "claims_of i ls \<le> 3" for i
    using assms by (cases "i \<in> jb_id ` set (db_jobs db)") (auto simp: queue_ok_def history_ok_def row_ok_def)
  then show "claims_of i ls \<le> 3" .
  let ?S = "jb_id ` set (db_jobs db)"
  have "claim_count ls = (\<Sum>i\<in>?S. claims_of i ls)"
    using assms(2) by (intro claim_count_sum) (auto simp: history_ok_def)
  also have "\<dots> \<le> (\<Sum>i\<in>?S. 3)" by (intro sum_mono b)
  also have "\<dots> \<le> 3 * length (db_jobs db)"
  proof -
    have "card ?S \<le> length (db_jobs db)"
      by (metis card_length length_map set_map)
    then show ?thesis by simp
  qed
  finally show "claim_count ls \<le> 3 * length (db_jobs db)" .
qed

section \<open>One worker per job, without the reaper\<close>

fun pc_job :: "worker_pc \<Rightarrow> uuid option" where
  "pc_job WIdle = None"
| "pc_job (WClaimed j) = Some (jb_id j)"
| "pc_job (WStored i) = Some i"
| "pc_job (WErred i _) = Some i"

definition running_ids :: "database \<Rightarrow> uuid set" where
  "running_ids db = jb_id ` {j \<in> set (db_jobs db). jb_status j = Running}"

definition exclusive :: "sys \<Rightarrow> bool" where
  "exclusive s \<longleftrightarrow> (\<forall>k i. pc_job (sy_workers s k) = Some i \<longrightarrow> i \<in> running_ids (sy_db s))
     \<and> (\<forall>k k' i. pc_job (sy_workers s k) = Some i \<longrightarrow> pc_job (sy_workers s k') = Some i \<longrightarrow> k = k')"

lemma running_ids_claim:
  assumes "queue_ok db" and "sql_claim locked now db = Inr (Some j, db')"
  shows "jb_id j \<notin> running_ids db" and "running_ids db' = insert (jb_id j) (running_ids db)"
proof -
  from assms(2) obtain q where q: "q \<in> set (db_jobs db)" "jb_status q = Queued" "jb_id j = jb_id q"
      "jb_status j = Running" "db' = update_job (jb_id q) (\<lambda>_. j) db"
    by (rule sql_claim_SomeE) auto
  have same: "x = q" if "x \<in> set (db_jobs db)" "jb_id x = jb_id q" for x
    using assms(1) q(1) that by (auto simp: queue_ok_def distinct_map dest: inj_onD)
  show "jb_id j \<notin> running_ids db"
    using same q(2,3) by (force simp: running_ids_def)
  have mem: "i \<in> running_ids d \<longleftrightarrow> (\<exists>x \<in> set (db_jobs d). jb_id x = i \<and> jb_status x = Running)" for i d
    by (auto simp: running_ids_def)
  show "running_ids db' = insert (jb_id j) (running_ids db)"
  proof (rule set_eqI)
    fix i
    show "i \<in> running_ids db' \<longleftrightarrow> i \<in> insert (jb_id j) (running_ids db)"
      using q(1,3,4) by (cases "i = jb_id q") (auto simp: mem q(5))
  qed
qed

lemma running_ids_mark:
  "running_ids db - {i} \<subseteq> running_ids (complete_job now i db)"
  "running_ids db - {i} \<subseteq> running_ids (fail_job now i m db)"
  by (force simp: running_ids_def complete_job_def fail_job_def)+

lemma exclusive_mark:
  assumes "exclusive s" and "pc_job (sy_workers s k) = Some i"
    and "running_ids (sy_db s) - {i} \<subseteq> running_ids db'"
  shows "exclusive (s\<lparr>sy_db := db', sy_workers := (sy_workers s)(k := WIdle)\<rparr>)"
proof -
  have "x \<in> running_ids db'" if "pc_job (sy_workers s n) = Some x" "n \<noteq> k" for n x
  proof -
    have "x \<in> running_ids (sy_db s)" "x \<noteq> i" using assms(1,2) that by (auto simp: exclusive_def)
    with assms(3) show ?thesis by blast
  qed
  with assms(1) show ?thesis by (auto simp: exclusive_def)
qed

lemma exclusive_step:
  assumes "queue_step X env dbg emb s l s'" and "queue_ok (sy_db s)" and "exclusive s"
    and "\<And>n. l \<noteq> LReap n"
  shows "exclusive s'"
  using assms(1)
proof (cases rule: queue_step.cases)
  case (ingest_ok k j faults w out t w')
  have "running_ids (tx_commit t) = running_ids (sy_db s)"
    using tokio_job_jobs[OF ingest_ok(4)] by (simp add: running_ids_def)
  moreover have "pc_job (((sy_workers s)(k := WStored (jb_id j))) n) = pc_job (sy_workers s n)" for n
    using ingest_ok(3) by simp
  ultimately show ?thesis using assms(3) unfolding ingest_ok(2) exclusive_def by simp
next
  case (ingest_err k j faults w e t w')
  have "tx_rollback t = sy_db s" using tokio_job_error_rolls_back[OF ingest_err(4)] .
  moreover have "pc_job (((sy_workers s)(k := WErred (jb_id j) (dbg e))) n) = pc_job (sy_workers s n)" for n
    using ingest_err(3) by simp
  ultimately show ?thesis using assms(3) unfolding ingest_err(2) exclusive_def by simp
next
  case (claim k locked j db')
  note r = running_ids_claim[OF assms(2) claim(4)]
  show ?thesis unfolding claim(2) using assms(3) r by (auto simp: exclusive_def)
next
  case (mark_ok k i)
  show ?thesis unfolding mark_ok(2)
    by (rule exclusive_mark[OF assms(3) _ running_ids_mark(1)]) (simp add: mark_ok(3))
next
  case (mark_err k i m)
  show ?thesis unfolding mark_err(2)
    by (rule exclusive_mark[OF assms(3) _ running_ids_mark(2)]) (simp add: mark_err(3))
next
  case (enqueue i src ns strategy payload db')
  then have "running_ids db' = running_ids (sy_db s)"
    by (auto simp: sql_enqueue_def queued_row_def running_ids_def split: if_splits)
  then show ?thesis using assms(3) unfolding enqueue(2) by (simp add: exclusive_def)
next
  case (crash k)
  with assms(3) show ?thesis by (auto simp: exclusive_def)
qed (use assms(3,4) in \<open>auto simp: exclusive_def\<close>)

lemma exclusive_run:
  assumes "queue_run X env dbg emb s ls s'" and "queue_ok (sy_db s)" and "history_ok [] (sy_db s)"
    and "exclusive s" and "\<And>n. LReap n \<notin> set ls"
  shows "exclusive s'"
  using assms(1,5)
proof (induction rule: queue_run.induct)
  case start
  show ?case by (rule assms(4))
next
  case (more ls s1 l s2)
  have "queue_ok (sy_db s1)" using queue_run_ok[OF more.hyps(1) assms(2,3)] by simp
  moreover have "exclusive s1" by (rule more.IH) (use more.prems in auto)
  moreover have "l \<noteq> LReap n" for n using more.prems[of n] by auto
  ultimately show ?case by (rule exclusive_step[OF more.hyps(2)])
qed

section \<open>A poll cycle is a run\<close>

text \<open>The state after a worker took a job, and runs that go on from it and end with the worker idle.\<close>

definition taken :: "sys \<Rightarrow> nat \<Rightarrow> job_row \<Rightarrow> database \<Rightarrow> sys" where
  "taken s k j db1 = s\<lparr>sy_db := db1, sy_workers := (sy_workers s)(k := WClaimed j)\<rparr>"

definition cycle_to :: "pg_ext \<Rightarrow> ('c, 'w) ingest_env \<Rightarrow> (core_error \<Rightarrow> string) \<Rightarrow> 'w embedder \<Rightarrow> sys \<Rightarrow> database \<Rightarrow> bool" where
  "cycle_to X env dbg emb s db' \<longleftrightarrow>
     (\<exists>ls s'. queue_run X env dbg emb s ls s' \<and> sy_db s' = db' \<and> sy_workers s' = sy_workers s
        \<and> claim_count ls \<le> 1 \<and> (\<forall>n. LReap n \<notin> set ls))"

lemma claim_count_simps [simp]:
  "claim_count [] = 0"
  "claim_count (l # ls) = (case l of LClaim _ _ \<Rightarrow> 1 | _ \<Rightarrow> 0) + claim_count ls"
  by (simp_all add: claim_count_def split: label.split)

lemma claim_None_same: "sql_claim locked now db = Inr (None, db') \<Longrightarrow> db' = db"
  by (auto simp: sql_claim_def Let_def split: list.splits if_splits)

lemma run_claim:
  assumes "sy_workers s k = WIdle" and "sql_claim locked (sy_now s) (sy_db s) = Inr (Some j, db1)"
  shows "queue_run X env dbg emb s [LClaim k (jb_id j)] (taken s k j db1)"
  using queue_run.more[OF queue_run.start queue_step.claim[OF assms]] by (simp add: taken_def)

lemma cycle_crash:
  assumes "queue_run X env dbg emb s ls s1" and "sy_workers s1 = (sy_workers s)(k := pc)"
    and "sy_workers s k = WIdle" and "claim_count ls \<le> 1" and "\<And>n. LReap n \<notin> set ls"
  shows "cycle_to X env dbg emb s (sy_db s1)"
proof -
  have "queue_run X env dbg emb s (ls @ [LCrash k]) (s1\<lparr>sy_workers := (sy_workers s1)(k := WIdle)\<rparr>)"
    by (rule queue_run.more[OF assms(1) queue_step.crash])
  moreover have "(sy_workers s1)(k := WIdle) = sy_workers s" using assms(2,3) by auto
  moreover have "claim_count (ls @ [LCrash k]) \<le> 1" using assms(4) by (simp add: claim_count_def)
  ultimately show ?thesis
    unfolding cycle_to_def using assms(5)
    by (intro exI[of _ "ls @ [LCrash k]"] exI[of _ "s1\<lparr>sy_workers := (sy_workers s1)(k := WIdle)\<rparr>"]) auto
qed

lemma cycle_mark:
  assumes "queue_run X env dbg emb s ls s1" and "sy_workers s1 = (sy_workers s)(k := pc)"
    and "sy_workers s k = WIdle" and "claim_count ls \<le> 1" and "\<And>n. LReap n \<notin> set ls" and "sy_now s1 \<le> t2"
    and "pc = WStored i \<and> db' = complete_job t2 i (sy_db s1) \<or> pc = WErred i m \<and> db' = fail_job t2 i m (sy_db s1)"
  shows "cycle_to X env dbg emb s db'"
proof -
  let ?s2 = "s1\<lparr>sy_now := sy_now s1 + (t2 - sy_now s1)\<rparr>"
  let ?s3 = "?s2\<lparr>sy_db := db', sy_workers := (sy_workers ?s2)(k := WIdle)\<rparr>"
  have r2: "queue_run X env dbg emb s (ls @ [LTick (t2 - sy_now s1)]) ?s2"
    by (rule queue_run.more[OF assms(1) queue_step.tick]) (use assms(6) in simp)
  have "queue_step X env dbg emb ?s2 (LMark k) ?s3"
    using assms(7)
  proof (elim disjE conjE)
    assume a: "pc = WStored i" "db' = complete_job t2 i (sy_db s1)"
    with assms(2) have w: "sy_workers ?s2 k = WStored i" by simp
    show ?thesis using queue_step.mark_ok[OF w] a(2) by simp
  next
    assume a: "pc = WErred i m" "db' = fail_job t2 i m (sy_db s1)"
    with assms(2) have w: "sy_workers ?s2 k = WErred i m" by simp
    show ?thesis using queue_step.mark_err[OF w] a(2) by simp
  qed
  then have "queue_run X env dbg emb s ((ls @ [LTick (t2 - sy_now s1)]) @ [LMark k]) ?s3"
    by (rule queue_run.more[OF r2])
  moreover have "sy_workers ?s3 = sy_workers s" using assms(2,3) by auto
  moreover have "claim_count ((ls @ [LTick (t2 - sy_now s1)]) @ [LMark k]) \<le> 1"
    using assms(4) by (simp add: claim_count_def)
  moreover have "LReap n \<notin> set ((ls @ [LTick (t2 - sy_now s1)]) @ [LMark k])" for n using assms(5) by simp
  moreover have "sy_db ?s3 = db'" by simp
  ultimately show ?thesis unfolding cycle_to_def by blast
qed

lemma process_one_cycle:
  assumes "process_one X env dbg cf locked t1 t2 emb (sy_db s, w) = (r, db', w')"
    and "sy_now s = t1" and "t1 \<le> t2" and "sy_workers s k = WIdle"
  shows "cycle_to X env dbg emb s db'"
proof (cases "db' = sy_db s")
  case True
  have "queue_run X env dbg emb s [] s" by (rule queue_run.start)
  with True show ?thesis unfolding cycle_to_def by (intro exI[of _ "[]"] exI[of _ s]) simp
next
  case False
  then obtain j db1 where c: "sql_claim locked t1 (sy_db s) = Inr (Some j, db1)" "cf_connect cf = None" "cf_claim cf = None"
    using assms(1)
    by (auto simp: process_one_def claim_next_job_def split: option.splits sum.splits prod.splits
        dest!: claim_None_same)
  have run1: "queue_run X env dbg emb s [LClaim k (jb_id j)] (taken s k j db1)"
    using assms(2,4) c(1) by (intro run_claim) simp_all
  have id: "cj_id (claimed_of j) = jb_id j" by (simp add: claimed_of_def)
  have crash1: "cycle_to X env dbg emb s db1"
    using cycle_crash[OF run1 _ assms(4), of "WClaimed j"] by (simp add: taken_def)
  show ?thesis
  proof (cases "cf_begin cf")
    case (Some e)
    with assms(1) c show ?thesis using crash1 by (simp add: process_one_def claim_next_job_def Let_def)
  next
    case None
    obtain res t w1 where j: "run_job (tokio_client X) env (build_request (claimed_of j)) emb (mock_llm mock_new)
        (tx_begin (cf_statements cf) db1, w) = (res, (t, w1))"
      by (metis surj_pair)
    have tk: "sy_workers (taken s k j db1) k = WClaimed j" "sy_db (taken s k j db1) = db1" by (simp_all add: taken_def)
    show ?thesis
    proof (cases res)
      case (Inl e)
      let ?s2 = "(taken s k j db1)\<lparr>sy_db := tx_rollback t,
          sy_workers := (sy_workers (taken s k j db1))(k := WErred (jb_id j) (dbg e))\<rparr>"
      have run2: "queue_run X env dbg emb s ([LClaim k (jb_id j)] @ [LIngest k]) ?s2"
        by (rule queue_run.more[OF run1 queue_step.ingest_err[OF tk(1)]]) (use j Inl tk(2) in simp)
      have w2: "sy_workers ?s2 = (sy_workers s)(k := WErred (jb_id j) (dbg e))" by (simp add: taken_def)
      show ?thesis
      proof (cases "cf_mark cf")
        case (Some x)
        have "cycle_to X env dbg emb s (sy_db ?s2)" by (rule cycle_crash[OF run2 w2 assms(4)]) simp_all
        moreover have "db' = sy_db ?s2"
          using assms(1) c None j Inl Some by (simp add: process_one_def claim_next_job_def Let_def)
        ultimately show ?thesis by simp
      next
        case None2: None
        have "db' = fail_job t2 (jb_id j) (dbg e) (sy_db ?s2)"
          using assms(1) c None j Inl None2 by (simp add: process_one_def claim_next_job_def Let_def id)
        then show ?thesis
          by (intro cycle_mark[OF run2 w2 assms(4), of t2 "jb_id j" db' "dbg e"])
             (use assms(2,3) in \<open>simp_all add: taken_def\<close>)
      qed
    next
      case (Inr out)
      let ?s2 = "(taken s k j db1)\<lparr>sy_db := tx_commit t,
          sy_workers := (sy_workers (taken s k j db1))(k := WStored (jb_id j))\<rparr>"
      have run2: "queue_run X env dbg emb s ([LClaim k (jb_id j)] @ [LIngest k]) ?s2"
        by (rule queue_run.more[OF run1 queue_step.ingest_ok[OF tk(1)]]) (use j Inr tk(2) in simp)
      have w2: "sy_workers ?s2 = (sy_workers s)(k := WStored (jb_id j))" by (simp add: taken_def)
      have crash2: "cycle_to X env dbg emb s (tx_commit t)"
        using cycle_crash[OF run2 w2 assms(4)] by simp
      consider "db' = db1" | "db' = tx_commit t" | "db' = complete_job t2 (jb_id j) (sy_db ?s2)"
        using assms(1) c None j Inr
        by (auto simp: process_one_def claim_next_job_def Let_def id split: option.splits prod.splits if_splits)
      then show ?thesis
      proof cases
        case 3
        then show ?thesis
          by (intro cycle_mark[OF run2 w2 assms(4), of t2 "jb_id j" db' "[]"])
             (use assms(2,3) in \<open>simp_all add: taken_def\<close>)
      qed (use crash1 crash2 in simp_all)
    qed
  qed
qed

section \<open>Properties\<close>

text \<open>
  C5 (attempts are bounded): in every interleaving of workers, crashes, sweeps, new jobs and the clock,
  starting from jobs that were never claimed, no job is claimed more than three times, so the number of
  claims is at most three times the number of jobs, and every row stays consistent: queued rows have
  attempts left, running ones were started, finished ones have their time and their error or none.
\<close>

theorem queue_claims_bounded:
  assumes "queue_run X env dbg emb s ls s'" and "queue_ok (sy_db s)" and "history_ok [] (sy_db s)"
  shows "claims_of i ls \<le> 3 \<and> claim_count ls \<le> 3 * length (db_jobs (sy_db s')) \<and> queue_ok (sy_db s')"
  using queue_run_ok[OF assms] claims_bounded by blast

definition demo_sys :: sys where
  "demo_sys = \<lparr>sy_db = demo_queue, sy_now = 5, sy_workers = (\<lambda>_. WIdle)\<rparr>"

lemma demo_sys_ok: "queue_ok (sy_db demo_sys)" "history_ok [] (sy_db demo_sys)"
  by (simp_all add: demo_sys_def demo_queue_def demo_job_def queued_row_def queue_ok_def row_ok_def
      history_ok_def claims_of_def)

lemma demo_first_claim:
  "queue_run X env dbg emb demo_sys [LClaim 0 (Uuid 77)] (taken demo_sys 0 demo_running demo_claimed)"
proof -
  have "jb_id demo_running = Uuid 77" by (simp add: demo_running_def demo_job_def queued_row_def)
  then show ?thesis
    using run_claim[of demo_sys 0 "[]" demo_running demo_claimed X env dbg emb]
    by (simp add: demo_sys_def demo_claim)
qed

theorem queue_claims_bounded_witness:
  "claims_of (Uuid 77) [LClaim 0 (Uuid 77)] \<le> 3 \<and> queue_ok (sy_db (taken demo_sys 0 demo_running demo_claimed))"
  using queue_claims_bounded[OF demo_first_claim[of demo_ext demo_env "\<lambda>_. []" demo_embedder] demo_sys_ok,
      of "Uuid 77"]
  by simp

text \<open>
  C9 (one worker per job): as long as the reaper does not run, no two workers ever hold the same job,
  whatever else happens, and a held job is marked as running.
\<close>

theorem queue_exclusive:
  assumes "queue_run X env dbg emb s ls s'" and "queue_ok (sy_db s)" and "history_ok [] (sy_db s)"
    and "\<And>k. sy_workers s k = WIdle" and "\<And>n. LReap n \<notin> set ls"
    and "pc_job (sy_workers s' k) = Some i" and "pc_job (sy_workers s' k') = Some i"
  shows "k = k' \<and> i \<in> running_ids (sy_db s')"
proof -
  have "exclusive s" using assms(4) by (simp add: exclusive_def)
  from exclusive_run[OF assms(1-3) this assms(5)] assms(6,7) show ?thesis
    unfolding exclusive_def by blast
qed

theorem queue_exclusive_witness:
  "pc_job (sy_workers (taken demo_sys 0 demo_running demo_claimed) 0) = Some (Uuid 77)
   \<and> Uuid 77 \<in> running_ids (sy_db (taken demo_sys 0 demo_running demo_claimed))"
proof -
  have p: "pc_job (sy_workers (taken demo_sys 0 demo_running demo_claimed) 0) = Some (Uuid 77)"
    by (simp add: taken_def demo_running_def demo_job_def queued_row_def)
  have i: "sy_workers demo_sys k = WIdle" for k by (simp add: demo_sys_def)
  show ?thesis
    using queue_exclusive[OF demo_first_claim[of demo_ext demo_env "\<lambda>_. []" demo_embedder] demo_sys_ok i _ p p] p
    by simp
qed


text \<open>
  C8 (poll cycles are runs): whatever faults its connection has, one call of \<open>process_one\<close> by an idle
  worker is a run of the state machine that ends in the same database with the worker idle again, with
  at most one claim and no sweep. So what is shown of all runs holds of the sidecar's workers.
\<close>

theorem process_one_refines:
  assumes "process_one X env dbg cf locked t1 t2 emb (sy_db s, w) = (r, db', w')"
    and "sy_now s = t1" and "t1 \<le> t2" and "sy_workers s k = WIdle"
  shows "\<exists>ls s'. queue_run X env dbg emb s ls s' \<and> sy_db s' = db' \<and> sy_workers s' = sy_workers s
    \<and> claim_count ls \<le> 1 \<and> (\<forall>n. LReap n \<notin> set ls)"
  using process_one_cycle[OF assms] unfolding cycle_to_def .

theorem process_one_refines_witness:
  "\<exists>db' ls s'. process_one demo_ext demo_env (\<lambda>_. []) no_faults [] 5 6 demo_embedder (demo_queue, 0)
       = (Inr (POCompleted (Uuid 77)), db', 2)
     \<and> queue_run demo_ext demo_env (\<lambda>_. []) demo_embedder demo_sys ls s' \<and> sy_db s' = db'"
proof -
  obtain db' where r: "process_one demo_ext demo_env (\<lambda>_. []) no_faults [] 5 6 demo_embedder (sy_db demo_sys, 0)
     = (Inr (POCompleted (Uuid 77)), db', 2)"
    using demo_process_one by (auto simp: demo_sys_def)
  have "sy_workers demo_sys 0 = WIdle" "sy_now demo_sys = 5" by (simp_all add: demo_sys_def)
  with process_one_refines[OF r] r show ?thesis by (auto simp: demo_sys_def)
qed

end
