(* ===== verification/Retrieval.thy ===== *)
theory Retrieval
  imports PgDatabase Rrf Json
begin

text \<open>
  Retrieval. \<open>build_query_sql\<close> (\<^verbatim>\<open>pg_raggraph_core/src/retrieval/query_sql.rs\<close>) is the text of one
  statement; \<open>run_query\<close> is what that statement does on the tables, lane by lane, and \<open>pgrg_query\<close> is
  the SQL function \<^verbatim>\<open>pg_raggraph/src/retrieval.rs\<close> that runs it. The distance of pgvector, text search,
  the jsonb containment and the order of rows no \<open>ORDER BY\<close> fixes are parameters; \<open>ORDER BY\<close> itself
  is exact here, so what an approximate HNSW scan may miss is not modelled. The query embedding has
  the dimension of the columns.
\<close>

section \<open>The statement\<close>

definition gate :: "bool \<Rightarrow> string" where
  "gate on = (if on then '''' else ''false AND '')"

definition build_query_sql :: "mode \<Rightarrow> string" where
  "build_query_sql mode =
     (let vec_gate = gate (uses_vector mode);
          bm_gate = gate (uses_bm25 mode);
          graph_gate = gate (uses_graph mode)
      in ''\<newline>''
      @ ''WITH RECURSIVE\<newline>''
      @ ''  q_emb AS (SELECT pgrg.embed($1) AS v),\<newline>''
      @ ''  vec AS (\<newline>''
      @ ''    SELECT c.id, ROW_NUMBER() OVER (ORDER BY c.embedding <=> (SELECT v FROM q_emb)) AS rk\<newline>''
      @ ''    FROM pgrg.chunks c\<newline>''
      @ ''    WHERE '' @ vec_gate @ ''c.namespace = $4\<newline>''
      @ ''      AND ($2::jsonb IS NULL OR c.metadata @> $2)\<newline>''
      @ ''    ORDER BY c.embedding <=> (SELECT v FROM q_emb) LIMIT 50\<newline>''
      @ ''  ),\<newline>''
      @ ''  bm AS (\<newline>''
      @ ''    SELECT c.id, ROW_NUMBER() OVER (ORDER BY ts_rank_cd(c.text_search, q) DESC) AS rk\<newline>''
      @ ''    FROM pgrg.chunks c, plainto_tsquery('english', $1) q\<newline>''
      @ ''    WHERE '' @ bm_gate @ ''c.text_search @@ q\<newline>''
      @ ''      AND c.namespace = $4\<newline>''
      @ ''      AND ($2::jsonb IS NULL OR c.metadata @> $2)\<newline>''
      @ ''    ORDER BY ts_rank_cd(c.text_search, q) DESC LIMIT 50\<newline>''
      @ ''  ),\<newline>''
      @ ''  seeds AS (\<newline>''
      @ ''    SELECT e.id FROM pgrg.entities e\<newline>''
      @ ''    WHERE e.namespace = $4\<newline>''
      @ ''      AND e.name_emb <=> (SELECT v FROM q_emb) < 0.35\<newline>''
      @ ''    ORDER BY e.name_emb <=> (SELECT v FROM q_emb) LIMIT 8\<newline>''
      @ ''  ),\<newline>''
      @ ''  walked AS (\<newline>''
      @ ''    SELECT id, 0 AS d FROM seeds\<newline>''
      @ ''    UNION ALL\<newline>''
      @ ''    SELECT CASE WHEN r.src_id = w.id THEN r.dst_id ELSE r.src_id END, w.d + 1\<newline>''
      @ ''    FROM pgrg.relationships r JOIN walked w\<newline>''
      @ ''      ON (r.src_id = w.id OR r.dst_id = w.id)\<newline>''
      @ ''    WHERE w.d < $5\<newline>''
      @ ''  ),\<newline>''
      @ ''  graph AS (\<newline>''
      @ ''    SELECT m.chunk_id AS id, ROW_NUMBER() OVER (ORDER BY COUNT(*) DESC) AS rk\<newline>''
      @ ''    FROM pgrg.chunk_entities m\<newline>''
      @ ''    JOIN walked w ON m.entity_id = w.id\<newline>''
      @ ''    JOIN pgrg.chunks c ON c.id = m.chunk_id\<newline>''
      @ ''    WHERE '' @ graph_gate @ ''c.namespace = $4\<newline>''
      @ ''      AND ($2::jsonb IS NULL OR c.metadata @> $2)\<newline>''
      @ ''      AND $5 >= 1\<newline>''
      @ ''    GROUP BY m.chunk_id LIMIT 50\<newline>''
      @ ''  ),\<newline>''
      @ ''  fused AS (\<newline>''
      @ ''    SELECT id, SUM(w * (1.0 / (60 + rk))) AS score,\<newline>''
      @ ''           jsonb_agg(jsonb_build_object('lane', lane, 'rk', rk, 'w', w)) AS sigs\<newline>''
      @ ''    FROM (\<newline>''
      @ ''      SELECT id, rk, 'vec'   AS lane, $6::float8 AS w FROM vec\<newline>''
      @ ''      UNION ALL SELECT id, rk, 'bm25',  $7::float8 FROM bm\<newline>''
      @ ''      UNION ALL SELECT id, rk, 'graph', $8::float8 FROM graph\<newline>''
      @ ''    ) u\<newline>''
      @ ''    GROUP BY id\<newline>''
      @ ''  )\<newline>''
      @ ''SELECT c.id, c.document_id, c.text, f.score::float8 AS score, f.sigs\<newline>''
      @ ''FROM fused f JOIN pgrg.chunks c ON c.id = f.id\<newline>''
      @ ''ORDER BY f.score DESC LIMIT $3\<newline>'')"

section \<open>What it does\<close>

record 'v retr_ext =
  rx_distance :: "f32 list \<Rightarrow> f32 list \<Rightarrow> f64"
  rx_matches :: "string \<Rightarrow> string \<Rightarrow> bool"
  rx_ts_rank :: "string \<Rightarrow> string \<Rightarrow> f32"
  rx_contains :: "chunk_row \<Rightarrow> 'v \<Rightarrow> bool"
  rx_graph_rows :: "(uuid \<times> nat) list \<Rightarrow> (uuid \<times> nat) list"
  rx_fused_rows :: "uuid list \<Rightarrow> uuid list"

text \<open>The order of \<open>float8\<close>: NaN equals itself and is above every number.\<close>

definition sql_float_le :: "fl \<Rightarrow> fl \<Rightarrow> bool" where
  "sql_float_le a b \<longleftrightarrow> b = NaN \<or> a \<noteq> NaN \<and> fle a b"

text \<open>\<open>ROW_NUMBER() OVER (ORDER BY ...)\<close> of rows that are already in that order.\<close>

definition numbered :: "'a list \<Rightarrow> ('a \<times> nat) list" where
  "numbered xs = zip xs [1 ..< Suc (length xs)]"

definition passes :: "'v retr_ext \<Rightarrow> 'v option \<Rightarrow> chunk_row \<Rightarrow> bool" where
  "passes X fil c = (case fil of None \<Rightarrow> True | Some f \<Rightarrow> rx_contains X c f)"

definition vec_lane ::
  "'v retr_ext \<Rightarrow> mode \<Rightarrow> f32 list \<Rightarrow> 'v option \<Rightarrow> string \<Rightarrow> database \<Rightarrow> (uuid \<times> nat) list" where
  "vec_lane X mode q_emb fil ns db =
     take 50 (numbered (map cw_id
       (stable_sort (\<lambda>a b. sql_float_le (rx_distance X (cw_embedding a) q_emb) (rx_distance X (cw_embedding b) q_emb))
          (filter (\<lambda>c. uses_vector mode \<and> cw_namespace c = ns \<and> passes X fil c) (db_chunks db)))))"

definition bm_lane ::
  "'v retr_ext \<Rightarrow> mode \<Rightarrow> string \<Rightarrow> 'v option \<Rightarrow> string \<Rightarrow> database \<Rightarrow> (uuid \<times> nat) list" where
  "bm_lane X mode q fil ns db =
     take 50 (numbered (map cw_id
       (stable_sort (\<lambda>a b. sql_float_le (rx_ts_rank X q (cw_text b)) (rx_ts_rank X q (cw_text a)))
          (filter (\<lambda>c. uses_bm25 mode \<and> rx_matches X q (cw_text c) \<and> cw_namespace c = ns \<and> passes X fil c)
             (db_chunks db)))))"

definition seed_entities :: "'v retr_ext \<Rightarrow> f32 list \<Rightarrow> string \<Rightarrow> database \<Rightarrow> uuid list" where
  "seed_entities X q_emb ns db =
     (let dist = (\<lambda>e. case en_name_emb e of None \<Rightarrow> NaN | Some v \<Rightarrow> rx_distance X v q_emb)
      in take 8 (map en_id
           (stable_sort (\<lambda>a b. sql_float_le (dist a) (dist b))
              (filter (\<lambda>e. en_namespace e = ns \<and> en_name_emb e \<noteq> None
                  \<and> flt (dist e) (rnd binary64 (35 / 100))) (db_entities db)))))"

text \<open>
  The recursive part. Each round of \<open>WITH RECURSIVE ... UNION ALL\<close> joins the rows of the round before;
  it ends at the first round without rows.
\<close>

definition walk_step :: "rel_row list \<Rightarrow> int \<Rightarrow> (uuid \<times> int) list \<Rightarrow> (uuid \<times> int) list" where
  "walk_step rels hops ws =
     concat (map (\<lambda>r. map (\<lambda>(i, d). (if rr_src_id r = i then rr_dst_id r else rr_src_id r, d + 1))
       (filter (\<lambda>(i, d). (rr_src_id r = i \<or> rr_dst_id r = i) \<and> d < hops) ws)) rels)"

definition walk_measure :: "int \<Rightarrow> (uuid \<times> int) list \<Rightarrow> nat" where
  "walk_measure hops ws = Max (insert 0 ((\<lambda>w. nat (hops - snd w)) ` set ws))"

lemma walk_step_iff:
  "(j, d) \<in> set (walk_step rels hops ws) \<longleftrightarrow>
     (\<exists>r \<in> set rels. \<exists>i. (i, d - 1) \<in> set ws \<and> d - 1 < hops
        \<and> (rr_src_id r = i \<and> rr_dst_id r = j \<or> rr_dst_id r = i \<and> rr_src_id r = j))"
  (is "_ = ?R")
proof
  assume "(j, d) \<in> set (walk_step rels hops ws)"
  then show ?R unfolding walk_step_def by (auto split: if_splits) blast+
next
  assume ?R
  then obtain r i where r: "r \<in> set rels" "(i, d - 1) \<in> set ws" "d - 1 < hops"
      "rr_src_id r = i \<and> rr_dst_id r = j \<or> rr_dst_id r = i \<and> rr_src_id r = j" by blast
  then have "(j, d) \<in> (\<lambda>(i, d). (if rr_src_id r = i then rr_dst_id r else rr_src_id r, d + 1)) `
      set (filter (\<lambda>(i, d). (rr_src_id r = i \<or> rr_dst_id r = i) \<and> d < hops) ws)"
    by (intro image_eqI[of _ _ "(i, d - 1)"]) auto
  with r(1) show "(j, d) \<in> set (walk_step rels hops ws)" unfolding walk_step_def by auto
qed

lemma walk_step_less:
  assumes "walk_step rels hops ws \<noteq> []"
  shows "walk_measure hops (walk_step rels hops ws) < walk_measure hops ws"
proof -
  have step: "\<exists>v \<in> set ws. snd w = snd v + 1 \<and> snd v < hops" if "w \<in> set (walk_step rels hops ws)" for w
  proof -
    have "(fst w, snd w) \<in> set (walk_step rels hops ws)" using that by simp
    then show ?thesis unfolding walk_step_iff by (metis add.commute diff_add_cancel snd_conv)
  qed
  have le: "nat (hops - snd v) \<le> walk_measure hops ws" if "v \<in> set ws" for v
    using that by (simp add: walk_measure_def)
  have "n < walk_measure hops ws" if "n \<in> insert 0 ((\<lambda>w. nat (hops - snd w)) ` set (walk_step rels hops ws))" for n
  proof -
    have h: "hd (walk_step rels hops ws) \<in> set (walk_step rels hops ws)" by (rule hd_in_set[OF assms])
    have "\<exists>w. w \<in> set (walk_step rels hops ws) \<and> (n = 0 \<or> n = nat (hops - snd w))"
      using that
    proof (elim insertE imageE)
      assume "n = 0"
      with h show ?thesis by (intro exI conjI disjI1)
    next
      fix w assume "n = nat (hops - snd w)" "w \<in> set (walk_step rels hops ws)"
      then show ?thesis by (intro exI conjI disjI2)
    qed
    then obtain w where w: "w \<in> set (walk_step rels hops ws)" "n = 0 \<or> n = nat (hops - snd w)" by (elim exE conjE)
    with step obtain v where "v \<in> set ws" "snd w = snd v + 1" "snd v < hops" by blast
    with le[of v] w(2) show ?thesis by auto
  qed
  then show ?thesis unfolding walk_measure_def[of _ "walk_step rels hops ws"] by (subst Max_less_iff) auto
qed

function walk :: "rel_row list \<Rightarrow> int \<Rightarrow> (uuid \<times> int) list \<Rightarrow> (uuid \<times> int) list" where
  "walk rels hops ws =
     (let next_ws = walk_step rels hops ws in ws @ (if next_ws = [] then [] else walk rels hops next_ws))"
  by pat_completeness auto
termination
  by (relation "measure (\<lambda>(rels, hops, ws). walk_measure hops ws)") (auto intro: walk_step_less)

declare walk.simps [simp del]

text \<open>\<open>COUNT(*)\<close> of a chunk: the pairs of a link of the chunk and a walked row of its entity.\<close>

definition walk_count :: "chunk_entity_row list \<Rightarrow> (uuid \<times> int) list \<Rightarrow> uuid \<Rightarrow> nat" where
  "walk_count links walked i =
     sum_list (map (\<lambda>m. length (filter (\<lambda>w. fst w = ce_entity_id m) walked))
       (filter (\<lambda>m. ce_chunk_id m = i) links))"

definition graph_lane ::
  "'v retr_ext \<Rightarrow> mode \<Rightarrow> f32 list \<Rightarrow> 'v option \<Rightarrow> string \<Rightarrow> i32 \<Rightarrow> database \<Rightarrow> (uuid \<times> nat) list" where
  "graph_lane X mode q_emb fil ns hops db =
     (let walked = walk (db_relationships db) (sint hops) (map (\<lambda>i. (i, 0)) (seed_entities X q_emb ns db));
          cnt = (\<lambda>c. walk_count (db_chunk_entities db) walked (cw_id c))
      in take 50 (rx_graph_rows X (numbered (map cw_id
           (stable_sort (\<lambda>a b. cnt b \<le> cnt a)
              (filter (\<lambda>c. uses_graph mode \<and> cw_namespace c = ns \<and> passes X fil c \<and> 1 \<le> sint hops \<and> 0 < cnt c)
                 (db_chunks db)))))))"

text \<open>
  \<open>1.0 / (60 + rk)\<close> is a division of \<open>numeric\<close>, which keeps 16 decimals and 4 more for every
  base-10000 digit of the divisor, and is then converted to \<open>float8\<close> for the product with the weight.
\<close>

fun digits10k :: "nat \<Rightarrow> nat" where
  "digits10k n = (if n < 10000 then 1 else 1 + digits10k (n div 10000))"

declare digits10k.simps [simp del]

definition sql_recip :: "nat \<Rightarrow> f64" where
  "sql_recip n =
     (let scale = 10 ^ (16 + 4 * digits10k n)
      in rnd binary64 (of_int \<lfloor>scale / of_nat n + (1 / 2 :: rat)\<rfloor> / scale))"

type_synonym lane_row = "uuid \<times> nat \<times> string \<times> f64"

definition lane_rows :: "string \<Rightarrow> f64 \<Rightarrow> (uuid \<times> nat) list \<Rightarrow> lane_row list" where
  "lane_rows lane w xs = map (\<lambda>(i, rk). (i, rk, lane, w)) xs"

definition lane_score :: "lane_row \<Rightarrow> f64" where
  "lane_score u = (case u of (i, rk, lane, w) \<Rightarrow> fmul binary64 w (sql_recip (60 + rk)))"

text \<open>\<open>SUM\<close> starts from the first row of the group.\<close>

fun sql_sum :: "f64 list \<Rightarrow> f64" where
  "sql_sum [] = NaN"
| "sql_sum (x # xs) = foldl (fadd binary64) x xs"

record query_row =
  qr_chunk_id :: uuid
  qr_document_id :: uuid
  qr_text :: string
  qr_score :: f64
  qr_signals :: "(string \<times> nat \<times> f64) list"

definition union_lanes ::
  "'v retr_ext \<Rightarrow> mode \<Rightarrow> string \<Rightarrow> f32 list \<Rightarrow> 'v option \<Rightarrow> string \<Rightarrow> i32 \<Rightarrow> rrf_weights \<Rightarrow> database
     \<Rightarrow> lane_row list" where
  "union_lanes X mode q q_emb fil ns hops w db =
     lane_rows ''vec'' (w_vec w) (vec_lane X mode q_emb fil ns db)
     @ lane_rows ''bm25'' (w_bm25 w) (bm_lane X mode q fil ns db)
     @ lane_rows ''graph'' (w_graph w) (graph_lane X mode q_emb fil ns hops db)"

definition fused_row :: "lane_row list \<Rightarrow> chunk_row \<Rightarrow> query_row" where
  "fused_row u c =
     (let g = filter (\<lambda>x. fst x = cw_id c) u
      in \<lparr>qr_chunk_id = cw_id c, qr_document_id = cw_document_id c, qr_text = cw_text c,
          qr_score = sql_sum (map lane_score g),
          qr_signals = map (\<lambda>(i, rk, lane, w). (lane, rk, w)) g\<rparr>)"

definition fused_rows :: "'v retr_ext \<Rightarrow> lane_row list \<Rightarrow> database \<Rightarrow> query_row list" where
  "fused_rows X u db =
     concat (map (\<lambda>i. map (fused_row u) (filter (\<lambda>c. cw_id c = i) (db_chunks db)))
       (rx_fused_rows X (remdups (map fst u))))"

definition run_query ::
  "'v retr_ext \<Rightarrow> mode \<Rightarrow> string \<Rightarrow> f32 list \<Rightarrow> 'v option \<Rightarrow> int \<Rightarrow> string \<Rightarrow> i32 \<Rightarrow> rrf_weights \<Rightarrow> database
     \<Rightarrow> sql_error + query_row list" where
  "run_query X mode q q_emb fil top_k ns hops w db =
     (if top_k < 0 then Inl (DataException ''LIMIT must not be negative'')
      else Inr (take (nat top_k) (stable_sort (\<lambda>a b. sql_float_le (qr_score b) (qr_score a))
        (fused_rows X (union_lanes X mode q q_emb fil ns hops w db) db))))"

section \<open>The SQL function\<close>

definition weight_of_json :: "'v json_api \<Rightarrow> 'v \<Rightarrow> string \<Rightarrow> f64" where
  "weight_of_json J v lane = fmax (unwrap_or (Fin 1) (js_as_f64 J (js_key J v lane))) (Fin 0)"

definition query_weights :: "'v json_api \<Rightarrow> 'v option \<Rightarrow> rrf_weights" where
  "query_weights J weights =
     (case weights of
        None \<Rightarrow> rrf_weights_default
      | Some v \<Rightarrow> \<lparr>w_vec = weight_of_json J v ''vec'', w_bm25 = weight_of_json J v ''bm25'',
                   w_graph = weight_of_json J v ''graph''\<rparr>)"

text \<open>\<open>embed_fn\<close> is \<open>pgrg.embed\<close>; \<open>ereport!(ERROR)\<close> and a failed statement are the left of the sum.\<close>

definition pgrg_query ::
  "'v json_api \<Rightarrow> 'v retr_ext \<Rightarrow> (string \<Rightarrow> string + f32 list) \<Rightarrow> (sql_error \<Rightarrow> string)
     \<Rightarrow> string \<Rightarrow> 'v option \<Rightarrow> i32 \<Rightarrow> string \<Rightarrow> i32 \<Rightarrow> 'v option \<Rightarrow> string \<Rightarrow> database
     \<Rightarrow> string + query_row list" where
  "pgrg_query J X embed_fn render q fil top_k ns hops weights mode db =
     (let w = query_weights J weights
      in case mode_parse mode of
           None \<Rightarrow> Inl (''pgrg.query: unknown mode `'' @ mode
             @ ''`; expected hybrid | vector | bm25 | graph'')
         | Some m \<Rightarrow>
             (case embed_fn q of
                Inl e \<Rightarrow> Inl e
              | Inr q_emb \<Rightarrow> map_sum render id (run_query X m q q_emb fil (sint top_k) ns hops w db)))"

section \<open>Facts\<close>

text \<open>The division in \<open>numeric\<close> and the one in \<open>float8\<close> round to the same value for every rank of a lane.\<close>

lemma rat_exp_eq:
  assumes "2 powi e \<le> x" and "x < 2 powi (e + 1)"
  shows "rat_exp x = e"
proof -
  have "0 < x" using assms(1) powi2_pos[of e] by linarith
  then have "2 powi rat_exp x \<le> x" "x < 2 powi (rat_exp x + 1)" using rat_exp_bounds[of x] by simp_all
  with assms have "e < rat_exp x + 1" "rat_exp x < e + 1"
    by (metis order.strict_trans1 powi2_less_iff)+
  then show ?thesis by simp
qed

lemma rhe_eq: "\<bar>r - of_int m\<bar> < 1 / 2 \<Longrightarrow> rhe r = m"
  using rhe_near[of r] by linarith

lemma rnd_value:
  assumes "2 powi e \<le> x" "x < 2 powi (e + 1)" and "qmin f \<le> e - int (prec f) + 1"
    and "\<bar>x / 2 powi (e - int (prec f) + 1) - of_int m\<bar> < 1 / 2" and "0 < m" "m < 2 ^ prec f"
    and "e < emax f"
  shows "rnd f x = Fin (of_int m * 2 powi (e - int (prec f) + 1))"
    and "rnd f (of_int m * 2 powi (e - int (prec f) + 1)) = Fin (of_int m * 2 powi (e - int (prec f) + 1))"
proof -
  let ?q = "e - int (prec f) + 1" and ?y = "of_int m * 2 powi (e - int (prec f) + 1) :: rat"
  have "0 < x" using assms(1) powi2_pos[of e] by linarith
  have y: "0 < ?y" using assms(5) by simp
  have "(of_int m :: rat) < of_int (2 ^ prec f)" using assms(6) by (simp only: of_int_less_iff)
  then have "?y < 2 powi int (prec f) * 2 powi ?q" by simp
  also have "\<dots> = 2 powi (e + 1)" by (simp only: powi2_add[symmetric]) simp
  also have "\<dots> \<le> 2 powi (emax f + 1)" using assms(7) by (simp only: powi2_le_iff)
  finally have big: "\<bar>?y\<bar> < 2 powi (emax f + 1)" using y by simp
  show "rnd f ?y = Fin ?y"
    by (rule rnd_exact[OF refl _ assms(3) big]) (use assms(5,6) in simp)
  have "quantum_exp f x = ?q" using assms(3) by (simp add: quantum_exp_def rat_exp_eq[OF assms(1,2)])
  then have "rnd_val f x = ?y" using rhe_eq[OF assms(4)] by (simp add: rnd_val_def)
  then show "rnd f x = Fin ?y" using \<open>0 < x\<close> y big by (simp add: rnd_def)
qed

definition recip_check :: "int \<Rightarrow> bool" where
  "recip_check n =
     (let s = (if n \<le> 64 then 6 else 7); big = 2 ^ (52 + s);
          m = (2 * big + n) div (2 * n); k = (2 * 10 ^ 20 + n) div (2 * n)
      in 0 < m \<and> m < 2 ^ 53 \<and> n \<le> 2 ^ s \<and> 2 ^ s < 2 * n \<and> 10 ^ 20 \<le> k * 2 ^ s \<and> k * 2 ^ s < 2 * 10 ^ 20
         \<and> \<bar>2 * big - 2 * (m * n)\<bar> < n \<and> \<bar>2 * (k * big) - 2 * (m * 10 ^ 20)\<bar> < 10 ^ 20)"

lemma recip_table: "list_all recip_check [61 .. 110]"
  by code_simp

lemma half_apart: "\<bar>2 * b - 2 * (m * n)\<bar> < n \<Longrightarrow> 0 < n \<Longrightarrow> \<bar>b / n - m\<bar> < 1 / 2" for b m n :: rat
proof -
  assume a: "\<bar>2 * b - 2 * (m * n)\<bar> < n" "0 < n"
  then have "b / n - m = (2 * b - 2 * (m * n)) / (2 * n)" by (simp add: field_simps)
  then show ?thesis using a by (simp only: abs_divide) (simp add: pos_divide_less_eq)
qed

lemma recip_check_sound:
  assumes "recip_check (int n)" and "0 < n" and "n < 10000"
  obtains r where "0 < r" "sql_recip n = Fin r" "rnd binary64 (1 / of_nat n) = Fin r" "rnd binary64 r = Fin r"
proof -
  define s :: nat where "s = (if n \<le> 64 then 6 else 7)"
  define m where "m = (2 * 2 ^ (52 + s) + int n) div (2 * int n)"
  define k where "k = (2 * 10 ^ 20 + int n) div (2 * int n)"
  have m: "0 < m" "m < 2 ^ prec binary64" and c: "int n \<le> 2 ^ s" "2 ^ s < 2 * int n" "10 ^ 20 \<le> k * 2 ^ s" "k * 2 ^ s < 2 * 10 ^ 20"
      "\<bar>2 * 2 ^ (52 + s) - 2 * (m * int n)\<bar> < int n" "\<bar>2 * (k * 2 ^ (52 + s)) - 2 * (m * 10 ^ 20)\<bar> < 10 ^ 20"
    using assms(1) by (simp_all add: recip_check_def Let_def s_def m_def k_def binary64_def split: if_splits)
  have le: "(of_int a :: rat) \<le> of_int b" if "a \<le> b" for a b using that by (simp only: of_int_le_iff)
  have less: "(of_int a :: rat) < of_int b" if "a < b" for a b using that by (simp only: of_int_less_iff)
  note r = le[OF c(1)] less[OF c(2)] le[OF c(3)] less[OF c(4)] less[OF c(5)] less[OF c(6)]
  note r = r[unfolded of_int_mult of_int_diff of_int_power of_int_numeral of_int_of_nat_eq of_int_abs]
  have n0: "(0 :: rat) < of_nat n" using assms(2) by simp
  have p: "2 powi (- int s) = 1 / (2 :: rat) ^ s" "2 powi (- int s + 1) = 2 / (2 :: rat) ^ s"
      "2 powi (- int s - 52) = 1 / (2 :: rat) ^ (52 + s)"
    by (simp_all add: power_int_minus power_int_add power_int_diff field_simps power_add)
  have q: "- int s - int (prec binary64) + 1 = - int s - 52" by (simp add: binary64_def)
  have range: "qmin binary64 \<le> - int s - int (prec binary64) + 1" "- int s < emax binary64"
    by (simp_all add: binary64_def s_def)
  have recip: "sql_recip n = rnd binary64 (of_int \<lfloor>10 ^ 20 / of_nat n + (1 / 2 :: rat)\<rfloor> / 10 ^ 20)"
    using assms(3) by (simp add: sql_recip_def Let_def digits10k.simps[of n])
  have "(10 :: rat) ^ 20 / of_nat n + 1 / 2 = of_int (2 * 10 ^ 20 + int n) / of_int (2 * int n)"
    using n0 by (simp add: field_simps)
  then have k: "sql_recip n = rnd binary64 (of_int k / 10 ^ 20)"
    unfolding recip k_def by (simp only: floor_divide_of_int_eq)
  have "\<bar>of_int k / 10 ^ 20 / (1 / 2 ^ (52 + s)) - of_int m\<bar> < 1 / (2 :: rat)"
    using half_apart[OF r(6)] by simp
  moreover have "2 powi (- int s) \<le> of_int k / (10 :: rat) ^ 20" "of_int k / (10 :: rat) ^ 20 < 2 powi (- int s + 1)"
    unfolding p using r(3,4) by (simp_all add: field_simps)
  ultimately have a: "rnd binary64 (of_int k / 10 ^ 20) = Fin (of_int m * 2 powi (- int s - 52))"
    using rnd_value(1)[OF _ _ range(1) _ m range(2)] unfolding q p by blast
  have "\<bar>1 / of_nat n / (1 / 2 ^ (52 + s)) - of_int m\<bar> < 1 / (2 :: rat)"
    using half_apart[OF r(5) n0] by simp
  moreover have "2 powi (- int s) \<le> 1 / (of_nat n :: rat)" "1 / (of_nat n :: rat) < 2 powi (- int s + 1)"
    unfolding p using r(1,2) n0 by (simp_all add: field_simps)
  ultimately have b: "rnd binary64 (1 / of_nat n) = Fin (of_int m * 2 powi (- int s - 52))"
      "rnd binary64 (of_int m * 2 powi (- int s - 52)) = Fin (of_int m * 2 powi (- int s - 52))"
    using rnd_value[OF _ _ range(1) _ m range(2)] unfolding q p by blast+
  show thesis
    by (rule that[of "of_int m * 2 powi (- int s - 52)"]) (use a b k m in simp_all)
qed

lemma recip_value:
  assumes "1 \<le> n" and "n \<le> 50"
  obtains r where "0 < r" "sql_recip (60 + n) = Fin r" "rnd binary64 (1 / of_nat (60 + n)) = Fin r"
    "rnd binary64 r = Fin r"
proof (rule recip_check_sound)
  show "recip_check (int (60 + n))"
    using recip_table assms unfolding list_all_iff set_upto by auto
qed (use that assms in simp_all)

section \<open>Sorting by \<open>float8\<close>\<close>

lemma sql_float_le_total: "sql_float_le a b \<or> sql_float_le b a"
  using fle_total by (auto simp: sql_float_le_def)

lemma sql_float_le_trans: "sql_float_le a b \<Longrightarrow> sql_float_le b c \<Longrightarrow> sql_float_le a c"
  using fle_trans by (auto simp: sql_float_le_def)

lemma sql_float_le_refl [simp]: "sql_float_le a a"
  using sql_float_le_total by blast

interpretation by_score: sort_order "\<lambda>a b. sql_float_le (qr_score b) (qr_score a)" UNIV
  by unfold_locales (use sql_float_le_total sql_float_le_trans in blast)+

section \<open>Lanes\<close>

lemma numbered_length [simp]: "length (numbered xs) = length xs"
  by (simp add: numbered_def del: upt_Suc)

lemma numbered_fst [simp]: "map fst (numbered xs) = xs"
  by (simp add: numbered_def del: upt_Suc)

lemma numbered_mem: "(x, n) \<in> set (numbered xs) \<Longrightarrow> x \<in> set xs \<and> 1 \<le> n \<and> n \<le> length xs"
  unfolding numbered_def by (auto dest: set_zip_leftD set_zip_rightD simp del: upt_Suc)

lemma take_numbered: "take k (numbered xs) = numbered (take k xs)"
  by (simp add: numbered_def take_zip min_def del: upt_Suc)

text \<open>What the statement's unordered parts may return.\<close>

definition retr_ok :: "'v retr_ext \<Rightarrow> bool" where
  "retr_ok X \<longleftrightarrow> (\<forall>xs. mset (rx_graph_rows X xs) = mset xs) \<and> (\<forall>is. mset (rx_fused_rows X is) = mset is)"

text \<open>A lane of a query: at most 50 chunks, each once, of the namespace, that pass the filter.\<close>

definition lane_ok :: "'v retr_ext \<Rightarrow> 'v option \<Rightarrow> string \<Rightarrow> database \<Rightarrow> (uuid \<times> nat) list \<Rightarrow> bool" where
  "lane_ok X fil ns db xs \<longleftrightarrow> length xs \<le> 50 \<and> distinct (map fst xs)
     \<and> fst ` set xs \<subseteq> cw_id ` {c \<in> set (db_chunks db). cw_namespace c = ns \<and> passes X fil c}"

lemma lane_okI:
  assumes "distinct (map cw_id (db_chunks db))" and "mset ys = mset (numbered (map cw_id cs))"
    and "mset cs = mset (filter P (db_chunks db))"
    and "\<And>c. P c \<Longrightarrow> cw_namespace c = ns \<and> passes X fil c"
  shows "lane_ok X fil ns db (take 50 ys)"
proof -
  have "set cs = {c \<in> set (db_chunks db). P c}"
    using assms(3) by (metis mset_eq_setD set_filter)
  moreover have "set (map fst ys) = cw_id ` set cs" "mset (map fst ys) = mset (map cw_id cs)"
    using assms(2) by (metis list.set_map mset_eq_setD numbered_fst, metis mset_map numbered_fst)
  moreover have "distinct (map cw_id cs)"
    using assms(1,3) by (metis distinct_map_filter mset_eq_imp_distinct_iff mset_map)
  ultimately have "distinct (map fst ys)" "fst ` set ys \<subseteq>
      cw_id ` {c \<in> set (db_chunks db). cw_namespace c = ns \<and> passes X fil c}"
    using assms(4) by (metis mset_eq_imp_distinct_iff, auto)
  then show ?thesis unfolding lane_ok_def by (auto simp: take_map[symmetric] dest: in_set_takeD)
qed

lemma lane_ok_distinct: "lane_ok X fil ns db xs \<Longrightarrow> distinct (map fst xs)"
  by (simp add: lane_ok_def)

lemma lanes_ok:
  assumes "retr_ok X" and "distinct (map cw_id (db_chunks db))"
  shows "lane_ok X fil ns db (vec_lane X mode q_emb fil ns db)"
    and "lane_ok X fil ns db (bm_lane X mode q fil ns db)"
    and "lane_ok X fil ns db (graph_lane X mode q_emb fil ns hops db)"
proof -
  have X: "mset (rx_graph_rows X xs) = mset xs" for xs using assms(1) by (simp add: retr_ok_def)
  show "lane_ok X fil ns db (vec_lane X mode q_emb fil ns db)" unfolding vec_lane_def
    by (rule lane_okI[OF assms(2) refl mset_stable_sort]) blast
  show "lane_ok X fil ns db (bm_lane X mode q fil ns db)" unfolding bm_lane_def
    by (rule lane_okI[OF assms(2) refl mset_stable_sort]) blast
  show "lane_ok X fil ns db (graph_lane X mode q_emb fil ns hops db)" unfolding graph_lane_def Let_def
    by (rule lane_okI[OF assms(2) X mset_stable_sort]) blast
qed

section \<open>Walks\<close>

definition linked :: "rel_row list \<Rightarrow> (uuid \<times> uuid) set" where
  "linked rels = {(i, j). \<exists>r \<in> set rels. rr_src_id r = i \<and> rr_dst_id r = j \<or> rr_dst_id r = i \<and> rr_src_id r = j}"

lemma walk_step_linked:
  "(j, d) \<in> set (walk_step rels hops ws) \<longleftrightarrow> d \<le> hops \<and> (\<exists>i. (i, d - 1) \<in> set ws \<and> (i, j) \<in> linked rels)"
  unfolding walk_step_iff linked_def by auto blast+

lemma walk_iff:
  "(j, d) \<in> set (walk rels hops ws) \<longleftrightarrow>
     (\<exists>i e. (i, e) \<in> set ws \<and> e \<le> d \<and> (d = e \<or> d \<le> hops) \<and> (i, j) \<in> linked rels ^^ nat (d - e))"
  (is "_ \<longleftrightarrow> ?R ws")
proof (induction rels hops ws rule: walk.induct)
  case (1 rels hops ws)
  let ?next = "walk_step rels hops ws"
  let ?R = "\<lambda>ws. \<exists>i e. (i, e) \<in> set ws \<and> e \<le> d \<and> (d = e \<or> d \<le> hops) \<and> (i, j) \<in> linked rels ^^ nat (d - e)"
  have later: "(j, d) \<in> set (if ?next = [] then [] else walk rels hops ?next) \<longleftrightarrow> ?R ?next"
    using 1 by (cases "?next = []") simp_all
  have "(j, d) \<in> set ws \<or> ?R ?next \<longleftrightarrow> ?R ws"
  proof -
    have "?R ws" if "(j, d) \<in> set ws"
      using that by (intro exI[of _ j] exI[of _ d]) simp
    moreover have "?R ws" if e: "(k, e) \<in> set ?next" "e \<le> d" "d = e \<or> d \<le> hops" "(k, j) \<in> linked rels ^^ nat (d - e)" for k e
    proof -
      from e(1) obtain i where i: "(i, e - 1) \<in> set ws" "(i, k) \<in> linked rels" "e \<le> hops"
        unfolding walk_step_linked by blast
      have "nat (d - (e - 1)) = Suc (nat (d - e))" using e(2) by simp
      with relpow_Suc_I2[OF i(2) e(4)] i e(2,3) show "?R ws"
        by (intro exI[of _ i] exI[of _ "e - 1"]) auto
    qed
    moreover have "(j, d) \<in> set ws \<or> ?R ?next" if e: "(i, e) \<in> set ws" "e \<le> d" "d = e \<or> d \<le> hops" "(i, j) \<in> linked rels ^^ nat (d - e)" for i e
    proof (cases "d = e")
      case True
      with e show ?thesis by simp
    next
      case False
      with e(2) have n: "nat (d - e) = Suc (nat (d - (e + 1)))" by simp
      from e(4) obtain k where k: "(i, k) \<in> linked rels" "(k, j) \<in> linked rels ^^ nat (d - (e + 1))"
        unfolding n by (rule relpow_Suc_E2)
      have "(k, e + 1) \<in> set ?next"
        unfolding walk_step_linked using e k(1) False by auto
      with k(2) e False show ?thesis by (intro disjI2 exI[of _ k] exI[of _ "e + 1"]) auto
    qed
    ultimately show ?thesis by blast
  qed
  then show ?case unfolding walk.simps[of rels hops ws] Let_def set_append Un_iff later .
qed

text \<open>
  C20 (graph expansion): the recursive query ends, and its rows are exactly the entities at the end of a
  walk of \<open>d\<close> relationships, in either direction, from a seed entity, for every \<open>d\<close> up to \<open>hops\<close>; with
  \<open>hops\<close> zero or negative only the seeds are left.
\<close>

theorem walk_reaches:
  "(j, d) \<in> set (walk rels hops (map (\<lambda>i. (i, 0)) seeds)) \<longleftrightarrow>
     0 \<le> d \<and> (d = 0 \<or> d \<le> hops) \<and> (\<exists>s. s \<in> set seeds \<and> (s, j) \<in> linked rels ^^ nat d)"
proof -
  have "(i, e) \<in> set (map (\<lambda>i. (i, 0)) seeds) \<longleftrightarrow> i \<in> set seeds \<and> e = 0" for i and e :: int by auto
  then show ?thesis unfolding walk_iff by auto
qed

section \<open>Scores\<close>

text \<open>The scores that occur: not NaN, not negative, not the negative zero.\<close>

definition proper :: "f64 \<Rightarrow> bool" where
  "proper a \<longleftrightarrow> fnonneg a \<and> a \<noteq> NZero"

lemma proper_cases: "proper a \<Longrightarrow> a = PInf \<or> (\<exists>x. a = Fin x \<and> 0 \<le> x)"
  by (cases a) (auto simp: proper_def fnonneg_def)

lemma proper_Fin [simp]: "proper (Fin x) \<longleftrightarrow> 0 \<le> x" "proper PInf"
  by (auto simp: proper_def fnonneg_def)

lemma proper_rnd: "0 \<le> x \<Longrightarrow> proper (rnd binary64 x)"
  using rnd_nonneg[OF _ prec_pos(2), of x] by (auto simp: proper_def fnonneg_def rnd_def Let_def)

lemma proper_add: "proper a \<Longrightarrow> proper b \<Longrightarrow> proper (fadd binary64 a b)"
  by (auto dest!: proper_cases intro!: proper_rnd)

lemma proper_antisym: "proper a \<Longrightarrow> proper b \<Longrightarrow> fle a b \<Longrightarrow> fle b a \<Longrightarrow> a = b"
  by (auto dest!: proper_cases)

lemma fadd_zero_left: "proper a \<Longrightarrow> is_fl binary64 a \<Longrightarrow> fadd binary64 (Fin 0) a = a"
  by (auto dest!: proper_cases simp: is_fl_def)

text \<open>Two descending arrangements of the same scores are equal.\<close>

lemma sorted_wrt_unique:
  assumes "mset xs = mset ys" and "sorted_wrt R xs" and "sorted_wrt R ys"
    and "\<And>x y. x \<in> set xs \<Longrightarrow> y \<in> set xs \<Longrightarrow> R x y \<Longrightarrow> R y x \<Longrightarrow> x = y"
  shows "xs = ys"
  using assms
proof (induction xs arbitrary: ys)
  case Nil
  then show ?case by simp
next
  case (Cons x xs)
  then obtain y zs where ys: "ys = y # zs" by (metis mset_zero_iff_right neq_Nil_conv)
  have set: "set (x # xs) = set (y # zs)" using Cons.prems(1) ys by (metis mset_eq_setD)
  have "x = y"
  proof (rule ccontr)
    assume "x \<noteq> y"
    with set have "y \<in> set xs" "x \<in> set zs" by auto
    with Cons.prems(2,3) ys have "R x y" "R y x" by auto
    with Cons.prems(4) \<open>y \<in> set xs\<close> \<open>x \<noteq> y\<close> show False by auto
  qed
  with Cons ys show ?case by auto
qed

lemma less_digits10k: "n < 10000 ^ digits10k n"
proof (induction n rule: digits10k.induct)
  case (1 n)
  show ?case
  proof (cases "n < 10000")
    case True
    then show ?thesis by (simp add: digits10k.simps)
  next
    case False
    then have "n div 10000 < 10000 ^ digits10k (n div 10000)" using 1 by simp
    then have "n < 10000 ^ digits10k (n div 10000) * 10000" by (simp add: less_mult_imp_div_less div_less_iff_less_mult)
    with False show ?thesis by (simp add: digits10k.simps[of n])
  qed
qed

lemma floor_half: "1 \<le> z \<Longrightarrow> z / 2 \<le> of_int \<lfloor>z + 1 / 2\<rfloor>" "of_int \<lfloor>z + 1 / 2\<rfloor> \<le> z + 1 / 2" for z :: rat
  by linarith+

lemma sql_recip_pos:
  assumes "0 < n" and "n < 2 ^ 61"
  obtains r where "sql_recip n = Fin r" "0 < r"
proof -
  define c :: rat where "c = 10 ^ (16 + 4 * digits10k n)"
  let ?k = "\<lfloor>c / of_nat n + (1 / 2 :: rat)\<rfloor>"
  have "(of_nat n :: rat) \<le> of_nat (10000 ^ digits10k n)"
    using less_digits10k[of n] by (simp only: of_nat_le_iff less_imp_le)
  also have "\<dots> \<le> c" by (simp add: c_def power_add power_mult)
  finally have one: "1 \<le> c / of_nat n" using assms(1) by simp
  note k = floor_half(1)[OF one]
  have c: "0 < c" by (simp add: c_def)
  have n: "(0 :: rat) < of_nat n" "(of_nat n :: rat) < of_nat (2 ^ 61)"
    using assms by (simp_all only: of_nat_less_iff of_nat_0_less_iff)
  have "1 / 2 ^ 62 \<le> 1 / (2 * of_nat n :: rat)" using n by (intro divide_left_mono) simp_all
  also have "\<dots> \<le> of_int ?k / c" using k c n by (simp add: field_simps)
  finally have lo: "1 / 2 ^ 62 \<le> of_int ?k / c" .
  have "of_int ?k \<le> c / of_nat n + 1 / 2" by (rule floor_half(2))
  also have "\<dots> \<le> 2 * c" proof -
    have "c / of_nat n \<le> c / 1" using c assms(1) by (intro divide_left_mono) simp_all
    with one show ?thesis by simp
  qed
  finally have "of_int ?k / c \<le> 2" using c by (simp add: divide_le_eq)
  with lo have "fle (rnd binary64 (1 / 2 ^ 62)) (rnd binary64 (of_int ?k / c))"
      "fle (rnd binary64 (of_int ?k / c)) (rnd binary64 2)"
    by (intro rnd_mono; simp)+
  moreover have "rnd binary64 (1 / 2 ^ 62) = Fin (1 / 2 ^ 62)"
  proof (rule rnd_exact[where m = 1 and e = "- 62"])
    have "(2 :: rat) powi (- 62) = inverse (2 powi 62)" by (rule power_int_minus)
    also have "(2 :: rat) powi 62 = 2 ^ 62" by (rule power_int_numeral)
    finally show "1 / 2 ^ 62 = of_int 1 * (2 :: rat) powi (- 62)" by (simp only: of_int_1 mult_1 inverse_eq_divide)
    have "(1 :: rat) / 2 ^ 62 < 1" by simp
    also have "\<dots> < 2 powi (emax binary64 + 1)" using powi2_less_iff[of 0 "emax binary64 + 1"] by (simp add: binary64_def)
    finally show "\<bar>1 / 2 ^ 62\<bar> < (2 :: rat) powi (emax binary64 + 1)" by simp
  qed (simp_all add: binary64_def)
  moreover have "rnd binary64 2 = Fin 2" using rnd64_int[of 2] by simp
  ultimately obtain r where r: "rnd binary64 (of_int ?k / c) = Fin r" "1 / 2 ^ 62 \<le> r"
    by (cases "rnd binary64 (of_int ?k / c)") simp_all
  have "sql_recip n = Fin r" using r(1) by (simp only: sql_recip_def Let_def c_def)
  moreover have "(0 :: rat) < 1 / 2 ^ 62" by simp
  then have "0 < r" using r(2) by (rule order.strict_trans2)
  ultimately show thesis by (rule that)
qed

lemma lane_score_fnonneg:
  assumes "fnonneg w" and "rk < 2 ^ 60"
  shows "fnonneg (lane_score (i, rk, lane, w))"
proof -
  obtain r where "sql_recip (60 + rk) = Fin r" "0 < r"
    using sql_recip_pos[of "60 + rk"] assms(2) by auto
  then show ?thesis using assms(1) rnd_nonneg[OF _ prec_pos(2), of "fval w * r"]
    by (cases w) (auto simp: lane_score_def fmul_def fnonneg_def is_zero_def inf_of_def zero_of_def)
qed

lemma sql_sum_fnonneg: "xs \<noteq> [] \<Longrightarrow> list_all fnonneg xs \<Longrightarrow> fnonneg (sql_sum xs)"
proof (cases xs)
  case (Cons x ys)
  moreover assume "list_all fnonneg xs"
  moreover have "fnonneg a \<Longrightarrow> list_all fnonneg ys \<Longrightarrow> fnonneg (foldl (fadd binary64) a ys)" for a
    by (induction ys arbitrary: a) (simp_all add: fnonneg_add)
  ultimately show ?thesis by simp
qed simp

section \<open>The rows of a query\<close>

definition lane_on :: "mode \<Rightarrow> i32 \<Rightarrow> string \<Rightarrow> bool" where
  "lane_on m hops lane \<longleftrightarrow> lane = ''vec'' \<and> uses_vector m \<or> lane = ''bm25'' \<and> uses_bm25 m
     \<or> lane = ''graph'' \<and> uses_graph m \<and> 1 \<le> sint hops"

lemma lanes_off:
  assumes "retr_ok X"
  shows "\<not> uses_vector m \<Longrightarrow> vec_lane X m v fil ns db = []"
    and "\<not> uses_bm25 m \<Longrightarrow> bm_lane X m q fil ns db = []"
    and "\<not> (uses_graph m \<and> 1 \<le> sint hops) \<Longrightarrow> graph_lane X m v fil ns hops db = []"
proof -
  have X: "rx_graph_rows X [] = []" using assms by (auto simp: retr_ok_def dest: spec[of _ "[]"])
  show "\<not> uses_vector m \<Longrightarrow> vec_lane X m v fil ns db = []" by (simp add: vec_lane_def numbered_def)
  show "\<not> uses_bm25 m \<Longrightarrow> bm_lane X m q fil ns db = []" by (simp add: bm_lane_def numbered_def)
  show "\<not> (uses_graph m \<and> 1 \<le> sint hops) \<Longrightarrow> graph_lane X m v fil ns hops db = []"
    by (simp only: graph_lane_def Let_def) (cases "1 \<le> sint hops"; simp add: numbered_def X)
qed

lemma lane_rows_simps [simp]:
  "(i, rk, l, x) \<in> set (lane_rows lane w xs) \<longleftrightarrow> l = lane \<and> x = w \<and> (i, rk) \<in> set xs"
  "fst ` set (lane_rows lane w xs) = fst ` set xs"
  "map fst (lane_rows lane w xs) = map fst xs"
  by (force simp: lane_rows_def image_iff)+

lemma filter_key_length:
  "distinct (map fst xs) \<Longrightarrow> length (filter (\<lambda>x. fst x = i) xs) \<le> 1"
proof (induction xs)
  case (Cons x xs)
  from Cons.prems have "fst x \<notin> fst ` set xs" by simp
  then have "filter (\<lambda>y. fst y = fst x) xs = []" by (metis (mono_tags, lifting) filter_False image_eqI)
  with Cons show ?case by auto
qed simp

text \<open>The rows of the union, for an execution whose unordered parts are permutations.\<close>

lemma union_facts:
  assumes X: "retr_ok X" and d: "distinct (map cw_id (db_chunks db))"
    and u: "u = union_lanes X m q v fil ns hops w db"
  shows "fst ` set u \<subseteq> cw_id ` {c \<in> set (db_chunks db). cw_namespace c = ns \<and> passes X fil c}"
    and "\<And>i rk lane x. (i, rk, lane, x) \<in> set u \<Longrightarrow>
           lane_on m hops lane \<and> x = weight_for w lane \<and> 1 \<le> rk \<and> rk \<le> length (db_chunks db)"
    and "length (filter (\<lambda>x. fst x = i) u) \<le> 3"
proof -
  note ok = lanes_ok[OF X d, unfolded lane_ok_def]
  have X': "set (rx_graph_rows X xs) = set xs" for xs using X by (metis retr_ok_def mset_eq_setD)
  have num: "1 \<le> n \<and> n \<le> length (db_chunks db)"
    if "(x, n) \<in> set (numbered (map cw_id (stable_sort le (filter P (db_chunks db)))))" for x n le P
    using numbered_mem[OF that] by (auto intro: le_trans[OF _ length_filter_le])
  show "fst ` set u \<subseteq> cw_id ` {c \<in> set (db_chunks db). cw_namespace c = ns \<and> passes X fil c}"
    using ok unfolding u union_lanes_def by (simp add: image_Un)
  show "lane_on m hops lane \<and> x = weight_for w lane \<and> 1 \<le> rk \<and> rk \<le> length (db_chunks db)"
    if "(i, rk, lane, x) \<in> set u" for i rk lane x
  proof -
    from that consider
        "lane = ''vec''" "x = w_vec w" "(i, rk) \<in> set (vec_lane X m v fil ns db)"
      | "lane = ''bm25''" "x = w_bm25 w" "(i, rk) \<in> set (bm_lane X m q fil ns db)"
      | "lane = ''graph''" "x = w_graph w" "(i, rk) \<in> set (graph_lane X m v fil ns hops db)"
      unfolding u union_lanes_def by auto
    then show ?thesis
    proof cases
      case 1
      then have "1 \<le> rk \<and> rk \<le> length (db_chunks db)"
        by (auto simp only: vec_lane_def dest!: in_set_takeD num)
      moreover have "uses_vector m"
        using 1(3) lanes_off(1)[OF X, of m v fil ns db] by (cases "uses_vector m") (simp_all del: uses_simps)
      ultimately show ?thesis using 1 by (simp add: lane_on_def weight_for_def)
    next
      case 2
      then have "1 \<le> rk \<and> rk \<le> length (db_chunks db)"
        by (auto simp only: bm_lane_def dest!: in_set_takeD num)
      moreover have "uses_bm25 m"
        using 2(3) lanes_off(2)[OF X, of m q fil ns db] by (cases "uses_bm25 m") (simp_all del: uses_simps)
      ultimately show ?thesis using 2 by (simp add: lane_on_def weight_for_def)
    next
      case 3
      then have "1 \<le> rk \<and> rk \<le> length (db_chunks db)"
        unfolding graph_lane_def Let_def by (auto simp only: X' dest!: in_set_takeD num)
      moreover have "uses_graph m \<and> 1 \<le> sint hops"
      proof (rule ccontr)
        assume "\<not> (uses_graph m \<and> 1 \<le> sint hops)"
        with 3 show False using lanes_off(3)[OF X, of m hops v fil ns db] by simp
      qed
      ultimately show ?thesis using 3 by (simp add: lane_on_def weight_for_def)
    qed
  qed
  have one: "length (filter (\<lambda>x. fst x = i) (lane_rows lane w xs)) \<le> 1" if "distinct (map fst xs)" for lane w xs
    by (rule filter_key_length) (simp add: that)
  show "length (filter (\<lambda>x. fst x = i) u) \<le> 3"
    unfolding u union_lanes_def filter_append length_append
    using one[OF lane_ok_distinct[OF lanes_ok(1)[OF X d]], of "''vec''" "w_vec w" m v fil ns]
      one[OF lane_ok_distinct[OF lanes_ok(2)[OF X d]], of "''bm25''" "w_bm25 w" m q fil ns]
      one[OF lane_ok_distinct[OF lanes_ok(3)[OF X d]], of "''graph''" "w_graph w" m v fil ns hops]
    by linarith
qed

lemma filter_unique:
  "distinct (map f xs) \<Longrightarrow> x \<in> set xs \<Longrightarrow> filter (\<lambda>y. f y = f x) xs = [x]"
proof (induction xs)
  case (Cons y ys)
  then show ?case
  proof (cases "x = y")
    case True
    with Cons.prems(1) have "f x \<notin> f ` set ys" by simp
    then have "filter (\<lambda>z. f z = f x) ys = []" by (metis (mono_tags, lifting) filter_False image_eqI)
    with True show ?thesis by simp
  next
    case False
    with Cons show ?thesis by auto
  qed
qed simp

lemma fused_rows_ids:
  assumes "distinct (map cw_id (db_chunks db))" and "set js \<subseteq> cw_id ` set (db_chunks db)"
  shows "map qr_chunk_id (concat (map (\<lambda>i. map (fused_row u) (filter (\<lambda>c. cw_id c = i) (db_chunks db))) js)) = js"
  using assms(2)
proof (induction js)
  case (Cons i js)
  then obtain c where "c \<in> set (db_chunks db)" "i = cw_id c" by auto
  with filter_unique[OF assms(1)] Cons show ?case by (simp add: fused_row_def Let_def)
qed simp

lemma fused_rows_facts:
  assumes X: "retr_ok X" and d: "distinct (map cw_id (db_chunks db))"
    and u: "u = union_lanes X m q v fil ns hops w db"
  shows "distinct (map qr_chunk_id (fused_rows X u db))"
    and "set (fused_rows X u db) = fused_row u ` {c \<in> set (db_chunks db). cw_id c \<in> fst ` set u}"
    and "length (fused_rows X u db) = card (fst ` set u)"
    and "set (map qr_chunk_id (fused_rows X u db)) = fst ` set u"
proof -
  have m: "mset (rx_fused_rows X (remdups (map fst u))) = mset (remdups (map fst u))"
    using X by (simp add: retr_ok_def)
  then have ids_of: "set (rx_fused_rows X (remdups (map fst u))) = fst ` set u"
      "distinct (rx_fused_rows X (remdups (map fst u)))"
    by (metis list.set_map mset_eq_setD set_remdups, metis distinct_remdups mset_eq_imp_distinct_iff)
  have sub: "fst ` set u \<subseteq> cw_id ` set (db_chunks db)" using union_facts(1)[OF X d u] by auto
  have ids: "map qr_chunk_id (fused_rows X u db) = rx_fused_rows X (remdups (map fst u))"
    unfolding fused_rows_def by (rule fused_rows_ids[OF d]) (use ids_of sub in simp)
  then show "distinct (map qr_chunk_id (fused_rows X u db))" "set (map qr_chunk_id (fused_rows X u db)) = fst ` set u"
    using ids_of by simp_all
  show "set (fused_rows X u db) = fused_row u ` {c \<in> set (db_chunks db). cw_id c \<in> fst ` set u}"
    by (auto simp: fused_rows_def ids_of)
  have "length (fused_rows X u db) = length (map qr_chunk_id (fused_rows X u db))" by simp
  also have "\<dots> = card (fst ` set u)" unfolding ids using ids_of by (simp flip: distinct_card)
  finally show "length (fused_rows X u db) = card (fst ` set u)" .
qed

text \<open>A row is a chunk of the namespace that passes the filter.\<close>

lemma fused_row_visible:
  assumes "retr_ok X" and "distinct (map cw_id (db_chunks db))"
    and u: "u = union_lanes X m q v fil ns hops w db" and "r \<in> set (fused_rows X u db)"
  obtains c where "c \<in> set (db_chunks db)" "r = fused_row u c" "cw_namespace c = ns" "passes X fil c"
    "filter (\<lambda>x. fst x = cw_id c) u \<noteq> []"
proof -
  from assms(4) obtain c where c: "c \<in> set (db_chunks db)" "cw_id c \<in> fst ` set u" "r = fused_row u c"
    unfolding fused_rows_facts(2)[OF assms(1-3)] by blast
  then obtain x where "x \<in> set u" "fst x = cw_id c" by (metis imageE)
  then have "filter (\<lambda>x. fst x = cw_id c) u \<noteq> []" by (metis (mono_tags, lifting) filter_empty_conv)
  moreover have "cw_namespace c = ns \<and> passes X fil c"
  proof -
    obtain c' where c': "cw_id c = cw_id c'"
        "c' \<in> {c \<in> set (db_chunks db). cw_namespace c = ns \<and> passes X fil c}"
      using subsetD[OF union_facts(1)[OF assms(1-3)] c(2)] by (rule imageE)
    moreover have "c' = c" using c' c(1) assms(2)
      by (intro inj_onD[of cw_id "set (db_chunks db)"]) (simp_all add: distinct_map)
    ultimately show ?thesis by simp
  qed
  ultimately show thesis using c(1,3) that by blast
qed

lemma run_query_visible:
  assumes "retr_ok X" and "distinct (map cw_id (db_chunks db))"
    and "run_query X m q v fil top_k ns hops w db = Inr rows" and "r \<in> set rows"
  obtains c where "c \<in> set (db_chunks db)" "qr_chunk_id r = cw_id c" "qr_document_id r = cw_document_id c"
    "qr_text r = cw_text c" "cw_namespace c = ns" "passes X fil c"
proof -
  have "r \<in> set (fused_rows X (union_lanes X m q v fil ns hops w db) db)"
    using assms(3,4) by (auto simp: run_query_def split: if_splits dest: in_set_takeD)
  then show thesis
    by (rule fused_row_visible[OF assms(1,2) refl]) (use that in \<open>simp add: fused_row_def Let_def\<close>)
qed

lemma fused_score_fnonneg:
  assumes "retr_ok X" and "distinct (map cw_id (db_chunks db))" and "length (db_chunks db) < 2 ^ 60"
    and "weights_ok w" and u: "u = union_lanes X m q v fil ns hops w db" and "i \<in> fst ` set u"
  shows "fnonneg (sql_sum (map lane_score (filter (\<lambda>x. fst x = i) u)))"
proof (rule sql_sum_fnonneg)
  show "map lane_score (filter (\<lambda>x. fst x = i) u) \<noteq> []" using assms(6) by (auto simp: filter_empty_conv)
  have "fnonneg (lane_score x)" if "x \<in> set u" for x
  proof -
    obtain j rk lane y where x: "x = (j, rk, lane, y)" by (metis surj_pair)
    with that have "y = weight_for w lane \<and> rk \<le> length (db_chunks db)"
      using union_facts(2)[OF assms(1,2) u] by blast
    then show ?thesis unfolding x using assms(3,4) by (intro lane_score_fnonneg) (simp_all add: weight_for_nonneg)
  qed
  then show "list_all fnonneg (map lane_score (filter (\<lambda>x. fst x = i) u))" by (auto simp: list_all_iff)
qed

lemma query_weights_ok: "weights_ok (query_weights J weights)"
proof -
  have "fnonneg (fmax a (Fin 0))" for a by (cases a) (auto simp: fmax_def fnonneg_def flt_def)
  then show ?thesis
    by (simp add: query_weights_def weights_ok_def weight_of_json_def rrf_weights_default_def split: option.split)
      (simp add: fnonneg_def)
qed

lemma map_sum_id_Inr: "map_sum f id x = Inr r \<longleftrightarrow> x = Inr r"
  by (cases x) auto

lemma take_top:
  assumes "sorted_wrt R xs" and "x \<in> set xs" and "x \<notin> set (take k xs)" and "y \<in> set (take k xs)"
  shows "R y x"
proof -
  have "x \<in> set (drop k xs)" using assms(2,3) by (metis Un_iff append_take_drop_id set_append)
  with assms(1,4) show ?thesis by (metis append_take_drop_id sorted_wrt_append)
qed

text \<open>
  C15 (retrieval): when \<open>pgrg.query\<close> returns rows, they are at most \<open>top_k\<close> distinct chunks of the
  namespace that pass the filter and that some lane of the mode found, each with the sum of its weighted
  reciprocal ranks and one to three signals, in descending order of a score that is never negative or
  NaN; and no chunk a lane found scores higher than a row while being left out.
\<close>

theorem query_correct:
  assumes "retr_ok X" and "distinct (map cw_id (db_chunks db))" and "length (db_chunks db) < 2 ^ 60"
    and "pgrg_query J X embed_fn render q fil top_k ns hops weights mode db = Inr rows"
  shows "\<exists>m v u. mode_parse mode = Some m \<and> embed_fn q = Inr v
    \<and> u = union_lanes X m q v fil ns hops (query_weights J weights) db
    \<and> (\<forall>x \<in> set u. lane_on m hops (fst (snd (snd x))) \<and> 1 \<le> fst (snd x))
    \<and> length rows = min (nat (sint top_k)) (card (fst ` set u)) \<and> distinct (map qr_chunk_id rows)
    \<and> (\<forall>r \<in> set rows. (\<exists>c \<in> set (db_chunks db). r = fused_row u c \<and> cw_namespace c = ns \<and> passes X fil c)
         \<and> 1 \<le> length (qr_signals r) \<and> length (qr_signals r) \<le> 3 \<and> fnonneg (qr_score r))
    \<and> sorted_wrt (\<lambda>a b. fle (qr_score b) (qr_score a)) rows
    \<and> (\<forall>c \<in> set (db_chunks db). cw_id c \<in> fst ` set u \<longrightarrow> fused_row u c \<in> set rows
         \<or> (\<forall>r \<in> set rows. fle (qr_score (fused_row u c)) (qr_score r)))"
proof -
  let ?w = "query_weights J weights"
  from assms(4) obtain m v where m: "mode_parse mode = Some m" "embed_fn q = Inr v"
      "run_query X m q v fil (sint top_k) ns hops ?w db = Inr rows"
    by (auto simp: pgrg_query_def Let_def map_sum_id_Inr split: option.splits sum.splits)
  define u where "u = union_lanes X m q v fil ns hops ?w db"
  note uf = union_facts[OF assms(1,2) u_def] and ff = fused_rows_facts[OF assms(1,2) u_def]
  let ?le = "\<lambda>a b. sql_float_le (qr_score b) (qr_score a)"
  let ?all = "stable_sort ?le (fused_rows X u db)"
  have rows: "rows = take (nat (sint top_k)) ?all"
    using m(3) by (simp add: run_query_def u_def split: if_splits)
  have sorted: "sorted_wrt ?le ?all" by (rule by_score.sorted_stable_sort) simp
  have sub: "set rows \<subseteq> set (fused_rows X u db)" unfolding rows using set_take_subset[of _ ?all] by auto
  have nn: "fnonneg (qr_score r)" if "r \<in> set (fused_rows X u db)" for r
  proof -
    from that obtain c where "cw_id c \<in> fst ` set u" "r = fused_row u c" unfolding ff(2) by blast
    then show ?thesis using fused_score_fnonneg[OF assms(1-3) query_weights_ok u_def]
      by (simp add: fused_row_def Let_def)
  qed
  have le: "fle (qr_score b) (qr_score a)"
    if "?le a b" "a \<in> set (fused_rows X u db)" "b \<in> set (fused_rows X u db)" for a b
    using that nn[THEN fnonneg_not_NaN] by (auto simp: sql_float_le_def)
  have "distinct (map qr_chunk_id ?all)"
    using ff(1) by (metis mset_map mset_stable_sort mset_eq_imp_distinct_iff)
  then have dist: "distinct (map qr_chunk_id rows)" unfolding rows by (simp add: take_map[symmetric])
  have "sorted_wrt ?le rows" unfolding rows using sorted by (rule sorted_wrt_take)
  then have desc: "sorted_wrt (\<lambda>a b. fle (qr_score b) (qr_score a)) rows"
    by (rule sorted_wrt_mono_rel[rotated]) (use le sub in blast)
  have row: "(\<exists>c \<in> set (db_chunks db). r = fused_row u c \<and> cw_namespace c = ns \<and> passes X fil c)
      \<and> 1 \<le> length (qr_signals r) \<and> length (qr_signals r) \<le> 3 \<and> fnonneg (qr_score r)" if "r \<in> set rows" for r
  proof -
    from that sub have r: "r \<in> set (fused_rows X u db)" by blast
    then obtain c where c: "c \<in> set (db_chunks db)" "r = fused_row u c" "cw_namespace c = ns" "passes X fil c"
        "filter (\<lambda>x. fst x = cw_id c) u \<noteq> []"
      by (rule fused_row_visible[OF assms(1,2) u_def])
    then have "1 \<le> length (qr_signals r)" by (simp add: fused_row_def Let_def Suc_le_eq)
    moreover have "length (qr_signals r) \<le> 3" unfolding c(2) using uf(3) by (simp add: fused_row_def Let_def)
    ultimately show ?thesis using c(1-4) nn[OF r] by blast
  qed
  have top: "fused_row u c \<in> set rows \<or> (\<forall>r \<in> set rows. fle (qr_score (fused_row u c)) (qr_score r))"
    if "c \<in> set (db_chunks db)" "cw_id c \<in> fst ` set u" for c
  proof -
    have c: "fused_row u c \<in> set (fused_rows X u db)" using that unfolding ff(2) by blast
    then have "fused_row u c \<in> set ?all" by simp
    with take_top[OF sorted] have "fused_row u c \<in> set rows \<or> (\<forall>r \<in> set rows. ?le r (fused_row u c))"
      unfolding rows by blast
    with le c sub show ?thesis by blast
  qed
  have "length rows = min (nat (sint top_k)) (card (fst ` set u))" unfolding rows using ff(3) by simp
  moreover have "\<forall>x \<in> set u. lane_on m hops (fst (snd (snd x))) \<and> 1 \<le> fst (snd x)" using uf(2) by fastforce
  ultimately show ?thesis
    using m u_def dist desc row top by (intro exI[of _ m] exI[of _ v] exI[of _ u]) blast
qed

definition demo_row :: chunk_row where
  "demo_row = \<lparr>cw_id = Uuid 7, cw_document_id = Uuid 1, cw_namespace = ''ns'', cw_ord = 0, cw_text = ''hello'',
     cw_token_count = 1, cw_embedding = [Fin 1]\<rparr>"

definition demo_tables :: database where
  "demo_tables = \<lparr>db_dim = 1, db_namespaces = [], db_documents = [], db_chunks = [demo_row], db_entities = [],
     db_relationships = [], db_chunk_entities = [], db_jobs = [], db_providers = []\<rparr>"

definition demo_retr :: "jv retr_ext" where
  "demo_retr = \<lparr>rx_distance = (\<lambda>_ _. Fin 0), rx_matches = (\<lambda>_ _. False), rx_ts_rank = (\<lambda>_ _. Fin 0),
     rx_contains = (\<lambda>_ _. True), rx_graph_rows = id, rx_fused_rows = id\<rparr>"

lemma demo_retr_ok: "retr_ok demo_retr"
  by (simp add: retr_ok_def demo_retr_def)

lemma demo_union:
  "fst ` set (union_lanes demo_retr Hybrid ''q'' [Fin 1] None ''ns'' 0 w demo_tables) = {Uuid 7}"
  by (simp add: union_lanes_def vec_lane_def bm_lane_def graph_lane_def seed_entities_def demo_tables_def
      demo_retr_def demo_row_def passes_def numbered_def lane_rows_def walk.simps walk_step_def)

theorem query_correct_witness:
  "\<exists>rows. pgrg_query (jv_api []) demo_retr (\<lambda>_. Inr [Fin 1]) (\<lambda>_. []) ''q'' None 10 ''ns'' 0 None ''hybrid'' demo_tables
       = Inr rows
     \<and> length rows = 1 \<and> sorted_wrt (\<lambda>a b. fle (qr_score b) (qr_score a)) rows"
proof -
  obtain rows where r: "pgrg_query (jv_api []) demo_retr (\<lambda>_. Inr [Fin 1]) (\<lambda>_. []) ''q'' None 10 ''ns'' 0 None
      ''hybrid'' demo_tables = Inr rows"
    by (simp add: pgrg_query_def mode_parse_def run_query_def)
  have "distinct (map cw_id (db_chunks demo_tables))" "length (db_chunks demo_tables) < 2 ^ 60"
    by (simp_all add: demo_tables_def)
  from query_correct[OF demo_retr_ok this r] have "length rows = 1 \<and> sorted_wrt (\<lambda>a b. fle (qr_score b) (qr_score a)) rows"
    by (auto simp: mode_parse_def demo_union)
  with r show ?thesis by blast
qed

section \<open>The statement against the reference fusion\<close>

text \<open>
  \<open>rrf.rs\<close> is the reference for the fusion in the statement. It counts chunks by \<open>i64\<close>; \<open>enc\<close> is any
  numbering of the chunks.
\<close>

definition hits_of :: "(uuid \<Rightarrow> i64) \<Rightarrow> lane_row list \<Rightarrow> lane_hit list" where
  "hits_of enc u = map (\<lambda>(i, rk, lane, w). \<lparr>hit_id = enc i, hit_lane = lane, hit_rk = of_nat rk\<rparr>) u"

lemma contribution_default:
  assumes "1 \<le> rk" and "rk \<le> 50" and "lane \<in> {''vec'', ''bm25'', ''graph''}"
  shows "contribution rrf_weights_default \<lparr>hit_id = j, hit_lane = lane, hit_rk = of_nat rk\<rparr>
     = lane_score (i, rk, lane, Fin 1)"
    and "proper (lane_score (i, rk, lane, Fin 1))" and "is_fl binary64 (lane_score (i, rk, lane, Fin 1))"
proof -
  obtain r where r: "0 < r" "sql_recip (60 + rk) = Fin r" "rnd binary64 (1 / of_nat (60 + rk)) = Fin r"
      "rnd binary64 r = Fin r"
    using recip_value[OF assms(1,2)] by metis
  have s: "lane_score (i, rk, lane, Fin 1) = Fin r"
    using r by (simp add: lane_score_def fmul_def is_zero_def)
  then show "proper (lane_score (i, rk, lane, Fin 1))" "is_fl binary64 (lane_score (i, rk, lane, Fin 1))"
    using r by (simp_all add: is_fl_def)
  have "sint (of_int (int rk) :: i64) = int rk"
    using assms(2) by (simp only: sint_sbintrunc') (simp add: signed_take_bit_int_eq_self)
  then have "sint (of_nat rk :: i64) = int rk" by simp
  then have "fadd binary64 RRF_K (fof_int binary64 (sint (of_nat rk :: i64))) = Fin (of_nat (60 + rk))"
    using assms(2) rnd64_int[of "int rk"] rnd64_int[of "60 + int rk"] by (simp add: fof_int_def RRF_K_def)
  moreover have "weight_for rrf_weights_default lane = Fin 1"
    using assms(3) by (auto simp: weight_for_def rrf_weights_default_def)
  ultimately show "contribution rrf_weights_default \<lparr>hit_id = j, hit_lane = lane, hit_rk = of_nat rk\<rparr>
      = lane_score (i, rk, lane, Fin 1)"
    using r s by (simp add: contribution_def fdiv_Fin_pos fnonneg_def)
qed

text \<open>When the graph lane is cut in rank order, no rank is above 50 and every weight is one.\<close>

lemma lanes_short:
  assumes "\<And>xs. rx_graph_rows X xs = xs" and "retr_ok X" and "distinct (map cw_id (db_chunks db))"
    and u: "u = union_lanes X m q v fil ns hops rrf_weights_default db" and "(i, rk, lane, w) \<in> set u"
  shows "1 \<le> rk \<and> rk \<le> 50 \<and> lane \<in> {''vec'', ''bm25'', ''graph''} \<and> w = Fin 1"
proof -
  have cut: "n \<le> 50" if "(x, n) \<in> set (take 50 (numbered xs))" for x n and xs :: "uuid list"
    using that numbered_mem[of x n "take 50 xs"] by (auto simp: take_numbered)
  have "rk \<le> 50"
    using assms(5) unfolding u union_lanes_def vec_lane_def bm_lane_def graph_lane_def Let_def assms(1)
    by (auto simp only: set_append Un_iff lane_rows_simps dest: cut)
  then show ?thesis using union_facts(2)[OF assms(2,3) u assms(5)]
    by (auto simp: lane_on_def weight_for_def rrf_weights_default_def)
qed

lemma foldl_proper: "proper a \<Longrightarrow> list_all proper xs \<Longrightarrow> proper (foldl (fadd binary64) a xs)"
  by (induction xs arbitrary: a) (simp_all add: proper_add)

lemma rrf_score_sql:
  assumes X: "\<And>xs. rx_graph_rows X xs = xs" "retr_ok X" and d: "distinct (map cw_id (db_chunks db))"
    and inj: "inj_on enc (cw_id ` set (db_chunks db))"
    and u: "u = union_lanes X m q v fil ns hops rrf_weights_default db" and i: "i \<in> fst ` set u"
  shows "rrf_score rrf_weights_default (hits_of enc u) (enc i) = sql_sum (map lane_score (filter (\<lambda>x. fst x = i) u))"
    and "proper (sql_sum (map lane_score (filter (\<lambda>x. fst x = i) u)))"
proof -
  let ?g = "filter (\<lambda>x. fst x = i) u"
  have facts: "contribution rrf_weights_default \<lparr>hit_id = enc j, hit_lane = lane, hit_rk = of_nat rk\<rparr> = lane_score (j, rk, lane, w)
      \<and> proper (lane_score (j, rk, lane, w)) \<and> is_fl binary64 (lane_score (j, rk, lane, w))"
    if "(j, rk, lane, w) \<in> set u" for j rk lane w
  proof -
    from lanes_short[OF X d u that] have s: "1 \<le> rk" "rk \<le> 50" "lane \<in> {''vec'', ''bm25'', ''graph''}" "w = Fin 1"
      by blast+
    show ?thesis unfolding s(4) using contribution_default[OF s(1-3)] by blast
  qed
  have ids: "fst ` set u \<subseteq> cw_id ` set (db_chunks db)" using union_facts(1)[OF X(2) d u] by auto
  have enc: "enc (fst x) = enc i \<longleftrightarrow> fst x = i" if "x \<in> set u" for x
    using inj_on_eq_iff[OF inj, of "fst x" i] that i ids by blast
  have "filter (\<lambda>h. hit_id h = enc i) (hits_of enc u) = hits_of enc ?g"
    unfolding hits_of_def filter_map o_def
    by (rule arg_cong[of _ _ "map _"], rule filter_cong[OF refl]) (use enc in \<open>auto split: prod.split\<close>)
  moreover have "map (contribution rrf_weights_default) (hits_of enc ?g) = map lane_score ?g"
    unfolding hits_of_def map_map by (rule map_cong[OF refl]) (use facts in \<open>auto split: prod.split\<close>)
  ultimately have r: "rrf_score rrf_weights_default (hits_of enc u) (enc i) = foldl (fadd binary64) (Fin 0) (map lane_score ?g)"
    by (simp add: rrf_score_def)
  have p: "list_all proper (map lane_score ?g)" "list_all (is_fl binary64) (map lane_score ?g)"
    using facts by (auto simp: list_all_iff)
  have "?g \<noteq> []" using i by (auto simp: filter_empty_conv)
  then obtain x xs where xs: "map lane_score ?g = x # xs" by (cases ?g) auto
  show "rrf_score rrf_weights_default (hits_of enc u) (enc i) = sql_sum (map lane_score ?g)"
    using r p unfolding xs by (simp add: fadd_zero_left)
  show "proper (sql_sum (map lane_score ?g))" using p unfolding xs by (simp add: foldl_proper)
qed

lemma mset_map_key:
  assumes "distinct (map f xs)" and "\<And>x. x \<in> set xs \<Longrightarrow> g x = h (f x)"
  shows "mset (map g xs) = image_mset h (mset_set (f ` set xs))"
proof -
  have "map g xs = map h (map f xs)" using assms(2) by simp
  then have "mset (map g xs) = image_mset h (mset (map f xs))" by (metis mset_map)
  also have "mset (map f xs) = mset_set (f ` set xs)" using assms(1) by (metis mset_set_set list.set_map)
  finally show ?thesis .
qed



text \<open>With other weights the two differ: \<open>rrf.rs\<close> divides the weight, the statement multiplies by the reciprocal.\<close>

lemma weighted_differs:
  "fmul binary64 (Fin 5) (sql_recip 61) \<noteq> fdiv binary64 (Fin 5) (Fin 61)"
proof -
  have a: "rnd binary64 (1 / 61) = Fin (4725088133634619 / 2 ^ 58)"
    using rnd_value(1)[of "- 6" "1 / 61" binary64 4725088133634619]
    by (simp add: binary64_def power_int_minus inverse_eq_divide)
  obtain r where "sql_recip (60 + 1) = Fin r" "rnd binary64 (1 / of_nat (60 + 1)) = Fin r"
    using recip_value[of 1] by auto
  with a have "sql_recip 61 = Fin (4725088133634619 / 2 ^ 58)" by simp
  moreover have "rnd binary64 (5 * (4725088133634619 / 2 ^ 58)) = Fin (5906360167043274 / 2 ^ 56)"
    using rnd_value(1)[of "- 4" "5 * (4725088133634619 / 2 ^ 58)" binary64 5906360167043274]
    by (simp add: binary64_def power_int_minus inverse_eq_divide)
  moreover have "rnd binary64 (5 / 61) = Fin (5906360167043273 / 2 ^ 56)"
    using rnd_value(1)[of "- 4" "5 / 61" binary64 5906360167043273]
    by (simp add: binary64_def power_int_minus inverse_eq_divide)
  ultimately show ?thesis by (simp add: fmul_def fdiv_def is_zero_def)
qed

end
