(* ===== verification/AskSurfaces.thy ===== *)
theory AskSurfaces
  imports Retrieval Providers Embedding
begin

text \<open>
  The two ways to ask: the SQL function \<open>pgrg.ask\<close> (\<^verbatim>\<open>pg_raggraph/src/ask.rs\<close>) and the HTTP endpoint
  \<open>POST /v1/ask\<close> of the sidecar (\<^verbatim>\<open>pg_raggraph_sidecar/src/http.rs\<close>). Both resolve a provider, retrieve
  chunks, read the token budget and run the core \<open>ask\<close>. The HTTP framework's extractor, the database
  connection and the column \<open>settings\<close> of a namespace are parameters.
\<close>

section \<open>Shared parts\<close>

text \<open>
  What the surfaces use: the libraries, the configuration, and two conversions of PostgreSQL, the text
  of a JSON value and the cast of a text to \<open>int\<close>.
\<close>

record ('r, 'v, 'k, 'h, 'w) ask_env =
  ae_json :: "'v json_api"
  ae_retr :: "'v retr_ext"
  ae_transport :: "('r, 'v, 'w) transport"
  ae_crypto :: "('k, 'w) crypto_api"
  ae_files :: "('h, 'w) file_api"
  ae_de_extraction :: "string \<Rightarrow> string + extraction"
  ae_clock :: "'w clock"
  ae_captures :: "string \<Rightarrow> string list"
  ae_sha :: "bytes \<Rightarrow> bytes"
  ae_vector_in :: "string \<Rightarrow> string + f32 list"
  ae_render :: "sql_error \<Rightarrow> string"
  ae_jsonb_text :: "jv \<Rightarrow> string"
  ae_int_in :: "string \<Rightarrow> string + i32"
  ae_key_path :: "string option"
  ae_embed_dim :: i32

text \<open>\<open>usize::try_from(dim).unwrap_or(384)\<close>.\<close>

definition embed_dims :: "i32 \<Rightarrow> nat" where
  "embed_dims d = (if 0 \<le> sint d then nat (sint d) else 384)"

text \<open>\<open>pgrg._embed_text\<close> and its cast to a vector; not returning is an error, as in the backend.\<close>

definition embed_text :: "(bytes \<Rightarrow> bytes) \<Rightarrow> i32 \<Rightarrow> string \<Rightarrow> string option" where
  "embed_text sha dims txt = map_option vector_literal (deterministic_embed sha txt (embed_dims dims))"

definition pgrg_embed :: "('r, 'v, 'k, 'h, 'w) ask_env \<Rightarrow> string \<Rightarrow> string + f32 list" where
  "pgrg_embed E txt = (case embed_text (ae_sha E) (ae_embed_dim E) txt of
     None \<Rightarrow> Inl ''diverges'' | Some lit \<Rightarrow> ae_vector_in E lit)"

text \<open>
  \<open>SELECT q.chunk_id, q.document_id, ch.ord, q.text, ch.token_count FROM (...) q JOIN pgrg.chunks ch
  ON ch.id = q.chunk_id ORDER BY q.score DESC\<close>, which both surfaces wrap around the query.
\<close>

definition ask_rows :: "database \<Rightarrow> query_row list \<Rightarrow> prompt_chunk list" where
  "ask_rows db rows =
     map (\<lambda>(r, ch). \<lparr>pc_chunk_id = qr_chunk_id r, pc_document_id = qr_document_id r, pc_ord = cw_ord ch,
                     pc_text = qr_text r, pc_token_count = cw_token_count ch\<rparr>)
       (stable_sort (\<lambda>a b. sql_float_le (qr_score (fst b)) (qr_score (fst a)))
         (concat (map (\<lambda>r. map (Pair r) (filter (\<lambda>ch. cw_id ch = qr_chunk_id r) (db_chunks db))) rows)))"

text \<open>One row of \<open>pgrg.ask\<close>, one body of the endpoint: \<open>{answer, citations, signals, mode_used}\<close>.\<close>

record 'v ask_answer =
  aa_answer :: string
  aa_citations :: "(uuid \<times> uuid \<times> i32) list"
  aa_signals :: 'v
  aa_mode_used :: string

definition no_context :: "'v json_api \<Rightarrow> 'v ask_answer" where
  "no_context J = \<lparr>aa_answer = ''No relevant context found.'', aa_citations = [],
     aa_signals = js_object J [(''retrieval'', js_object J
       [(''chunks_in_prompt'', js_int J 0), (''dropped_for_budget'', js_int J 0)])],
     aa_mode_used = ''hybrid''\<rparr>"

definition answer_of :: "'v ask_result \<Rightarrow> 'v ask_answer" where
  "answer_of r = \<lparr>aa_answer = as_answer r,
     aa_citations = map (\<lambda>c. (ci_chunk_id c, ci_document_id c, ci_ord c)) (as_citations r),
     aa_signals = as_signals r, aa_mode_used = as_mode_used r\<rparr>"

text \<open>
  \<open>SELECT (settings->>'ask_token_budget')::int FROM pgrg.namespaces WHERE name = $1\<close>: no row or a
  null reads as none, and the cast can fail.
\<close>

definition ask_budget :: "('r, 'v, 'k, 'h, 'w) ask_env \<Rightarrow> string \<Rightarrow> database \<Rightarrow> string + i32 option" where
  "ask_budget E ns db =
     (case find (\<lambda>n. nr_name n = ns) (db_namespaces db) of
        None \<Rightarrow> Inr None
      | Some n \<Rightarrow>
          (case jsonb_get_text (ae_jsonb_text E) (nr_settings n) ''ask_token_budget'' of
             None \<Rightarrow> Inr None
           | Some t \<Rightarrow> map_sum id Some (ae_int_in E t)))"

section \<open>\<open>pgrg.ask\<close>\<close>

definition pgrg_ask ::
  "('r, 'v, 'k, 'h, 'w) ask_env \<Rightarrow> string \<Rightarrow> 'v option \<Rightarrow> i32 \<Rightarrow> string \<Rightarrow> i32 \<Rightarrow> string option \<Rightarrow> database
     \<Rightarrow> 'w \<Rightarrow> (string + 'v ask_answer) \<times> 'w" where
  "pgrg_ask E q fil top_k ns hops llm_provider db w =
     (case resolve_provider llm_provider (sql_namespace_provider ns db) (sql_provider_refs db) of
        Inl e \<Rightarrow> (Inl (''pgrg.ask: '' @ core_error_display e), w)
      | Inr provider_name \<Rightarrow>
      (case pgrg_query (ae_json E) (ae_retr E) (pgrg_embed E) (ae_render E) q fil top_k ns hops None ''hybrid'' db of
         Inl e \<Rightarrow> (Inl e, w)
       | Inr rows \<Rightarrow>
       let chunks = ask_rows db rows in
       if chunks = [] then (Inr (no_context (ae_json E)), w)
       else
       (case ask_budget E ns db of
          Inl e \<Rightarrow> (Inl e, w)
        | Inr budget \<Rightarrow>
        (case spi_build_provider_impl (ae_crypto E) (ae_files E) (ae_de_extraction E) (ae_key_path E) db provider_name w of
           (Inl e, w1) \<Rightarrow> (Inl e, w1)
         | (Inr p, w1) \<Rightarrow>
         (case ask (ae_json E) (ae_captures E) (ae_clock E)
               \<lparr>ar_question = q, ar_chunks = chunks, ar_provider = provider_name,
                ar_model = provider_model_for db provider_name, ar_token_budget = unwrap_or 4000 budget\<rparr>
               (provider_llm (ae_transport E) (ae_json E) p) w1 of
            (Inl e, w2) \<Rightarrow> (Inl (''pgrg.ask: '' @ core_error_display e), w2)
          | (Inr out, w2) \<Rightarrow> (Inr (answer_of out), w2))))))"

section \<open>The request\<close>

record 'v ask_body =
  ab_q :: string
  ab_filter :: "'v option"
  ab_top_k :: i32
  ab_namespace :: string
  ab_hops :: i32
  ab_llm_provider :: "string option"

definition default_top_k :: i32 where "default_top_k = 10"
definition default_namespace :: string where "default_namespace = ''default''"
definition default_hops :: i32 where "default_hops = 1"

definition ask_body_of :: "'v body_api \<Rightarrow> 'v \<Rightarrow> 'v ask_body option" where
  "ask_body_of D v =
     Option.bind (required D v ''q'' (ba_string D)) (\<lambda>q.
     Option.bind (field_or D v ''filter'' None (optional D Some)) (\<lambda>fil.
     Option.bind (field_or D v ''top_k'' default_top_k (ba_i32 D)) (\<lambda>top_k.
     Option.bind (field_or D v ''namespace'' default_namespace (ba_string D)) (\<lambda>ns.
     Option.bind (field_or D v ''hops'' default_hops (ba_i32 D)) (\<lambda>hops.
     Option.bind (field_or D v ''llm_provider'' None (optional D (ba_string D))) (\<lambda>p.
       Some \<lparr>ab_q = q, ab_filter = fil, ab_top_k = top_k, ab_namespace = ns, ab_hops = hops,
             ab_llm_provider = p\<rparr>))))))"

datatype ask_error = BadRequest string | UnknownNamespace | Internal string

text \<open>The response: its status and its body.\<close>

definition error_body :: "'v json_api \<Rightarrow> string \<Rightarrow> string \<Rightarrow> 'v" where
  "error_body J msg code = js_object J [(''error'', js_string J msg), (''code'', js_string J code)]"

fun into_response :: "'v json_api \<Rightarrow> ask_error \<Rightarrow> nat \<times> 'v" where
  "into_response J (BadRequest msg) = (400, error_body J msg ''bad_request'')"
| "into_response J UnknownNamespace = (404, error_body J ''unknown namespace'' ''unknown_namespace'')"
| "into_response J (Internal e) = (500, error_body J ''internal error'' ''internal'')"

text \<open>The rejections of \<open>axum::Json\<close>; a body that is JSON but not an \<open>AskBody\<close> is a data error.\<close>

datatype json_rejection = JsonDataError string | JsonSyntaxError string | MissingJsonContentType | OtherRejection string

fun rejection_message :: "json_rejection \<Rightarrow> string" where
  "rejection_message (JsonDataError _) = ''invalid JSON body''"
| "rejection_message (JsonSyntaxError _) = ''invalid JSON body''"
| "rejection_message MissingJsonContentType = ''content-type must be application/json''"
| "rejection_message (OtherRejection _) = ''bad request''"

definition ask_json :: "'v body_api \<Rightarrow> json_rejection + 'v \<Rightarrow> ask_error + 'v ask_body" where
  "ask_json D r =
     (case r of
        Inl rej \<Rightarrow> Inl (BadRequest (rejection_message rej))
      | Inr v \<Rightarrow> (case ask_body_of D v of
           None \<Rightarrow> Inl (BadRequest (rejection_message (JsonDataError [])))
         | Some b \<Rightarrow> Inr b))"

section \<open>The retrieval statement of the sidecar\<close>

text \<open>The call of \<open>pgrg.embed\<close>, which a stock PostgreSQL lacks, is replaced by a literal.\<close>

definition embed_call :: string where
  "embed_call = ''pgrg.embed($1)''"

definition retrieval_sql :: "f32 list \<Rightarrow> string + string" where
  "retrieval_sql query_embedding =
     (let base = build_query_sql Hybrid;
          lit = CHR 0x27 # vector_literal query_embedding @ CHR 0x27 # ''::vector''
      in if \<not> str_contains embed_call base then
           Inl ''retrieval SQL template changed: `pgrg.embed($1)` not found''
         else Inr (''SELECT q.chunk_id, q.document_id, ch.ord, q.text, ch.token_count FROM (''
           @ replace_first embed_call lit base
           @ '') AS q(chunk_id, document_id, text, score, signals) JOIN pgrg.chunks ch ON ch.id = q.chunk_id ORDER BY q.score DESC''))"

section \<open>The handler\<close>

text \<open>The connection errors of one request, statement by statement.\<close>

record http_faults =
  hf_connect :: "string option"
  hf_namespace :: "string option"
  hf_build :: "string option"
  hf_resolve :: "string option \<times> string option \<times> string option"
  hf_default :: "string option"
  hf_providers :: "string option"
  hf_model :: "string option"
  hf_retrieve :: "string option"
  hf_budget :: "string option"

definition check_namespace :: "string option \<Rightarrow> database \<Rightarrow> string \<Rightarrow> ask_error + unit" where
  "check_namespace fault db ns =
     (case fault of
        Some e \<Rightarrow> Inl (Internal e)
      | None \<Rightarrow> if list_ex (\<lambda>n. nr_name n = ns) (db_namespaces db) then Inr () else Inl UnknownNamespace)"

definition retrieve_chunks ::
  "('r, 'v, 'k, 'h, 'w) ask_env \<Rightarrow> string option \<Rightarrow> 'v ask_body \<Rightarrow> f32 list \<Rightarrow> database
     \<Rightarrow> ask_error + prompt_chunk list" where
  "retrieve_chunks E fault body query_embedding db =
     (case retrieval_sql query_embedding of
        Inl e \<Rightarrow> Inl (Internal e)
      | Inr _ \<Rightarrow>
      (case fault of
         Some e \<Rightarrow> Inl (Internal e)
       | None \<Rightarrow>
       (case ae_vector_in E (vector_literal query_embedding) of
          Inl e \<Rightarrow> Inl (Internal e)
        | Inr v \<Rightarrow>
        (case run_query (ae_retr E) Hybrid (ab_q body) v (ab_filter body) (sint (ab_top_k body)) (ab_namespace body)
              (ab_hops body) rrf_weights_default db of
           Inl e \<Rightarrow> Inl (Internal (ae_render E e))
         | Inr rows \<Rightarrow> Inr (ask_rows db rows)))))"

text \<open>For attribution only: a failed statement reads as no default, as no provider.\<close>

definition resolve_provider_name :: "http_faults \<Rightarrow> 'v ask_body \<Rightarrow> database \<Rightarrow> string" where
  "resolve_provider_name hf body db =
     (let ns_default = (case hf_default hf of None \<Rightarrow> sql_namespace_provider (ab_namespace body) db | Some _ \<Rightarrow> None);
          available = (case hf_providers hf of None \<Rightarrow> sql_provider_refs db | Some _ \<Rightarrow> [])
      in unwrap_or [] (res_ok (resolve_provider (ab_llm_provider body) ns_default available)))"

definition handler_provider ::
  "('r, 'v, 'k, 'h, 'w) ask_env \<Rightarrow> http_faults \<Rightarrow> 'v ask_body \<Rightarrow> database \<Rightarrow> 'w
     \<Rightarrow> (ask_error + provider_impl) \<times> 'w" where
  "handler_provider E hf body db w =
     (case ab_llm_provider body of
        Some name \<Rightarrow> map_prod (map_sum Internal id) id
          (tokio_build_provider_impl (ae_crypto E) (ae_files E) (ae_de_extraction E) (ae_key_path E) (hf_build hf) db name w)
      | None \<Rightarrow> map_prod Inr id
          (tokio_resolve_or_default (ae_crypto E) (ae_files E) (ae_de_extraction E) (ae_key_path E) (hf_resolve hf) db
             (ab_namespace body) w))"

text \<open>The embedder the sidecar loads at startup; the path of a model is not used.\<close>

definition build_embedder :: "(bytes \<Rightarrow> bytes) \<Rightarrow> i32 \<Rightarrow> 'w embedder" where
  "build_embedder sha dims = deterministic_backend sha (embed_dims dims)"

definition ask_handler ::
  "('r, 'v, 'k, 'h, 'w) ask_env \<Rightarrow> http_faults \<Rightarrow> 'v ask_body \<Rightarrow> database \<Rightarrow> 'w
     \<Rightarrow> (ask_error + 'v ask_answer) \<times> 'w" where
  "ask_handler E hf body db w =
     (case hf_connect hf of Some e \<Rightarrow> (Inl (Internal e), w) | None \<Rightarrow>
     (case check_namespace (hf_namespace hf) db (ab_namespace body) of Inl e \<Rightarrow> (Inl e, w) | Inr _ \<Rightarrow>
     (case handler_provider E hf body db w of
        (Inl e, w1) \<Rightarrow> (Inl e, w1)
      | (Inr p, w1) \<Rightarrow>
      let provider_name = resolve_provider_name hf body db;
          model = (case hf_model hf of None \<Rightarrow> provider_model_for db provider_name | Some _ \<Rightarrow> [])
      in (case em_embed (build_embedder (ae_sha E) (ae_embed_dim E)) (ab_q body) w1 of
        (Inl e, w2) \<Rightarrow> (Inl (Internal (core_error_display e)), w2)
      | (Inr q_emb, w2) \<Rightarrow>
      (case retrieve_chunks E (hf_retrieve hf) body q_emb db of
         Inl e \<Rightarrow> (Inl e, w2)
       | Inr chunks \<Rightarrow>
       if chunks = [] then (Inr (no_context (ae_json E)), w2)
       else
       let budget = (case hf_budget hf of
              None \<Rightarrow> unwrap_or 4000 (Option.bind (res_ok (ask_budget E (ab_namespace body) db)) id)
            | Some _ \<Rightarrow> 4000)
       in (case ask (ae_json E) (ae_captures E) (ae_clock E)
              \<lparr>ar_question = ab_q body, ar_chunks = chunks, ar_provider = provider_name, ar_model = model,
               ar_token_budget = budget\<rparr>
              (provider_llm (ae_transport E) (ae_json E) p) w2 of
            (Inl e, w3) \<Rightarrow> (Inl (Internal (core_error_display e)), w3)
          | (Inr out, w3) \<Rightarrow> (Inr (answer_of out), w3)))))))"

text \<open>The body of a success; \<open>show_uuid\<close> prints an identifier.\<close>

definition answer_json :: "'v json_api \<Rightarrow> (uuid \<Rightarrow> string) \<Rightarrow> 'v ask_answer \<Rightarrow> 'v" where
  "answer_json J show_uuid a = js_object J
     [(''answer'', js_string J (aa_answer a)),
      (''citations'', js_array J (map (\<lambda>(c, d, ord). js_object J
         [(''chunk_id'', js_string J (show_uuid c)), (''document_id'', js_string J (show_uuid d)),
          (''ord'', js_int J (sint ord))]) (aa_citations a))),
      (''signals'', aa_signals a), (''mode_used'', js_string J (aa_mode_used a))]"

text \<open>One request: the extractor, the handler, the response.\<close>

definition serve_ask ::
  "('r, 'v, 'k, 'h, 'w) ask_env \<Rightarrow> 'v body_api \<Rightarrow> (uuid \<Rightarrow> string) \<Rightarrow> http_faults \<Rightarrow> json_rejection + 'v \<Rightarrow> database
     \<Rightarrow> 'w \<Rightarrow> (nat \<times> 'v) \<times> 'w" where
  "serve_ask E D show_uuid hf request db w =
     (case ask_json D request of
        Inl e \<Rightarrow> (into_response (ae_json E) e, w)
      | Inr body \<Rightarrow>
          (case ask_handler E hf body db w of
             (Inl e, w') \<Rightarrow> (into_response (ae_json E) e, w')
           | (Inr a, w') \<Rightarrow> ((200, answer_json (ae_json E) show_uuid a), w')))"

section \<open>The statement always contains the call\<close>

lemma embed_call_prefix:
  "find_sub embed_call (''\<newline>'' @ ''WITH RECURSIVE\<newline>'' @ ''  q_emb AS (SELECT pgrg.embed($1) AS v),\<newline>'' @ rest)
     = Some 35"
  by (simp add: embed_call_def starts_with_def)

lemma embed_call_found: "find_sub embed_call (build_query_sql Hybrid) = Some 35"
  unfolding build_query_sql_def Let_def by (rule embed_call_prefix)

lemma retrieval_sql_Inr: "\<exists>sql. retrieval_sql v = Inr sql"
  by (simp add: retrieval_sql_def Let_def str_contains_def embed_call_found)

section \<open>Errors\<close>

lemma handler_provider_Inl: "handler_provider E hf body db w = (Inl e, w') \<Longrightarrow> \<exists>m. e = Internal m"
  by (auto simp: handler_provider_def map_prod_def map_sum_def split: option.splits prod.splits sum.splits)

lemma retrieve_chunks_Inl: "retrieve_chunks E f body v db = Inl e \<Longrightarrow> \<exists>m. e = Internal m"
  by (auto simp: retrieve_chunks_def split: option.splits sum.splits)

lemma ask_handler_Inl:
  assumes "ask_handler E hf body db w = (Inl e, w')"
  shows "if hf_connect hf = None \<and> hf_namespace hf = None
           \<and> \<not> list_ex (\<lambda>n. nr_name n = ab_namespace body) (db_namespaces db)
         then e = UnknownNamespace else (\<exists>m. e = Internal m)"
proof -
  consider "hf_connect hf \<noteq> None" | "hf_connect hf = None" "hf_namespace hf \<noteq> None"
    | "hf_connect hf = None" "hf_namespace hf = None"
        "\<not> list_ex (\<lambda>n. nr_name n = ab_namespace body) (db_namespaces db)"
    | "hf_connect hf = None" "hf_namespace hf = None"
        "list_ex (\<lambda>n. nr_name n = ab_namespace body) (db_namespaces db)"
    by blast
  then show ?thesis
  proof cases
    case 4
    then have "check_namespace (hf_namespace hf) db (ab_namespace body) = Inr ()" by (simp add: check_namespace_def)
    with 4 assms have "\<exists>m. e = Internal m"
      by (auto simp: ask_handler_def Let_def split: sum.splits prod.splits if_splits
          dest: handler_provider_Inl retrieve_chunks_Inl)
    with 4 show ?thesis by simp
  qed (use assms in \<open>auto simp: ask_handler_def check_namespace_def\<close>)
qed

lemma ask_handler_known:
  assumes "fst (ask_handler E hf body db w) = Inr a"
  shows "hf_connect hf = None \<and> hf_namespace hf = None
    \<and> list_ex (\<lambda>n. nr_name n = ab_namespace body) (db_namespaces db)"
  using assms by (auto simp: ask_handler_def check_namespace_def split: option.splits if_splits)

text \<open>
  C18 (error responses): whatever fails, the response is one of five constant bodies, so no text of the
  cause reaches the client; it is 400 exactly for a body the extractor rejects, and 404 exactly for a
  namespace that was looked up and does not exist.
\<close>

theorem http_errors_sanitized:
  "(fst (fst (serve_ask E D show_uuid hf request db w)) = 200
     \<or> fst (serve_ask E D show_uuid hf request db w) \<in>
         {(400, error_body (ae_json E) ''invalid JSON body'' ''bad_request''),
          (400, error_body (ae_json E) ''content-type must be application/json'' ''bad_request''),
          (400, error_body (ae_json E) ''bad request'' ''bad_request''),
          (404, error_body (ae_json E) ''unknown namespace'' ''unknown_namespace''),
          (500, error_body (ae_json E) ''internal error'' ''internal'')})
   \<and> (fst (fst (serve_ask E D show_uuid hf request db w)) = 400
       \<longleftrightarrow> (case ask_json D request of Inl _ \<Rightarrow> True | Inr _ \<Rightarrow> False))
   \<and> (fst (fst (serve_ask E D show_uuid hf request db w)) = 404
       \<longleftrightarrow> (case ask_json D request of Inl _ \<Rightarrow> False | Inr body \<Rightarrow>
             hf_connect hf = None \<and> hf_namespace hf = None
             \<and> \<not> list_ex (\<lambda>n. nr_name n = ab_namespace body) (db_namespaces db)))"
proof (cases "ask_json D request")
  case (Inl e)
  then obtain rej where "e = BadRequest (rejection_message rej)"
    by (auto simp: ask_json_def split: sum.splits option.splits) (metis rejection_message.simps(1))
  then show ?thesis using Inl by (cases rej) (simp_all add: serve_ask_def)
next
  case (Inr body)
  obtain r w' where h: "ask_handler E hf body db w = (r, w')" by fastforce
  show ?thesis
  proof (cases r)
    case (Inl e)
    with ask_handler_Inl[of E hf body db w e w'] h Inr show ?thesis
      by (auto simp: serve_ask_def split: if_splits)
  next
    case (Inr a)
    with ask_handler_known[of E hf body db w a] h \<open>ask_json D request = Inr body\<close> show ?thesis
      by (simp add: serve_ask_def)
  qed
qed

section \<open>The two surfaces\<close>

text \<open>Both wrap the query in the same join, whose rows are its chunks.\<close>

lemma in_ask_rows:
  "pc \<in> set (ask_rows db rows) \<longleftrightarrow> (\<exists>r \<in> set rows. \<exists>ch \<in> set (db_chunks db). cw_id ch = qr_chunk_id r
     \<and> pc = \<lparr>pc_chunk_id = qr_chunk_id r, pc_document_id = qr_document_id r, pc_ord = cw_ord ch,
             pc_text = qr_text r, pc_token_count = cw_token_count ch\<rparr>)"
  by (auto simp: ask_rows_def image_iff)

text \<open>A prompt chunk of either surface is a chunk of the namespace that passes the filter.\<close>

definition visible_chunk :: "'v retr_ext \<Rightarrow> 'v option \<Rightarrow> string \<Rightarrow> database \<Rightarrow> prompt_chunk \<Rightarrow> bool" where
  "visible_chunk X fil ns db pc \<longleftrightarrow> (\<exists>c \<in> set (db_chunks db). cw_namespace c = ns \<and> passes X fil c
     \<and> pc_chunk_id pc = cw_id c \<and> pc_document_id pc = cw_document_id c \<and> pc_ord pc = cw_ord c
     \<and> pc_text pc = cw_text c \<and> pc_token_count pc = cw_token_count c)"

lemma ask_rows_visible:
  assumes "retr_ok X" and "distinct (map cw_id (db_chunks db))"
    and "run_query X m q v fil top_k ns hops w db = Inr rows" and "pc \<in> set (ask_rows db rows)"
  shows "visible_chunk X fil ns db pc"
proof -
  from assms(4) obtain r ch where r: "r \<in> set rows" "ch \<in> set (db_chunks db)" "cw_id ch = qr_chunk_id r"
      "pc = \<lparr>pc_chunk_id = qr_chunk_id r, pc_document_id = qr_document_id r, pc_ord = cw_ord ch,
             pc_text = qr_text r, pc_token_count = cw_token_count ch\<rparr>"
    unfolding in_ask_rows by blast
  from assms(1-3) r(1) obtain c where c: "c \<in> set (db_chunks db)" "qr_chunk_id r = cw_id c"
      "qr_document_id r = cw_document_id c" "qr_text r = cw_text c" "cw_namespace c = ns" "passes X fil c"
    by (rule run_query_visible)
  have "ch = c" using assms(2) r(2,3) c(1,2)
    by (intro inj_onD[of cw_id "set (db_chunks db)"]) (simp_all add: distinct_map)
  with c r(4) show ?thesis by (auto simp: visible_chunk_def)
qed

text \<open>An answer of either surface comes from \<open>no_context\<close> or from one call of the core.\<close>

lemma ask_handler_Inr:
  assumes "ask_handler E hf body db w = (Inr a, w')"
  obtains v rows where "run_query (ae_retr E) Hybrid (ab_q body) v (ab_filter body) (sint (ab_top_k body))
        (ab_namespace body) (ab_hops body) rrf_weights_default db = Inr rows"
      "a = no_context (ae_json E) \<or> (\<exists>req p w1 out. ar_chunks req = ask_rows db rows
         \<and> ask (ae_json E) (ae_captures E) (ae_clock E) req p w1 = (Inr out, w') \<and> a = answer_of out)"
proof -
  from assms obtain v chunks where c: "retrieve_chunks E (hf_retrieve hf) body v db = Inr chunks"
      "a = no_context (ae_json E) \<or> (\<exists>req p w1 out. ar_chunks req = chunks
         \<and> ask (ae_json E) (ae_captures E) (ae_clock E) req p w1 = (Inr out, w') \<and> a = answer_of out)"
    by (auto simp: ask_handler_def Let_def split: option.splits sum.splits prod.splits if_splits)
      (metis ask_request.select_convs(2))+
  from c(1) obtain v' rows where "run_query (ae_retr E) Hybrid (ab_q body) v' (ab_filter body) (sint (ab_top_k body))
        (ab_namespace body) (ab_hops body) rrf_weights_default db = Inr rows" "chunks = ask_rows db rows"
    by (auto simp: retrieve_chunks_def split: option.splits sum.splits)
  with c(2) that show thesis by blast
qed

definition no_http_faults :: http_faults where
  "no_http_faults = \<lparr>hf_connect = None, hf_namespace = None, hf_build = None, hf_resolve = (None, None, None),
     hf_default = None, hf_providers = None, hf_model = None, hf_retrieve = None, hf_budget = None\<rparr>"

lemma no_http_faults_simps [simp]:
  "hf_connect no_http_faults = None" "hf_namespace no_http_faults = None" "hf_build no_http_faults = None"
  "hf_resolve no_http_faults = (None, None, None)" "hf_default no_http_faults = None"
  "hf_providers no_http_faults = None" "hf_model no_http_faults = None" "hf_retrieve no_http_faults = None"
  "hf_budget no_http_faults = None"
  by (simp_all add: no_http_faults_def)

lemma tokio_build_of_spi:
  assumes "spi_build_provider_impl C F de kp db name w = (Inr p, w')"
  shows "tokio_build_provider_impl C F de kp None db name w = (Inr p, w')"
proof -
  obtain r w1 where t: "tokio_build_provider_impl C F de kp None db name w = (r, w1)" by fastforce
  then show ?thesis using factories_agree[of C F de kp db name w] assms by (cases r) auto
qed

definition demo_ask_db :: database where
  "demo_ask_db = demo_tables\<lparr>
     db_namespaces := [\<lparr>nr_name = ''ns'', nr_embedding_model = ''m'', nr_llm_provider = Some ''stub'',
       nr_settings = JObj []\<rparr>],
     db_providers := [\<lparr>pv_name = ''stub'', pv_kind = ''llm'', pv_provider = ''mock'', pv_base_url = None,
       pv_model = Some ''m'', pv_credential = Some ''see [1]'', pv_config = JObj []\<rparr>]\<rparr>"

definition demo_ask_env :: "(unit, jv, bytes, unit, nat) ask_env" where
  "demo_ask_env = \<lparr>ae_json = jv_api [], ae_retr = demo_retr,
     ae_transport = \<lparr>tr_get = (\<lambda>_ _ w. (Inl [], w)), tr_post = (\<lambda>_ _ _ _ w. (Inl [], w)), tr_status = (\<lambda>_. 500),
       tr_status_display = (\<lambda>_. []), tr_body = (\<lambda>_ w. (Inl [], w))\<rparr>,
     ae_crypto = demo_crypto, ae_files = demo_files, ae_de_extraction = (\<lambda>_. Inl []),
     ae_clock = \<lparr>ck_now = id, ck_sleep = (\<lambda>n w. w + n)\<rparr>, ae_captures = (\<lambda>_. [''1'']),
     ae_sha = (\<lambda>_. replicate 32 (CHR ''x'')), ae_vector_in = (\<lambda>_. Inr [Fin 1]), ae_render = (\<lambda>_. []),
     ae_jsonb_text = (\<lambda>_. []), ae_int_in = (\<lambda>_. Inl []), ae_key_path = None, ae_embed_dim = 0\<rparr>"

text \<open>
  C17 (grounded answers): an answer of the endpoint cites only chunks of the requested namespace that
  pass the request's filter, each with the document and position it has in the database.
\<close>

theorem http_answer_grounded:
  assumes "retr_ok (ae_retr E)" and "distinct (map cw_id (db_chunks db))"
    and "ask_handler E hf body db w = (Inr a, w')"
  shows "\<forall>(ci, d, ord) \<in> set (aa_citations a). \<exists>c \<in> set (db_chunks db).
    cw_namespace c = ab_namespace body \<and> passes (ae_retr E) (ab_filter body) c
    \<and> cw_id c = ci \<and> cw_document_id c = d \<and> cw_ord c = ord"
proof -
  from assms(3) obtain v rows where r: "run_query (ae_retr E) Hybrid (ab_q body) v (ab_filter body)
      (sint (ab_top_k body)) (ab_namespace body) (ab_hops body) rrf_weights_default db = Inr rows"
      "a = no_context (ae_json E) \<or> (\<exists>req p w1 out. ar_chunks req = ask_rows db rows
         \<and> ask (ae_json E) (ae_captures E) (ae_clock E) req p w1 = (Inr out, w') \<and> a = answer_of out)"
    by (rule ask_handler_Inr)
  note vis = ask_rows_visible[OF assms(1,2) r(1), unfolded visible_chunk_def]
  from r(2) show ?thesis
  proof (elim disjE exE conjE)
    assume "a = no_context (ae_json E)"
    then show ?thesis by (simp add: no_context_def)
  next
    fix req p w1 out
    assume a: "ar_chunks req = ask_rows db rows" "a = answer_of out"
      and "ask (ae_json E) (ae_captures E) (ae_clock E) req p w1 = (Inr out, w')"
    from ask_cites_chunks[OF this(3)] show ?thesis
      unfolding a by (fastforce simp: answer_of_def dest: vis)
  qed
qed

definition demo_body :: "jv ask_body" where
  "demo_body = \<lparr>ab_q = ''q'', ab_filter = None, ab_top_k = 10, ab_namespace = ''ns'', ab_hops = 0,
     ab_llm_provider = None\<rparr>"

definition demo_fused :: query_row where
  "demo_fused = fused_row [(Uuid 7, 1, ''vec'', Fin 1)] demo_row"

lemma demo_run:
  "run_query demo_retr Hybrid ''q'' [Fin 1] None 10 ''ns'' 0 rrf_weights_default demo_ask_db = Inr [demo_fused]"
proof -
  have "union_lanes demo_retr Hybrid ''q'' [Fin 1] None ''ns'' 0 rrf_weights_default demo_ask_db
      = [(Uuid 7, 1, ''vec'', Fin 1)]"
    by (simp add: union_lanes_def vec_lane_def bm_lane_def graph_lane_def seed_entities_def demo_tables_def
        demo_ask_db_def demo_retr_def demo_row_def passes_def numbered_def lane_rows_def walk.simps walk_step_def
        rrf_weights_default_def)
  then show ?thesis
    by (simp add: run_query_def fused_rows_def demo_fused_def)
      (simp add: demo_ask_db_def demo_tables_def demo_retr_def demo_row_def)
qed

lemma demo_ask_rows:
  "ask_rows demo_ask_db [demo_fused] = [\<lparr>pc_chunk_id = Uuid 7, pc_document_id = Uuid 1, pc_ord = 0,
     pc_text = ''hello'', pc_token_count = 1\<rparr>]"
  by (simp add: ask_rows_def demo_ask_db_def demo_tables_def demo_fused_def fused_row_def Let_def demo_row_def)


definition demo_prompt_request :: ask_request where
  "demo_prompt_request = \<lparr>ar_question = ''q'', ar_chunks = ask_rows demo_ask_db [demo_fused], ar_provider = ''stub'',
     ar_model = ''m'', ar_token_budget = 4000\<rparr>"

lemma demo_core_ask:
  obtains out :: "jv ask_result" where "ask (jv_api []) (\<lambda>_. [''1'']) \<lparr>ck_now = id, ck_sleep = (\<lambda>n w. w + n)\<rparr>
      demo_prompt_request (mock_llm (with_stub_answer mock_new ''see [1]'')) (0 :: nat) = (Inr out, 0)"
    "as_citations out = [\<lparr>ci_n = 1, ci_chunk_id = Uuid 7, ci_document_id = Uuid 1, ci_ord = 0\<rparr>]"
proof -
  have "parse_usize ''1'' = Some 1"
    by (simp add: parse_usize_def is_digit_def digits_val_def digit_val_def)
  moreover obtain b where "build_ask_prompt ''q'' (ask_rows demo_ask_db [demo_fused]) 4000 = Inr b"
      "bp_id_map b = [Uuid 7]" "bp_doc_map b = [Uuid 1]" "bp_ord_map b = [0]"
    by (simp add: build_ask_prompt_def sless_i32 demo_ask_rows)
  ultimately show thesis using that
    by (auto simp: ask_def sr_apply sr_bind_def mock_llm_def mock_complete_def with_stub_answer_def mock_new_def
        extract_citations_def demo_prompt_request_def)
qed

lemma demo_ask_resolve:
  "resolve_provider None (sql_namespace_provider ''ns'' demo_ask_db) (sql_provider_refs demo_ask_db) = Inr ''stub''"
  "provider_model_for demo_ask_db ''stub'' = ''m''"
  by (simp_all add: resolve_provider_def sql_namespace_provider_def provider_model_for_def demo_ask_db_def)

lemma demo_build:
  "spi_build_provider_impl demo_crypto demo_files (\<lambda>_. Inl []) None demo_ask_db ''stub'' w
     = (Inr (ImplMock (with_stub_answer mock_new ''see [1]'')), w)"
  by (simp add: spi_build_provider_impl_def sql_provider_row_def demo_ask_db_def plaintext_credential_def
      is_encrypted_def ENV_PREFIX_def starts_with_def dispatch_provider_def)

lemma demo_expand: "expand sha t 0 c [] = Some []"
  by (simp add: expand.simps)

lemma demo_embed:
  "pgrg_embed demo_ask_env ''q'' = Inr [Fin 1]"
  "\<exists>v. em_embed (build_embedder (ae_sha demo_ask_env) (ae_embed_dim demo_ask_env)) ''q'' w = (Inr v, w)"
  by (simp_all add: pgrg_embed_def embed_text_def deterministic_embed_def demo_ask_env_def embed_dims_def demo_expand
      build_embedder_def deterministic_backend_def Let_def sr_apply)

lemma demo_env_simps [simp]:
  "ae_json demo_ask_env = jv_api []" "ae_retr demo_ask_env = demo_retr" "ae_crypto demo_ask_env = demo_crypto"
  "ae_files demo_ask_env = demo_files" "ae_de_extraction demo_ask_env = (\<lambda>_. Inl [])" "ae_key_path demo_ask_env = None"
  "ae_clock demo_ask_env = \<lparr>ck_now = id, ck_sleep = (\<lambda>n w. w + n)\<rparr>" "ae_captures demo_ask_env = (\<lambda>_. [''1''])"
  "ae_vector_in demo_ask_env = (\<lambda>_. Inr [Fin 1])"
  by (simp_all add: demo_ask_env_def)

lemma demo_ask_budget: "ask_budget demo_ask_env ns demo_ask_db = Inr None"
  by (simp add: ask_budget_def demo_ask_db_def jsonb_get_text_def)

lemma demo_pgrg_ask:
  "\<exists>a. pgrg_ask demo_ask_env ''q'' None 10 ''ns'' 0 None demo_ask_db 0 = (Inr a, 0)
     \<and> aa_citations a = [(Uuid 7, Uuid 1, 0)]"
proof -
  obtain out :: "jv ask_result" where o: "ask (jv_api []) (\<lambda>_. [''1'']) \<lparr>ck_now = id, ck_sleep = (\<lambda>n w. w + n)\<rparr>
      demo_prompt_request (mock_llm (with_stub_answer mock_new ''see [1]'')) (0 :: nat) = (Inr out, 0)"
      "as_citations out = [\<lparr>ci_n = 1, ci_chunk_id = Uuid 7, ci_document_id = Uuid 1, ci_ord = 0\<rparr>]"
    by (rule demo_core_ask)
  note o = o[unfolded demo_prompt_request_def]
  have "pgrg_query (jv_api []) demo_retr (pgrg_embed demo_ask_env) (ae_render demo_ask_env) ''q'' None 10 ''ns'' 0 None
      ''hybrid'' demo_ask_db = Inr [demo_fused]"
    using demo_run by (simp add: pgrg_query_def mode_parse_def demo_embed query_weights_def)
  moreover have "ask_rows demo_ask_db [demo_fused] \<noteq> []" by (simp add: demo_ask_rows)
  ultimately show ?thesis
    using o by (simp add: pgrg_ask_def demo_ask_resolve demo_build demo_ask_budget Let_def answer_of_def)
qed

lemma demo_handler:
  "\<exists>a. ask_handler demo_ask_env no_http_faults demo_body demo_ask_db 0 = (Inr a, 0)
     \<and> aa_citations a = [(Uuid 7, Uuid 1, 0)]"
proof -
  obtain out :: "jv ask_result" where o: "ask (jv_api []) (\<lambda>_. [''1'']) \<lparr>ck_now = id, ck_sleep = (\<lambda>n w. w + n)\<rparr>
      demo_prompt_request (mock_llm (with_stub_answer mock_new ''see [1]'')) (0 :: nat) = (Inr out, 0)"
      "as_citations out = [\<lparr>ci_n = 1, ci_chunk_id = Uuid 7, ci_document_id = Uuid 1, ci_ord = 0\<rparr>]"
    by (rule demo_core_ask)
  note o = o[unfolded demo_prompt_request_def]
  obtain v where v: "em_embed (build_embedder (ae_sha demo_ask_env) (ae_embed_dim demo_ask_env)) ''q'' (0 :: nat) = (Inr v, 0)"
    by (rule exE[OF demo_embed(2)[of "0 :: nat"]])
  have p: "handler_provider demo_ask_env no_http_faults demo_body demo_ask_db 0
      = (Inr (ImplMock (with_stub_answer mock_new ''see [1]'')), 0)"
    using tokio_build_of_spi[OF demo_build[of 0]] demo_ask_resolve(1)
    by (simp add: handler_provider_def tokio_resolve_or_default_def demo_body_def)
  have r: "retrieve_chunks demo_ask_env None demo_body v demo_ask_db = Inr (ask_rows demo_ask_db [demo_fused])"
    using retrieval_sql_Inr[of v] demo_run by (auto simp: retrieve_chunks_def demo_body_def)
  have c: "check_namespace None demo_ask_db (ab_namespace demo_body) = Inr ()"
    by (simp add: check_namespace_def demo_ask_db_def demo_body_def)
  have n: "resolve_provider_name no_http_faults demo_body demo_ask_db = ''stub''"
    using demo_ask_resolve(1) by (simp add: resolve_provider_name_def demo_body_def)
  have "ask_rows demo_ask_db [demo_fused] \<noteq> []" "ab_q demo_body = ''q''" by (simp_all add: demo_ask_rows demo_body_def)
  then show ?thesis
    using o v p r c n demo_ask_resolve(2) demo_ask_budget by (simp add: ask_handler_def Let_def answer_of_def)
qed

theorem http_answer_grounded_witness:
  "\<exists>a. ask_handler demo_ask_env no_http_faults demo_body demo_ask_db 0 = (Inr a, 0) \<and> aa_citations a = [(Uuid 7, Uuid 1, 0)]
     \<and> (\<exists>c. c \<in> set (db_chunks demo_ask_db) \<and> cw_namespace c = ''ns'' \<and> cw_id c = Uuid 7)"
proof -
  obtain a where a: "ask_handler demo_ask_env no_http_faults demo_body demo_ask_db 0 = (Inr a, 0)"
      "aa_citations a = [(Uuid 7, Uuid 1, 0)]"
    using demo_handler by blast
  have "distinct (map cw_id (db_chunks demo_ask_db))" by (simp add: demo_ask_db_def demo_tables_def)
  with http_answer_grounded[of demo_ask_env demo_ask_db no_http_faults demo_body 0 a 0] a demo_retr_ok show ?thesis
    by (auto simp: demo_body_def)
qed

text \<open>The retrieval of both: the same vector, the same statement, the same join.\<close>

lemma retrieval_agrees:
  fixes E :: "('r, 'v, 'k, 'h, 'w) ask_env"
  assumes "pgrg_query J (ae_retr E) (pgrg_embed E) (ae_render E) q fil top_k ns hops None ''hybrid'' db = Inr rows"
  shows "\<exists>v. (\<forall>w :: 'w. em_embed (build_embedder (ae_sha E) (ae_embed_dim E)) q w = (Inr v, w))
    \<and> (\<forall>lp. retrieve_chunks E None \<lparr>ab_q = q, ab_filter = fil, ab_top_k = top_k, ab_namespace = ns,
         ab_hops = hops, ab_llm_provider = lp\<rparr> v db = Inr (ask_rows db rows))"
proof -
  from assms obtain v' where v': "pgrg_embed E q = Inr v'"
      "run_query (ae_retr E) Hybrid q v' fil (sint top_k) ns hops rrf_weights_default db = Inr rows"
    by (auto simp: pgrg_query_def mode_parse_def query_weights_def map_sum_id_Inr split: sum.splits)
  from v'(1) obtain v where v: "deterministic_embed (ae_sha E) q (embed_dims (ae_embed_dim E)) = Some v"
      "ae_vector_in E (vector_literal v) = Inr v'"
    by (auto simp: pgrg_embed_def embed_text_def split: option.splits)
  have "em_embed (build_embedder (ae_sha E) (ae_embed_dim E)) q w = (Inr v, w)" for w :: 'w
    using v(1) by (simp add: build_embedder_def deterministic_backend_def Let_def sr_apply)
  moreover have "retrieve_chunks E None \<lparr>ab_q = q, ab_filter = fil, ab_top_k = top_k, ab_namespace = ns,
      ab_hops = hops, ab_llm_provider = lp\<rparr> v db = Inr (ask_rows db rows)" for lp
    using v(2) v'(2) retrieval_sql_Inr[of v] by (auto simp: retrieve_chunks_def)
  ultimately show ?thesis by blast
qed



end
