(* ===== verification/Admin.thy ===== *)
theory Admin
  imports Retrieval Providers
begin

text \<open>
  The administration functions of the extension: namespaces, providers, status, deletion, health
  (\<^verbatim>\<open>pg_raggraph/src/admin.rs\<close>) and \<open>set_ingest_profile\<close> (\<^verbatim>\<open>pg_raggraph/src/ingest_profile.rs\<close>).
  \<open>ereport!(ERROR)\<close> aborts the statement: it is the left of a sum and the tables stay as they were.
  \<open>ON DELETE CASCADE\<close> follows the foreign keys of \<^verbatim>\<open>pg_raggraph/sql/001_tables.sql\<close>.
\<close>

section \<open>Deletion\<close>

text \<open>Documents, their chunks, and the links of these chunks. Entities have no key to a document.\<close>

definition cascade_documents :: "(doc_row \<Rightarrow> bool) \<Rightarrow> database \<Rightarrow> database" where
  "cascade_documents gone db =
     (let docs = map dr_id (filter gone (db_documents db));
          chunks = map cw_id (filter (\<lambda>c. List.member docs (cw_document_id c)) (db_chunks db))
      in db\<lparr>db_documents := filter (\<lambda>d. \<not> gone d) (db_documents db),
            db_chunks := filter (\<lambda>c. \<not> List.member docs (cw_document_id c)) (db_chunks db),
            db_chunk_entities := filter (\<lambda>l. \<not> List.member chunks (ce_chunk_id l)) (db_chunk_entities db)\<rparr>)"

definition sql_delete_namespace :: "string \<Rightarrow> database \<Rightarrow> database" where
  "sql_delete_namespace name db =
     (if list_ex (\<lambda>n. nr_name n = name) (db_namespaces db) then
        cascade_documents (\<lambda>d. dr_namespace d = name)
          (db\<lparr>db_namespaces := filter (\<lambda>n. nr_name n \<noteq> name) (db_namespaces db)\<rparr>)
      else db)"

text \<open>\<open>namespace_drop\<close>, which \<open>delete_namespace\<close> only renames.\<close>

definition namespace_drop :: "string \<Rightarrow> bool \<Rightarrow> database \<Rightarrow> string + database" where
  "namespace_drop name cascade db =
     (if cascade then Inr (sql_delete_namespace name db)
      else if list_ex (\<lambda>d. dr_namespace d = name) (db_documents db) then
        Inl (''namespace `'' @ name @ ''` has documents; pass cascade := true to delete'')
      else Inr (sql_delete_namespace name db))"

definition delete_namespace :: "string \<Rightarrow> bool \<Rightarrow> database \<Rightarrow> string + database" where
  "delete_namespace name cascade db = namespace_drop name cascade db"

text \<open>The result tells whether a row was deleted.\<close>

definition delete_document :: "uuid \<Rightarrow> database \<Rightarrow> bool \<times> database" where
  "delete_document document_id db =
     (0 < length (filter (\<lambda>d. dr_id d = document_id) (db_documents db)),
      cascade_documents (\<lambda>d. dr_id d = document_id) db)"

section \<open>Namespaces\<close>

text \<open>
  The vector indexes. \<open>parity\<close> is \<open>current_setting('pg_raggraph.parity_mode', true)::bool\<close>, none
  when the setting is unknown; the function is that of migration 005.
\<close>

datatype ann_index = Hnsw | IvfFlat

definition maybe_apply_parity_indexes :: "bool option \<Rightarrow> database \<Rightarrow> ann_index \<Rightarrow> ann_index" where
  "maybe_apply_parity_indexes parity db idx =
     (if parity \<noteq> Some True then idx
      else if db_chunks db \<noteq> [] \<or> db_entities db \<noteq> [] then idx
      else IvfFlat)"

definition sql_upsert_namespace :: "namespace_row \<Rightarrow> database \<Rightarrow> database" where
  "sql_upsert_namespace n db =
     db\<lparr>db_namespaces :=
       (if list_ex (\<lambda>x. nr_name x = nr_name n) (db_namespaces db)
        then map (\<lambda>x. if nr_name x = nr_name n then n else x) (db_namespaces db)
        else db_namespaces db @ [n])\<rparr>"

definition namespace_create ::
  "bool option \<Rightarrow> string \<Rightarrow> string \<Rightarrow> string option \<Rightarrow> jv \<Rightarrow> database \<times> ann_index \<Rightarrow> database \<times> ann_index" where
  "namespace_create parity name embedding_model llm_provider settings s =
     (let db = sql_upsert_namespace \<lparr>nr_name = name, nr_embedding_model = embedding_model,
                 nr_llm_provider = llm_provider, nr_settings = settings\<rparr> (fst s)
      in (db, maybe_apply_parity_indexes parity db (snd s)))"

text \<open>The column \<open>settings\<close> is not null, so \<open>COALESCE\<close> keeps it.\<close>

definition set_ingest_profile :: "string \<Rightarrow> string \<Rightarrow> database \<Rightarrow> string + database" where
  "set_ingest_profile namespace profile db =
     (if ingest_profile_parse profile = None then
        Inl (''pgrg.set_ingest_profile: unknown profile '' @ CHR 0x27 # profile @ CHR 0x27
          # ''; valid: conservative|balanced|aggressive|max'')
      else Inr (db\<lparr>db_namespaces := map (\<lambda>n. if nr_name n = namespace
             then n\<lparr>nr_settings := jsonb_concat (nr_settings n) (JObj [(''ingest_profile'', JStr profile)])\<rparr>
             else n) (db_namespaces db)\<rparr>))"

section \<open>Providers\<close>

definition load_master_key ::
  "('h, 'w) file_api \<Rightarrow> string option \<Rightarrow> 'w \<Rightarrow> (string + master_key option) \<times> 'w" where
  "load_master_key F key_path w =
     (case key_path of
        None \<Rightarrow> (Inr None, w)
      | Some path \<Rightarrow>
          (case load_from_path F path w of
             (Inr k, w') \<Rightarrow> (Inr (Some k), w')
           | (Inl e, w') \<Rightarrow>
               (Inl (''pg_raggraph.master_key_path failed to load: '' @ core_error_display e), w')))"

definition stored_credential ::
  "('k, 'w) crypto_api \<Rightarrow> ('h, 'w) file_api \<Rightarrow> string option \<Rightarrow> string option \<Rightarrow> 'w
     \<Rightarrow> (string + string option) \<times> 'w" where
  "stored_credential C F key_path credential w =
     (case credential of
        None \<Rightarrow> (Inr None, w)
      | Some c \<Rightarrow>
          if is_encrypted c then (Inr (Some c), w)
          else
            (case load_master_key F key_path w of
               (Inl e, w1) \<Rightarrow> (Inl e, w1)
             | (Inr None, w1) \<Rightarrow> (Inr (Some c), w1)
             | (Inr (Some key), w1) \<Rightarrow>
                 (case encrypt_v1 C c (mk_bytes key) w1 of
                    (Inr s, w2) \<Rightarrow> (Inr (Some s), w2)
                  | (Inl e, w2) \<Rightarrow> (Inl (''credential encrypt failed: '' @ core_error_display e), w2))))"

definition sql_upsert_provider :: "provider_row \<Rightarrow> database \<Rightarrow> database" where
  "sql_upsert_provider p db =
     db\<lparr>db_providers :=
       (if list_ex (\<lambda>x. pv_name x = pv_name p) (db_providers db)
        then map (\<lambda>x. if pv_name x = pv_name p then p else x) (db_providers db)
        else db_providers db @ [p])\<rparr>"

definition provider_create ::
  "('k, 'w) crypto_api \<Rightarrow> ('h, 'w) file_api \<Rightarrow> string option \<Rightarrow> string \<Rightarrow> string \<Rightarrow> string \<Rightarrow> string option
     \<Rightarrow> string option \<Rightarrow> string option \<Rightarrow> jv \<Rightarrow> database \<Rightarrow> 'w \<Rightarrow> (string + database) \<times> 'w" where
  "provider_create C F key_path name kind provider base_url model credential config db w =
     (if kind \<noteq> ''llm'' \<and> kind \<noteq> ''embedding'' then
        (Inl (''provider kind must be '' @ CHR 0x27 # ''llm'' @ CHR 0x27 # '' or '' @ CHR 0x27 # ''embedding''
           @ CHR 0x27 # '', got `'' @ kind @ ''`''), w)
      else
        (case stored_credential C F key_path credential w of
           (Inl e, w') \<Rightarrow> (Inl e, w')
         | (Inr stored, w') \<Rightarrow>
             (Inr (sql_upsert_provider \<lparr>pv_name = name, pv_kind = kind, pv_provider = provider,
                pv_base_url = base_url, pv_model = model, pv_credential = stored, pv_config = config\<rparr> db), w')))"

definition provider_drop :: "string \<Rightarrow> database \<Rightarrow> database" where
  "provider_drop name db = db\<lparr>db_providers := filter (\<lambda>p. pv_name p \<noteq> name) (db_providers db)\<rparr>"

definition json_opt :: "string option \<Rightarrow> jv" where
  "json_opt x = (case x of None \<Rightarrow> JNull | Some s \<Rightarrow> JStr s)"

text \<open>\<open>name_le\<close> is the collation of \<open>ORDER BY name\<close>.\<close>

definition provider_json :: "provider_row \<Rightarrow> jv" where
  "provider_json p = JObj
     [(''name'', JStr (pv_name p)), (''kind'', JStr (pv_kind p)), (''provider'', JStr (pv_provider p)),
      (''base_url'', json_opt (pv_base_url p)), (''model'', json_opt (pv_model p)),
      (''credential'', json_opt (map_option redact (pv_credential p))), (''config'', pv_config p)]"

definition provider_list :: "(string \<Rightarrow> string \<Rightarrow> bool) \<Rightarrow> database \<Rightarrow> jv" where
  "provider_list name_le db =
     JArr (map provider_json (stable_sort (\<lambda>a b. name_le (pv_name a) (pv_name b)) (db_providers db)))"

section \<open>Status and health\<close>

fun job_status_text :: "job_status \<Rightarrow> string" where
  "job_status_text Queued = ''queued''"
| "job_status_text Running = ''running''"
| "job_status_text JobCompleted = ''completed''"
| "job_status_text JobFailed = ''failed''"

text \<open>\<open>GROUP BY status\<close>: one row for every status that occurs, in an order nothing depends on.\<close>

definition status_counts :: "database \<Rightarrow> (string \<times> nat) list" where
  "status_counts db =
     map (\<lambda>s. (job_status_text s, length (filter (\<lambda>j. jb_status j = s) (db_jobs db))))
       (remdups (map jb_status (db_jobs db)))"

text \<open>\<open>summary[k] = v\<close>\<close>

fun json_set :: "string \<Rightarrow> 'a \<Rightarrow> (string \<times> 'a) list \<Rightarrow> (string \<times> 'a) list" where
  "json_set k v [] = [(k, v)]"
| "json_set k v ((k', v') # kvs) = (if k = k' then (k, v) # kvs else (k', v') # json_set k v kvs)"

definition status_summary :: "database \<Rightarrow> (string \<times> nat) list" where
  "status_summary db =
     foldl (\<lambda>summary (k, v). json_set k v summary)
       [(''queued'', 0), (''running'', 0), (''completed'', 0), (''failed'', 0)] (status_counts db)"

text \<open>
  \<open>fault\<close> is an SPI error other than the one of an empty result; \<open>show_uuid\<close> prints an identifier.
\<close>

definition status ::
  "(uuid \<Rightarrow> string) \<Rightarrow> string option \<Rightarrow> uuid option \<Rightarrow> database \<Rightarrow> string + jv option" where
  "status show_uuid fault job_id db =
     (case job_id of
        None \<Rightarrow> Inr (Some (JObj (map (\<lambda>(k, n). (k, JInt (int n))) (status_summary db))))
      | Some i \<Rightarrow>
          (case fault of
             Some e \<Rightarrow> Inl (''pgrg.status: SPI error: '' @ e)
           | None \<Rightarrow>
               Inr (map_option (\<lambda>j. JObj [(''id'', JStr (show_uuid i)), (''status'', JStr (job_status_text (jb_status j))),
                    (''source'', JStr (jb_source j)), (''error'', json_opt (jb_error j))])
                 (find (\<lambda>j. jb_id j = i) (db_jobs db)))))"

definition queue_depth :: "database \<Rightarrow> nat" where
  "queue_depth db = length (filter (\<lambda>j. jb_status j = Queued \<or> jb_status j = Running) (db_jobs db))"

text \<open>\<open>versions\<close> is the column of \<open>pgrg.migrations\<close>.\<close>

definition health :: "string \<Rightarrow> i32 \<Rightarrow> int list \<Rightarrow> database \<Rightarrow> jv" where
  "health pkg_version bgw_workers versions db = JObj
     [(''version'', JStr pkg_version),
      (''schema_version'', JInt (if versions = [] then 0 else Max (set versions))),
      (''queue_depth'', JInt (int (queue_depth db))), (''bgw_workers'', JInt (sint bgw_workers)),
      (''model_loaded'', JNull), (''last_error'', JNull)]"

section \<open>The constraints under administration\<close>

text \<open>The remaining keys of the schema: primary keys of names and the check of a provider's kind.\<close>

definition names_ok :: "database \<Rightarrow> bool" where
  "names_ok db \<longleftrightarrow> distinct (map nr_name (db_namespaces db)) \<and> distinct (map pv_name (db_providers db))
     \<and> (\<forall>p \<in> set (db_providers db). pv_kind p = ''llm'' \<or> pv_kind p = ''embedding'')"

datatype 'w admin_op =
    NamespaceCreate string string "string option" jv
  | NamespaceDrop string bool
  | SetIngestProfile string string
  | ProviderCreate string string string "string option" "string option" "string option" jv 'w
  | ProviderDrop string
  | DeleteDocument uuid

text \<open>What a session leaves in the tables: an error leaves them as they were.\<close>

fun admin_exec ::
  "('k, 'w) crypto_api \<Rightarrow> ('h, 'w) file_api \<Rightarrow> string option \<Rightarrow> 'w admin_op \<Rightarrow> database \<Rightarrow> database" where
  "admin_exec C F kp (NamespaceCreate name model provider settings) db =
     fst (namespace_create None name model provider settings (db, Hnsw))"
| "admin_exec C F kp (NamespaceDrop name cascade) db =
     (case namespace_drop name cascade db of Inl _ \<Rightarrow> db | Inr db' \<Rightarrow> db')"
| "admin_exec C F kp (SetIngestProfile ns profile) db =
     (case set_ingest_profile ns profile db of Inl _ \<Rightarrow> db | Inr db' \<Rightarrow> db')"
| "admin_exec C F kp (ProviderCreate name kind provider url model cred config w) db =
     (case provider_create C F kp name kind provider url model cred config db w of
        (Inl _, _) \<Rightarrow> db | (Inr db', _) \<Rightarrow> db')"
| "admin_exec C F kp (ProviderDrop name) db = provider_drop name db"
| "admin_exec C F kp (DeleteDocument i) db = snd (delete_document i db)"

lemma distinct_map_filter_key: "distinct (map f xs) \<Longrightarrow> distinct (map f (filter Q xs))"
  by (simp add: distinct_map inj_on_def)

lemma map_upsert_key:
  "k x = key \<Longrightarrow> map k (map (\<lambda>y. if k y = key then x else y) xs) = map k xs"
  by (induction xs) auto

text \<open>A deletion keeps every key, and every reference still has its row.\<close>

lemma cascade_keys:
  "distinct (map f (db_chunks db)) \<Longrightarrow> distinct (map f (db_chunks (cascade_documents gone db)))"
  "distinct (map g (db_chunk_entities db)) \<Longrightarrow> distinct (map g (db_chunk_entities (cascade_documents gone db)))"
  by (simp_all add: cascade_documents_def Let_def distinct_map_filter_key)

lemma cascade_simps [simp]:
  "db_namespaces (cascade_documents gone db) = db_namespaces db"
  "db_documents (cascade_documents gone db) = filter (\<lambda>d. \<not> gone d) (db_documents db)"
  "db_entities (cascade_documents gone db) = db_entities db"
  "db_relationships (cascade_documents gone db) = db_relationships db"
  "db_jobs (cascade_documents gone db) = db_jobs db" "db_providers (cascade_documents gone db) = db_providers db"
  "db_dim (cascade_documents gone db) = db_dim db"
  by (simp_all add: cascade_documents_def Let_def)

lemma cascade_documents_ok:
  assumes "db_ok db"
  shows "db_ok (cascade_documents gone db)"
proof -
  let ?db = "cascade_documents gone db"
  have sel: "db_namespaces ?db = db_namespaces db" "db_entities ?db = db_entities db"
      "db_relationships ?db = db_relationships db" "db_dim ?db = db_dim db"
      "db_documents ?db = filter (\<lambda>d. \<not> gone d) (db_documents db)"
      "set (db_chunks ?db) = {c \<in> set (db_chunks db). cw_document_id c \<notin> dr_id ` {d \<in> set (db_documents db). gone d}}"
      "set (db_chunk_entities ?db) = {l \<in> set (db_chunk_entities db). ce_chunk_id l \<notin>
         cw_id ` {c \<in> set (db_chunks db). cw_document_id c \<in> dr_id ` {d \<in> set (db_documents db). gone d}}}"
    by (auto simp: cascade_documents_def Let_def)
  have "cw_document_id c \<in> dr_id ` set (db_documents ?db)"
    if "c \<in> set (db_chunks ?db)" for c
    using that assms unfolding sel db_ok_def by fastforce
  moreover have "ce_chunk_id l \<in> cw_id ` set (db_chunks ?db)" if "l \<in> set (db_chunk_entities ?db)" for l
    using that assms unfolding sel db_ok_def by fastforce
  ultimately show ?thesis
    using assms unfolding db_ok_def sel by (simp add: distinct_map_filter_key cascade_keys)
qed


lemma image_survivors:
  assumes "inj_on f A" and "k \<in> f ` A"
  shows "k \<in> f ` {x \<in> A. \<not> Q x} \<longleftrightarrow> k \<notin> f ` {x \<in> A. Q x}"
proof -
  from assms(2) obtain x where x: "x \<in> A" "k = f x" by blast
  have "k \<in> f ` {y \<in> A. R y} \<longleftrightarrow> R x" for R
    using inj_onD[OF assms(1)] x by (auto simp: image_iff)
  then show ?thesis by simp
qed

text \<open>Under the keys, what survives is what still has its document, its chunk.\<close>

lemma cascade_rows:
  assumes "db_ok db"
  shows "set (db_chunks (cascade_documents gone db))
      = {c \<in> set (db_chunks db). cw_document_id c \<in> dr_id ` {d \<in> set (db_documents db). \<not> gone d}}"
    and "set (db_chunk_entities (cascade_documents gone db))
      = {l \<in> set (db_chunk_entities db). ce_chunk_id l \<in> cw_id ` set (db_chunks (cascade_documents gone db))}"
proof -
  have inj: "inj_on dr_id (set (db_documents db))" "inj_on cw_id (set (db_chunks db))"
    using assms by (simp_all add: db_ok_def distinct_map)
  have refs: "\<And>c. c \<in> set (db_chunks db) \<Longrightarrow> cw_document_id c \<in> dr_id ` set (db_documents db)"
      "\<And>l. l \<in> set (db_chunk_entities db) \<Longrightarrow> ce_chunk_id l \<in> cw_id ` set (db_chunks db)"
    using assms by (simp_all add: db_ok_def)
  have docs: "cw_document_id c \<in> dr_id ` {d \<in> set (db_documents db). \<not> gone d}
      \<longleftrightarrow> cw_document_id c \<notin> dr_id ` {d \<in> set (db_documents db). gone d}" if "c \<in> set (db_chunks db)" for c
    by (rule image_survivors[OF inj(1) refs(1)[OF that]])
  show chunks: "set (db_chunks (cascade_documents gone db))
      = {c \<in> set (db_chunks db). cw_document_id c \<in> dr_id ` {d \<in> set (db_documents db). \<not> gone d}}"
    using docs by (auto simp: cascade_documents_def Let_def)
  let ?cut = "\<lambda>c. cw_document_id c \<in> dr_id ` {d \<in> set (db_documents db). gone d}"
  have "set (db_chunks (cascade_documents gone db)) = {c \<in> set (db_chunks db). \<not> ?cut c}"
    by (auto simp: cascade_documents_def Let_def)
  then have "ce_chunk_id l \<in> cw_id ` set (db_chunks (cascade_documents gone db))
      \<longleftrightarrow> ce_chunk_id l \<notin> cw_id ` {c \<in> set (db_chunks db). ?cut c}"
    if "l \<in> set (db_chunk_entities db)" for l
    using image_survivors[OF inj(2) refs(2)[OF that]] by simp
  then show "set (db_chunk_entities (cascade_documents gone db))
      = {l \<in> set (db_chunk_entities db). ce_chunk_id l \<in> cw_id ` set (db_chunks (cascade_documents gone db))}"
    by (auto simp: cascade_documents_def Let_def)
qed

lemma delete_namespace_ok: "db_ok db \<Longrightarrow> db_ok (sql_delete_namespace name db)"
proof (cases "list_ex (\<lambda>n. nr_name n = name) (db_namespaces db)")
  case True
  assume ok: "db_ok db"
  let ?db = "db\<lparr>db_namespaces := filter (\<lambda>n. nr_name n \<noteq> name) (db_namespaces db)\<rparr>"
  let ?gone = "\<lambda>d. dr_namespace d = name"
  text \<open>The namespace and its documents go in one statement: the check is on the whole of it.\<close>
  have "db_ok (cascade_documents ?gone db)" using ok by (rule cascade_documents_ok)
  moreover have "cascade_documents ?gone ?db = (cascade_documents ?gone db)
      \<lparr>db_namespaces := filter (\<lambda>n. nr_name n \<noteq> name) (db_namespaces db)\<rparr>"
    by (simp add: cascade_documents_def Let_def)
  moreover have "dr_namespace d \<in> nr_name ` set (filter (\<lambda>n. nr_name n \<noteq> name) (db_namespaces db))"
    if "d \<in> set (db_documents (cascade_documents ?gone db))" for d
    using that ok by (force simp: cascade_documents_def Let_def db_ok_def)
  ultimately show ?thesis using True by (simp add: sql_delete_namespace_def db_ok_def)
qed (simp add: sql_delete_namespace_def)

text \<open>A namespace that does not exist has no document, so deleting it deletes nothing.\<close>

lemma sql_delete_namespace_deleted:
  assumes "db_ok db"
  shows "sql_delete_namespace name db = (cascade_documents (\<lambda>d. dr_namespace d = name) db)
    \<lparr>db_namespaces := filter (\<lambda>n. nr_name n \<noteq> name) (db_namespaces db)\<rparr>"
proof (cases "list_ex (\<lambda>n. nr_name n = name) (db_namespaces db)")
  case True
  then show ?thesis by (simp add: sql_delete_namespace_def cascade_documents_def Let_def)
next
  case False
  then have ns: "filter (\<lambda>n. nr_name n \<noteq> name) (db_namespaces db) = db_namespaces db"
    by (auto simp: list_ex_iff filter_id_conv)
  have "dr_namespace d \<noteq> name" if "d \<in> set (db_documents db)" for d
  proof -
    have "dr_namespace d \<in> nr_name ` set (db_namespaces db)" using that assms by (simp add: db_ok_def)
    then show ?thesis using False by (force simp: list_ex_iff)
  qed
  then have "filter (\<lambda>d. dr_namespace d = name) (db_documents db) = []"
      "filter (\<lambda>d. dr_namespace d \<noteq> name) (db_documents db) = db_documents db"
    by (simp_all add: filter_empty_conv filter_id_conv)
  then show ?thesis
    using False ns by (simp add: sql_delete_namespace_def cascade_documents_def Let_def)
qed

text \<open>Operations that touch only the tables of names.\<close>

lemma db_ok_namespaces:
  "db_ok db \<Longrightarrow> nr_name ` set (db_namespaces db) \<subseteq> nr_name ` set ns \<Longrightarrow> db_ok (db\<lparr>db_namespaces := ns\<rparr>)"
  unfolding db_ok_def by auto

lemma db_ok_providers: "db_ok db \<Longrightarrow> db_ok (db\<lparr>db_providers := ps\<rparr>)"
  unfolding db_ok_def by simp

lemma upsert_namespace_ok:
  assumes "db_ok db" and "names_ok db"
  shows "db_ok (sql_upsert_namespace n db) \<and> names_ok (sql_upsert_namespace n db)"
proof -
  have "map nr_name (map (\<lambda>x. if nr_name x = nr_name n then n else x) (db_namespaces db)) = map nr_name (db_namespaces db)"
    by (rule map_upsert_key) simp
  then have "nr_name ` set (map (\<lambda>x. if nr_name x = nr_name n then n else x) (db_namespaces db))
      = nr_name ` set (db_namespaces db)" by (metis set_map)
  with map_upsert_key[of nr_name n "nr_name n" "db_namespaces db"] assms show ?thesis
    by (auto simp: sql_upsert_namespace_def names_ok_def key_simps simp del: map_map map_append set_map
        intro!: db_ok_namespaces)
qed

lemma upsert_provider_ok:
  assumes "db_ok db" and "names_ok db" and "pv_kind p = ''llm'' \<or> pv_kind p = ''embedding''"
  shows "db_ok (sql_upsert_provider p db) \<and> names_ok (sql_upsert_provider p db)"
  using map_upsert_key[of pv_name p "pv_name p" "db_providers db"] assms
  by (auto simp: sql_upsert_provider_def names_ok_def key_simps simp del: map_map map_append intro: db_ok_providers)

lemma admin_exec_ok:
  assumes "db_ok db" and "names_ok db"
  shows "db_ok (admin_exec C F kp op db) \<and> names_ok (admin_exec C F kp op db)"
proof (cases op)
  case (NamespaceCreate name model provider settings)
  then show ?thesis using upsert_namespace_ok[OF assms] by (simp add: namespace_create_def Let_def)
next
  case (NamespaceDrop name cascade)
  then show ?thesis using assms delete_namespace_ok
    by (simp add: namespace_drop_def names_ok_def sql_delete_namespace_def cascade_documents_def Let_def
        distinct_map_filter_key)
next
  case (SetIngestProfile ns profile)
  let ?upd = "\<lambda>n. if nr_name n = ns
    then n\<lparr>nr_settings := jsonb_concat (nr_settings n) (JObj [(''ingest_profile'', JStr profile)])\<rparr> else n"
  have same: "map nr_name (map ?upd (db_namespaces db)) = map nr_name (db_namespaces db)" by simp
  then have "nr_name ` set (map ?upd (db_namespaces db)) = nr_name ` set (db_namespaces db)" by (metis set_map)
  with same assms SetIngestProfile show ?thesis
    by (auto simp: set_ingest_profile_def names_ok_def simp del: map_map set_map list.set_map intro!: db_ok_namespaces)
next
  case (ProviderCreate name kind provider url model cred config w)
  then show ?thesis using assms upsert_provider_ok[OF assms]
    by (auto simp: provider_create_def split: prod.split sum.split)
next
  case (ProviderDrop name)
  then show ?thesis using assms by (auto simp: provider_drop_def names_ok_def distinct_map_filter_key intro: db_ok_providers)
next
  case (DeleteDocument i)
  then show ?thesis using assms cascade_documents_ok
    by (simp add: delete_document_def names_ok_def)
qed

section \<open>Properties\<close>


text \<open>
  C21 (dropping a namespace): without \<open>cascade\<close> it fails exactly when a document is left; otherwise the
  namespace and its documents go, with their chunks and links, and nothing else: the entities and
  relationships of the namespace stay, so a namespace created later under the same name starts its
  graph walks from the seeds of the dropped one.
\<close>

theorem namespace_drop_correct:
  assumes "db_ok db"
  shows "case namespace_drop name cascade db of
    Inl _ \<Rightarrow> \<not> cascade \<and> (\<exists>d \<in> set (db_documents db). dr_namespace d = name)
  | Inr db' \<Rightarrow> (cascade \<or> (\<forall>d \<in> set (db_documents db). dr_namespace d \<noteq> name))
      \<and> db_namespaces db' = filter (\<lambda>n. nr_name n \<noteq> name) (db_namespaces db)
      \<and> db_documents db' = filter (\<lambda>d. dr_namespace d \<noteq> name) (db_documents db)
      \<and> set (db_chunks db') = {c \<in> set (db_chunks db). cw_document_id c \<in> dr_id ` set (db_documents db')}
      \<and> set (db_chunk_entities db') = {l \<in> set (db_chunk_entities db). ce_chunk_id l \<in> cw_id ` set (db_chunks db')}
      \<and> db_entities db' = db_entities db \<and> db_relationships db' = db_relationships db
      \<and> db_jobs db' = db_jobs db \<and> db_providers db' = db_providers db
      \<and> seed_entities X v name (fst (namespace_create parity name model llm settings (db', idx)))
          = seed_entities X v name db"
proof (cases "namespace_drop name cascade db")
  case (Inl e)
  then show ?thesis by (auto simp: namespace_drop_def list_ex_iff split: if_splits)
next
  case (Inr db')
  let ?db = "db\<lparr>db_namespaces := filter (\<lambda>n. nr_name n \<noteq> name) (db_namespaces db)\<rparr>"
  let ?gone = "\<lambda>d. dr_namespace d = name"
  have db': "db' = (cascade_documents ?gone db)\<lparr>db_namespaces := filter (\<lambda>n. nr_name n \<noteq> name) (db_namespaces db)\<rparr>"
    using Inr assms by (auto simp: namespace_drop_def sql_delete_namespace_deleted split: if_splits)
  have "seed_entities X v name (fst (namespace_create parity name model llm settings (db', idx)))
      = seed_entities X v name db"
    by (simp add: db' namespace_create_def Let_def sql_upsert_namespace_def cascade_documents_def seed_entities_def)
  with cascade_rows[OF assms, of ?gone] Inr show ?thesis
    by (auto simp: db' namespace_drop_def list_ex_iff cascade_simps split: if_splits)
qed

text \<open>A namespace with a document, and an entity that outlives it.\<close>

definition demo_docs_db :: database where
  "demo_docs_db = \<lparr>db_dim = 1,
     db_namespaces = [\<lparr>nr_name = ''ns'', nr_embedding_model = ''m'', nr_llm_provider = None, nr_settings = JObj []\<rparr>],
     db_documents = [\<lparr>dr_id = Uuid 1, dr_namespace = ''ns'', dr_source = ''s'', dr_content_hash = ''h'', dr_title = None\<rparr>],
     db_chunks = [demo_row],
     db_entities = [\<lparr>en_id = Uuid 2, en_namespace = ''ns'', en_name = ''Ada'', en_kind = None,
       en_name_emb = Some [Fin 1], en_description = None\<rparr>],
     db_relationships = [], db_chunk_entities = [\<lparr>ce_chunk_id = Uuid 7, ce_entity_id = Uuid 2, ce_confidence = Fin 1\<rparr>],
     db_jobs = [], db_providers = []\<rparr>"

lemma demo_full_db_ok: "db_ok demo_docs_db" "names_ok demo_docs_db"
  by (simp_all add: db_ok_def names_ok_def demo_docs_db_def demo_row_def)

lemma seed_threshold: "flt (Fin 0) (rnd binary64 (7 / 20))"
  by code_simp


theorem namespace_drop_correct_witness:
  "\<exists>db'. namespace_drop ''ns'' True demo_docs_db = Inr db' \<and> db_documents db' = [] \<and> db_chunks db' = []
     \<and> seed_entities demo_retr [Fin 1] ''ns'' db' = [Uuid 2]"
proof -
  obtain db' where d: "namespace_drop ''ns'' True demo_docs_db = Inr db'" by (simp add: namespace_drop_def)
  have "db_documents db' = filter (\<lambda>d. dr_namespace d \<noteq> ''ns'') (db_documents demo_docs_db)
      \<and> set (db_chunks db') = {c \<in> set (db_chunks demo_docs_db). cw_document_id c \<in> dr_id ` set (db_documents db')}
      \<and> db_entities db' = db_entities demo_docs_db"
    using namespace_drop_correct[OF demo_full_db_ok(1), where name = "''ns''" and cascade = True and X = demo_retr] d
    by simp
  moreover then have "db_documents db' = []" by (simp add: demo_docs_db_def)
  ultimately have docs: "db_documents db' = []" "set (db_chunks db') = {}" "db_entities db' = db_entities demo_docs_db"
    by simp_all
  then have "seed_entities demo_retr [Fin 1] ''ns'' db' = [Uuid 2]"
    using seed_threshold by (simp add: seed_entities_def demo_docs_db_def demo_retr_def)
  with d docs(1,2) show ?thesis by simp
qed

text \<open>
  C24 (deleting a document): the call answers whether the document exists; it removes the document, its
  chunks and their links and leaves every other row, a second call answers no, and the same content
  can be ingested again.
\<close>

theorem delete_document_correct:
  assumes "db_ok db" and "delete_document i db = (existed, db')"
  shows "(existed \<longleftrightarrow> i \<in> dr_id ` set (db_documents db))
    \<and> db_documents db' = filter (\<lambda>d. dr_id d \<noteq> i) (db_documents db)
    \<and> set (db_chunks db') = {c \<in> set (db_chunks db). cw_document_id c \<noteq> i}
    \<and> set (db_chunk_entities db') = {l \<in> set (db_chunk_entities db). ce_chunk_id l \<in> cw_id ` set (db_chunks db')}
    \<and> db_entities db' = db_entities db \<and> db_relationships db' = db_relationships db
    \<and> delete_document i db' = (False, db')
    \<and> (\<forall>d \<in> set (db_documents db). dr_id d = i \<longrightarrow> \<not> sql_document_exists (dr_namespace d) (dr_content_hash d) db')"
proof -
  let ?gone = "\<lambda>d. dr_id d = i"
  have db': "db' = cascade_documents ?gone db" and existed: "existed \<longleftrightarrow> i \<in> dr_id ` set (db_documents db)"
    using assms(2) by (auto simp: delete_document_def filter_empty_conv)
  have "set (db_chunks db') = {c \<in> set (db_chunks db). cw_document_id c \<noteq> i}"
    using cascade_rows(1)[OF assms(1), of ?gone] assms(1) unfolding db' db_ok_def by fastforce
  moreover have "set (db_chunk_entities db') = {l \<in> set (db_chunk_entities db). ce_chunk_id l \<in> cw_id ` set (db_chunks db')}"
    unfolding db' by (rule cascade_rows(2)[OF assms(1)])
  moreover have "delete_document i db' = (False, db')"
    by (simp add: delete_document_def db' cascade_documents_def Let_def)
  moreover have "\<not> sql_document_exists (dr_namespace d) (dr_content_hash d) db'"
    if "d \<in> set (db_documents db)" "dr_id d = i" for d
    using that inj_onD[of dr_content_hash "set (db_documents db)"] assms(1)
    by (auto simp: db' sql_document_exists_def list_ex_iff db_ok_def distinct_map)
  ultimately show ?thesis using existed by (simp add: db')
qed

theorem delete_document_correct_witness:
  "fst (delete_document (Uuid 1) demo_docs_db) \<and> \<not> sql_document_exists ''ns'' ''h'' (snd (delete_document (Uuid 1) demo_docs_db))"
proof -
  obtain e db' where d: "delete_document (Uuid 1) demo_docs_db = (e, db')" by fastforce
  from delete_document_correct[OF demo_full_db_ok(1) d] d show ?thesis by (auto simp: demo_docs_db_def)
qed

section \<open>Status\<close>

lemma json_set_map_of: "map_of (json_set k v kvs) = (map_of kvs)(k \<mapsto> v)"
  by (induction k v kvs rule: json_set.induct) auto

lemma json_set_keys: "k \<in> fst ` set kvs \<Longrightarrow> map fst (json_set k v kvs) = map fst kvs"
  by (induction k v kvs rule: json_set.induct) auto

lemma json_sets:
  assumes "distinct (map fst ups)" and "fst ` set ups \<subseteq> fst ` set kvs"
  shows "map fst (foldl (\<lambda>s (k, v). json_set k v s) kvs ups) = map fst kvs
    \<and> map_of (foldl (\<lambda>s (k, v). json_set k v s) kvs ups) = map_of kvs ++ map_of ups"
  using assms
proof (induction ups arbitrary: kvs)
  case (Cons u ups)
  obtain k v where u: "u = (k, v)" by fastforce
  have keys: "map fst (json_set k v kvs) = map fst kvs" using Cons.prems(2) u by (simp add: json_set_keys)
  then have "fst ` set (json_set k v kvs) = fst ` set kvs" by (metis list.set_map)
  then have "fst ` set ups \<subseteq> fst ` set (json_set k v kvs)" using Cons.prems(2) by simp
  moreover have "map_of ups k = None" using Cons.prems(1) u by (simp add: map_of_eq_None_iff)
  ultimately show ?case using Cons.IH[of "json_set k v kvs"] Cons.prems(1) u keys
    by (auto simp: json_set_map_of map_add_def fun_eq_iff split: option.split)
qed simp

lemma job_status_text_inj: "job_status_text a = job_status_text b \<longleftrightarrow> a = b"
  by (cases a; cases b) simp_all

definition status_count :: "database \<Rightarrow> job_status \<Rightarrow> nat" where
  "status_count db s = length (filter (\<lambda>j. jb_status j = s) (db_jobs db))"

lemma status_counts_map:
  "map_of (status_counts db) (job_status_text s) = (if status_count db s = 0 then None else Some (status_count db s))"
proof -
  have "map_of (map (\<lambda>x. (job_status_text x, c x)) xs) (job_status_text s) = (if s \<in> set xs then Some (c s) else None)"
    for xs and c :: "job_status \<Rightarrow> nat"
    by (induction xs) (auto simp: job_status_text_inj)
  then show ?thesis by (auto simp: status_counts_def status_count_def filter_empty_conv image_iff)
qed

lemma status_summary_value:
  "status_summary db = map (\<lambda>s. (job_status_text s, status_count db s)) [Queued, Running, JobCompleted, JobFailed]"
proof -
  let ?z = "[(''queued'', 0), (''running'', 0), (''completed'', 0), (''failed'', 0 :: nat)]"
  have keys: "map fst (status_counts db) = map job_status_text (remdups (map jb_status (db_jobs db)))"
    by (simp add: status_counts_def)
  have "distinct (map fst (status_counts db))"
    unfolding keys by (simp add: distinct_map inj_on_def job_status_text_inj)
  moreover have "fst ` set (status_counts db) \<subseteq> range job_status_text" by (auto simp: status_counts_def)
  moreover have "job_status_text s \<in> fst ` set ?z" for s by (cases s) simp_all
  then have "range job_status_text \<subseteq> fst ` set ?z" by (rule image_subsetI)
  ultimately have *: "map fst (status_summary db) = map fst ?z" "map_of (status_summary db) = map_of ?z ++ map_of (status_counts db)"
    unfolding status_summary_def using json_sets[of "status_counts db" ?z] by (meson order_trans)+
  have v: "map_of (status_summary db) (job_status_text s) = Some (status_count db s)" for s
    by (cases s) (simp_all add: *(2) map_add_def status_counts_map[of db Queued, simplified]
      status_counts_map[of db Running, simplified] status_counts_map[of db JobCompleted, simplified]
      status_counts_map[of db JobFailed, simplified])
  obtain a b c d where s: "status_summary db = [a, b, c, d]" "fst a = ''queued''" "fst b = ''running''"
      "fst c = ''completed''" "fst d = ''failed''"
    using *(1) by (auto simp: map_eq_Cons_conv)
  show ?thesis
    using v[of Queued] v[of Running] v[of JobCompleted] v[of JobFailed] s
    by (cases a; cases b; cases c; cases d) simp
qed

text \<open>
  Status and health: the summary lists the four states in a fixed order, each with the number of its
  jobs, a state without jobs included; the counts add up to the whole queue, and the queue depth that
  \<open>health\<close> reports is the sum of the first two.
\<close>

theorem status_summary_correct:
  "map fst (status_summary db) = [''queued'', ''running'', ''completed'', ''failed'']
   \<and> map snd (status_summary db) = map (status_count db) [Queued, Running, JobCompleted, JobFailed]
   \<and> sum_list (map snd (status_summary db)) = length (db_jobs db)
   \<and> queue_depth db = status_count db Queued + status_count db Running"
proof -
  have "length js = length (filter (\<lambda>j. jb_status j = Queued) js) + length (filter (\<lambda>j. jb_status j = Running) js)
     + length (filter (\<lambda>j. jb_status j = JobCompleted) js) + length (filter (\<lambda>j. jb_status j = JobFailed) js)
   \<and> length (filter (\<lambda>j. jb_status j = Queued \<or> jb_status j = Running) js)
     = length (filter (\<lambda>j. jb_status j = Queued) js) + length (filter (\<lambda>j. jb_status j = Running) js)" for js
    by (induction js) (auto, metis job_status.exhaust)
  from this[of "db_jobs db"] show ?thesis
    unfolding status_summary_value by (simp add: status_count_def queue_depth_def)
qed

section \<open>Credentials\<close>

lemma find_upsert:
  "find (\<lambda>x. k x = key) (if list_ex (\<lambda>x. k x = key) xs then map (\<lambda>x. if k x = key then p else x) xs else xs @ [p])
     = Some p" if "k p = key"
  using that by (induction xs) auto

lemma upsert_provider_found:
  "find (\<lambda>x. pv_name x = pv_name p) (db_providers (sql_upsert_provider p db)) = Some p"
  using find_upsert[of pv_name p "pv_name p" "db_providers db"]
  by (auto simp: sql_upsert_provider_def split: if_splits)

lemma redact_envelope: "redact (ENV_PREFIX @ rest) = ''enc***''"
proof -
  have "uchars (ENV_PREFIX @ rest) = map (\<lambda>c. (of_char c, [c])) ENV_PREFIX @ uchars rest"
    by (simp add: ENV_PREFIX_def uchars_ascii_Cons)
  then show ?thesis by (simp add: redact_hides chars_def head3_def ENV_PREFIX_def)
qed

lemma stored_encrypted:
  assumes "crypto_laws C" and "is_utf8 secret" and "\<not> is_encrypted secret"
    and "stored_credential C F (Some path) (Some secret) w = (Inr stored, w')"
  obtains key env w1 where "load_from_path F path w = (Inr key, w1)" "stored = Some env"
    "encrypt_v1 C secret (mk_bytes key) w1 = (Inr env, w')" "is_encrypted env"
    "decrypt_v1 C env (mk_bytes key) = Inr secret" "redact env = ''enc***''"
proof -
  from assms(3,4) obtain key w1 env where e: "load_from_path F path w = (Inr key, w1)"
      "encrypt_v1 C secret (mk_bytes key) w1 = (Inr env, w')" "stored = Some env"
    by (auto simp: stored_credential_def load_master_key_def split: prod.splits sum.splits option.splits)
  note d = decrypt_encrypted[OF assms(1,2) e(2)]
  obtain rest where "env = ENV_PREFIX @ rest" using e(2) by (elim encrypt_v1_InrE) blast
  then have "redact env = ''enc***''" by (simp add: redact_envelope)
  with that e d show thesis by blast
qed

text \<open>
  C23 (credentials at rest): with a master key configured, \<open>provider_create\<close> stores a credential only as
  an envelope, \<open>provider_list\<close> shows the same masked text for every such credential, and the provider
  built from the row gets the original back.
\<close>

theorem created_provider_is_sealed:
  assumes "crypto_laws C" and "is_utf8 secret" and "\<not> is_encrypted secret"
    and "\<And>w1 w2. fst (load_from_path F path w1) = fst (load_from_path F path w2)"
    and "provider_create C F (Some path) name kind ''openai'' None (Some model) (Some secret) config db w = (Inr db', w')"
  shows "\<exists>p env. find (\<lambda>p. pv_name p = name) (db_providers db') = Some p \<and> pv_credential p = Some env
    \<and> is_encrypted env
    \<and> provider_json p = JObj [(''name'', JStr name), (''kind'', JStr kind), (''provider'', JStr ''openai''),
        (''base_url'', JNull), (''model'', JStr model), (''credential'', JStr ''enc***''), (''config'', config)]
    \<and> fst (spi_build_provider_impl C F de (Some path) db' name w2)
        = Inr (ImplOpenAi (openai_new secret model ''https://api.openai.com''))"
proof -
  from assms(5) obtain stored where st: "stored_credential C F (Some path) (Some secret) w = (Inr stored, w')"
      and db': "db' = sql_upsert_provider \<lparr>pv_name = name, pv_kind = kind, pv_provider = ''openai'',
        pv_base_url = None, pv_model = Some model, pv_credential = stored, pv_config = config\<rparr> db"
    by (auto simp: provider_create_def split: if_splits prod.splits sum.splits)
  from stored_encrypted[OF assms(1-3) st] obtain key env w1 where e: "load_from_path F path w = (Inr key, w1)"
      "stored = Some env" "is_encrypted env" "decrypt_v1 C env (mk_bytes key) = Inr secret" "redact env = ''enc***''"
    by blast
  let ?p = "\<lparr>pv_name = name, pv_kind = kind, pv_provider = ''openai'', pv_base_url = None,
    pv_model = Some model, pv_credential = Some env, pv_config = config\<rparr>"
  have found: "find (\<lambda>p. pv_name p = name) (db_providers db') = Some ?p"
    using upsert_provider_found[of ?p db] by (simp add: db' e(2))
  obtain w3 where key: "load_from_path F path w2 = (Inr key, w3)"
    using assms(4)[of w2 w] e(1) by (metis fst_conv prod.collapse)
  have "fst (spi_build_provider_impl C F de (Some path) db' name w2)
      = Inr (ImplOpenAi (openai_new secret model ''https://api.openai.com''))"
    using found key e(3,4) by (simp add: spi_build_provider_impl_def sql_provider_row_def plaintext_credential_def
        dispatch_provider_def default_base_def)
  moreover have "provider_json ?p = JObj [(''name'', JStr name), (''kind'', JStr kind), (''provider'', JStr ''openai''),
        (''base_url'', JNull), (''model'', JStr model), (''credential'', JStr ''enc***''), (''config'', config)]"
    using e(5) by (simp add: provider_json_def json_opt_def)
  ultimately show ?thesis using found e(3) by (intro exI[of _ ?p] exI[of _ env]) simp
qed

theorem created_provider_is_sealed_witness:
  "\<exists>db'. fst (provider_create demo_crypto demo_files (Some ''/key'') ''main'' ''llm'' ''openai'' None (Some ''gpt'')
      (Some ''sk-secret'') (JObj []) demo_docs_db 7) = Inr db'
    \<and> fst (spi_build_provider_impl demo_crypto demo_files (\<lambda>_. Inl []) (Some ''/key'') db' ''main'' 0)
        = Inr (ImplOpenAi (openai_new ''sk-secret'' ''gpt'' ''https://api.openai.com''))"
proof -
  have key: "load_from_path demo_files ''/key'' w = (Inr \<lparr>mk_bytes = replicate 32 (CHR ''k'')\<rparr>, w)" for w
    by (simp add: load_from_path_def demo_files_def file_step_def sr_bind_def sr_apply group_world_bits_def
        MASTER_KEY_LEN_def)
  have plain: "\<not> is_encrypted ''sk-secret''" by (simp add: is_encrypted_def starts_with_def ENV_PREFIX_def)
  obtain db' w' where c: "provider_create demo_crypto demo_files (Some ''/key'') ''main'' ''llm'' ''openai'' None (Some ''gpt'')
      (Some ''sk-secret'') (JObj []) demo_docs_db 7 = (Inr db', w')"
    using demo_encrypt by (simp add: provider_create_def stored_credential_def load_master_key_def key plain)
  from created_provider_is_sealed[OF demo_crypto_laws _ plain _ c] show ?thesis
    using c by (auto simp: key is_utf8_ascii)
qed

end
