(* ===== verification/Migrations.thy ===== *)
theory Migrations
  imports Prelude
begin

text \<open>
  The schema migrations of the sidecar (\<^verbatim>\<open>pg_raggraph_sidecar/src/bootstrap.rs\<close>): the embedded files
  of \<^verbatim>\<open>pg_raggraph/sql\<close> as lists of the statements they hold, a record of what these statements create,
  and \<open>run_migrations\<close> over it. A statement has its documented effect: creating what exists is an
  error unless the statement says otherwise, and an error aborts the transaction.
\<close>

section \<open>Schema and statements\<close>

text \<open>
  \<open>sc_embed_dim\<close> is \<open>current_setting('pg_raggraph.embed_dim', true)::int\<close> of the session, \<open>sc_dim\<close>
  the dimension the vector columns were created with, and \<open>sc_bad_status\<close> tells whether some row of
  \<open>ingest_jobs\<close> has a status outside the four known ones.
\<close>

record schema =
  sc_extensions :: "string list"
  sc_embed_dim :: "int option"
  sc_namespace :: bool
  sc_relations :: "string list"
  sc_functions :: "string list"
  sc_constraints :: "string list"
  sc_dim :: "int option"
  sc_versions :: "int list"
  sc_bad_status :: bool

datatype ddl =
    RequireExtension string
  | CreateTables "string list"
  | CreateTable string
  | CreateIndex string string
  | CreateHnswIndex string string
  | CreateOrReplaceFunction string
  | AddStatusCheck string
  | InsertVersion int
  | InsertVersionOnce int

text \<open>pgvector's limit on the columns of an HNSW index.\<close>

definition hnsw_max_dim :: int where "hnsw_max_dim = 2000"

definition has_relation :: "string \<Rightarrow> schema \<Rightarrow> bool" where
  "has_relation r s = List.member (sc_relations s) r"

fun create_relations :: "string list \<Rightarrow> schema \<Rightarrow> string + schema" where
  "create_relations [] s = Inr s"
| "create_relations (r # rs) s =
     (if has_relation r s then Inl (''relation already exists: '' @ r)
      else create_relations rs (s\<lparr>sc_relations := sc_relations s @ [r]\<rparr>))"

fun ddl_exec :: "ddl \<Rightarrow> schema \<Rightarrow> string + schema" where
  "ddl_exec (RequireExtension e) s =
     (if List.member (sc_extensions s) e then Inr s
      else Inl (''pg_raggraph requires the '' @ e @ '' extension''))"
| "ddl_exec (CreateTables ts) s =
     (if \<not> sc_namespace s then Inl ''schema pgrg does not exist''
      else
        let dim = unwrap_or 384 (sc_embed_dim s) in
        if dim < 1 \<or> 16000 < dim then Inl ''dimensions for type vector''
        else map_sum id (\<lambda>s. s\<lparr>sc_dim := Some dim\<rparr>) (create_relations ts s))"
| "ddl_exec (CreateTable t) s =
     (if \<not> sc_namespace s then Inl ''schema pgrg does not exist'' else create_relations [t] s)"
| "ddl_exec (CreateIndex i t) s =
     (if \<not> has_relation t s then Inl (''relation does not exist: '' @ t) else create_relations [i] s)"
| "ddl_exec (CreateHnswIndex i t) s =
     (if \<not> has_relation t s then Inl (''relation does not exist: '' @ t)
      else if hnsw_max_dim < unwrap_or 0 (sc_dim s) then Inl ''column cannot have more than 2000 dimensions for hnsw index''
      else create_relations [i] s)"
| "ddl_exec (CreateOrReplaceFunction f) s =
     (if \<not> sc_namespace s then Inl ''schema pgrg does not exist''
      else Inr (s\<lparr>sc_functions := List.insert f (sc_functions s)\<rparr>))"
| "ddl_exec (AddStatusCheck c) s =
     (if \<not> has_relation ''ingest_jobs'' s then Inl ''relation does not exist: ingest_jobs''
      else if List.member (sc_constraints s) c then Inl (''constraint already exists: '' @ c)
      else if sc_bad_status s then Inl (''check constraint is violated by some row: '' @ c)
      else Inr (s\<lparr>sc_constraints := c # sc_constraints s\<rparr>))"
| "ddl_exec (InsertVersion v) s =
     (if \<not> has_relation ''migrations'' s then Inl ''relation does not exist: migrations''
      else if List.member (sc_versions s) v then Inl ''duplicate key value: migrations_pkey''
      else Inr (s\<lparr>sc_versions := sc_versions s @ [v]\<rparr>))"
| "ddl_exec (InsertVersionOnce v) s =
     (if \<not> has_relation ''migrations'' s then Inl ''relation does not exist: migrations''
      else if List.member (sc_versions s) v then Inr s
      else Inr (s\<lparr>sc_versions := sc_versions s @ [v]\<rparr>))"

text \<open>\<open>batch_execute\<close>: the statements of one text, in order.\<close>

fun ddl_batch :: "ddl list \<Rightarrow> schema \<Rightarrow> string + schema" where
  "ddl_batch [] s = Inr s"
| "ddl_batch (d # ds) s = (case ddl_exec d s of Inl e \<Rightarrow> Inl e | Inr s' \<Rightarrow> ddl_batch ds s')"

section \<open>The embedded files\<close>

record migration =
  mg_version :: int
  mg_name :: string
  mg_sql :: "ddl list"

definition sql_000_schema :: "ddl list" where
  "sql_000_schema = [RequireExtension ''vector'', RequireExtension ''pg_trgm'']"

text \<open>The insert of the default namespace is left out: it cannot fail on a new table.\<close>

definition sql_001_tables :: "ddl list" where
  "sql_001_tables = [CreateTables [''namespaces'', ''documents'', ''chunks'', ''entities'', ''relationships'',
     ''chunk_entities'', ''ingest_jobs'', ''providers'']]"

definition sql_002_indexes :: "ddl list" where
  "sql_002_indexes =
     [CreateIndex ''chunks_ns_doc_idx'' ''chunks'', CreateIndex ''chunks_text_search_idx'' ''chunks'',
      CreateIndex ''chunks_metadata_idx'' ''chunks'', CreateHnswIndex ''chunks_embedding_hnsw'' ''chunks'',
      CreateIndex ''entities_ns_name_idx'' ''entities'', CreateIndex ''entities_name_trgm_idx'' ''entities'',
      CreateHnswIndex ''entities_name_emb_hnsw'' ''entities'',
      CreateIndex ''relationships_src_idx'' ''relationships'', CreateIndex ''relationships_dst_idx'' ''relationships'',
      CreateIndex ''relationships_ns_kind'' ''relationships'',
      CreateIndex ''chunk_entities_eid_idx'' ''chunk_entities'',
      CreateIndex ''ingest_jobs_active_idx'' ''ingest_jobs'']"

definition sql_003_migrations_table :: "ddl list" where
  "sql_003_migrations_table = [CreateTable ''migrations'', InsertVersion 1]"

definition sql_004_retrieval_indexes :: "ddl list" where
  "sql_004_retrieval_indexes = [CreateOrReplaceFunction ''_maybe_apply_parity_indexes'']"

definition sql_005_status_check :: "ddl list" where
  "sql_005_status_check =
     [AddStatusCheck ''ingest_jobs_status_check'', CreateOrReplaceFunction ''_maybe_apply_parity_indexes'']"

definition EMBEDDED_MIGRATIONS :: "migration list" where
  "EMBEDDED_MIGRATIONS =
     [\<lparr>mg_version = 0, mg_name = ''000_schema'', mg_sql = sql_000_schema\<rparr>,
      \<lparr>mg_version = 1, mg_name = ''001_tables'', mg_sql = sql_001_tables\<rparr>,
      \<lparr>mg_version = 2, mg_name = ''002_indexes'', mg_sql = sql_002_indexes\<rparr>,
      \<lparr>mg_version = 3, mg_name = ''003_migrations_table'', mg_sql = sql_003_migrations_table\<rparr>,
      \<lparr>mg_version = 4, mg_name = ''004_retrieval_indexes'', mg_sql = sql_004_retrieval_indexes\<rparr>,
      \<lparr>mg_version = 5, mg_name = ''005_status_check_atomicity'', mg_sql = sql_005_status_check\<rparr>]"

definition BASE_BOOTSTRAP_MAX_VERSION :: int where
  "BASE_BOOTSTRAP_MAX_VERSION = 3"

section \<open>\<open>run_migrations\<close>\<close>

text \<open>
  The connection faults of a run: of \<open>BEGIN\<close>, of the statements in order, and of \<open>COMMIT\<close>, which may
  have taken effect although its answer was lost.
\<close>

record mig_faults =
  mf_begin :: "string option"
  mf_stmts :: "string option list"
  mf_commit :: "(string \<times> bool) option"

type_synonym mig_state = "string option list \<times> schema"

definition mig_stmt :: "(schema \<Rightarrow> string + 'a \<times> schema) \<Rightarrow> mig_state \<Rightarrow> string + 'a \<times> mig_state" where
  "mig_stmt f st =
     (case st of (faults, s) \<Rightarrow>
      (case (case faults of [] \<Rightarrow> None | x # _ \<Rightarrow> x) of
         Some e \<Rightarrow> Inl e
       | None \<Rightarrow> map_sum id (\<lambda>(a, s'). (a, (tl faults, s'))) (f s)))"

definition mig_batch :: "ddl list \<Rightarrow> mig_state \<Rightarrow> string + mig_state" where
  "mig_batch ds st = map_sum id snd (mig_stmt (\<lambda>s. map_sum id (Pair ()) (ddl_batch ds s)) st)"

fun base_bootstrap :: "migration list \<Rightarrow> mig_state \<Rightarrow> string + mig_state" where
  "base_bootstrap [] st = Inr st"
| "base_bootstrap (m # ms) st =
     (case mig_batch (mg_sql m) st of
        Inl e \<Rightarrow> Inl (''base bootstrap '' @ mg_name m @ '': '' @ e)
      | Inr st' \<Rightarrow> base_bootstrap ms st')"

fun apply_incremental :: "int list \<Rightarrow> migration list \<Rightarrow> nat \<Rightarrow> mig_state \<Rightarrow> string + nat \<times> mig_state" where
  "apply_incremental applied [] newly st = Inr (newly, st)"
| "apply_incremental applied (m # ms) newly st =
     (if List.member applied (mg_version m) then apply_incremental applied ms newly st
      else
        (case mig_batch (mg_sql m) st of
           Inl e \<Rightarrow> Inl (''migration '' @ mg_name m @ '': '' @ e)
         | Inr st1 \<Rightarrow>
             (case mig_batch [InsertVersionOnce (mg_version m)] st1 of
                Inl e \<Rightarrow> Inl e
              | Inr st2 \<Rightarrow> apply_incremental applied ms (newly + 1) st2)))"

text \<open>What happens between \<open>BEGIN\<close> and \<open>COMMIT\<close>.\<close>

definition migrate_tx :: "mig_state \<Rightarrow> string + nat \<times> mig_state" where
  "migrate_tx st =
     (case mig_stmt (\<lambda>s. Inr ((), s\<lparr>sc_namespace := True\<rparr>)) st of
        Inl e \<Rightarrow> Inl e
      | Inr (_, st1) \<Rightarrow>
     (case mig_stmt (\<lambda>s. Inr (\<not> has_relation ''migrations'' s, s)) st1 of
        Inl e \<Rightarrow> Inl e
      | Inr (needs_base, st2) \<Rightarrow>
     (case (if needs_base
            then map_sum id (Pair 1)
              (base_bootstrap (filter (\<lambda>m. mg_version m \<le> BASE_BOOTSTRAP_MAX_VERSION) EMBEDDED_MIGRATIONS) st2)
            else Inr (0, st2)) of
        Inl e \<Rightarrow> Inl e
      | Inr (newly, st3) \<Rightarrow>
     (case mig_stmt (\<lambda>s. Inr (sc_versions s, s)) st3 of
        Inl e \<Rightarrow> Inl e
      | Inr (applied, st4) \<Rightarrow>
          apply_incremental applied (filter (\<lambda>m. BASE_BOOTSTRAP_MAX_VERSION < mg_version m) EMBEDDED_MIGRATIONS)
            newly st4))))"

text \<open>The result, and the schema other sessions see afterwards.\<close>

definition run_migrations :: "mig_faults \<Rightarrow> schema \<Rightarrow> (string + nat) \<times> schema" where
  "run_migrations mf s =
     (case mf_begin mf of
        Some e \<Rightarrow> (Inl e, s)
      | None \<Rightarrow>
          (case migrate_tx (mf_stmts mf, s) of
             Inl e \<Rightarrow> (Inl e, s)
           | Inr (newly, (_, s')) \<Rightarrow>
               (case mf_commit mf of
                  None \<Rightarrow> (Inr newly, s')
                | Some (e, took_effect) \<Rightarrow> (Inl e, if took_effect then s' else s))))"

definition no_mig_faults :: mig_faults where
  "no_mig_faults = \<lparr>mf_begin = None, mf_stmts = [], mf_commit = None\<rparr>"

text \<open>
  \<open>CREATE EXTENSION pg_raggraph\<close> runs the same six files in the same order, and records nothing for
  the last two (\<^verbatim>\<open>pg_raggraph/src/lib.rs\<close>); its control file makes PostgreSQL create the schema.
\<close>

definition create_extension :: "schema \<Rightarrow> string + schema" where
  "create_extension s =
     ddl_batch (sql_000_schema @ sql_001_tables @ sql_002_indexes @ sql_003_migrations_table
       @ sql_004_retrieval_indexes @ sql_005_status_check) (s\<lparr>sc_namespace := True\<rparr>)"

section \<open>Facts\<close>

text \<open>Statements only add: what a schema has, it keeps.\<close>

definition grows :: "schema \<Rightarrow> schema \<Rightarrow> bool" where
  "grows s s' \<longleftrightarrow> (sc_namespace s \<longrightarrow> sc_namespace s') \<and> set (sc_relations s) \<subseteq> set (sc_relations s')
     \<and> set (sc_constraints s) \<subseteq> set (sc_constraints s') \<and> set (sc_versions s) \<subseteq> set (sc_versions s')
     \<and> sc_embed_dim s' = sc_embed_dim s"

lemma grows_refl [simp]: "grows s s"
  by (simp add: grows_def)

lemma grows_trans: "grows s t \<Longrightarrow> grows t u \<Longrightarrow> grows s u"
  by (auto simp: grows_def)

lemma create_relations_grows:
  "create_relations rs s = Inr s' \<Longrightarrow> grows s s' \<and> set rs \<subseteq> set (sc_relations s')
     \<and> sc_versions s' = sc_versions s \<and> sc_dim s' = sc_dim s"
proof (induction rs s rule: create_relations.induct)
  case (2 r rs s)
  then show ?case by (auto simp: grows_def split: if_splits)
qed simp

lemma ddl_exec_grows: "ddl_exec d s = Inr s' \<Longrightarrow> grows s s'"
  by (cases d) (auto simp: Let_def map_sum_def grows_def dest!: create_relations_grows split: if_splits sum.splits)

lemma ddl_batch_grows: "ddl_batch ds s = Inr s' \<Longrightarrow> grows s s'"
proof (induction ds s rule: ddl_batch.induct)
  case (2 d ds s)
  then show ?case by (auto split: sum.splits dest: ddl_exec_grows intro: grows_trans)
qed simp

lemma ddl_batch_append:
  "ddl_batch (xs @ ys) s = (case ddl_batch xs s of Inl e \<Rightarrow> Inl e | Inr s' \<Rightarrow> ddl_batch ys s')"
  by (induction xs arbitrary: s) (auto split: sum.splits)

text \<open>Where each kind of row comes from.\<close>

lemma ddl_batch_versions:
  "ddl_batch ds s = Inr s' \<Longrightarrow>
     set (sc_versions s') \<subseteq> set (sc_versions s) \<union> {v. InsertVersion v \<in> set ds \<or> InsertVersionOnce v \<in> set ds}"
proof (induction ds s rule: ddl_batch.induct)
  case (2 d ds s)
  then obtain t where t: "ddl_exec d s = Inr t" "ddl_batch ds t = Inr s'" by (auto split: sum.splits)
  have "set (sc_versions t) \<subseteq> set (sc_versions s) \<union> {v. d = InsertVersion v \<or> d = InsertVersionOnce v}"
    using t(1) by (cases d) (auto simp: Let_def map_sum_def dest!: create_relations_grows split: if_splits sum.splits)
  with 2(1)[OF t] show ?case by auto
qed simp

lemma ddl_batch_mem:
  assumes "ddl_batch ds s = Inr s'" and "d \<in> set ds"
  obtains t t' where "ddl_exec d t = Inr t'" "grows s t" "grows t' s'"
proof -
  from assms(2) obtain xs ys where ds: "ds = xs @ d # ys" by (meson split_list)
  with assms(1) obtain t t' where "ddl_batch xs s = Inr t" "ddl_exec d t = Inr t'" "ddl_batch ys t' = Inr s'"
    by (auto simp: ddl_batch_append split: sum.splits)
  with that show thesis by (blast intro: ddl_batch_grows)
qed

lemma mig_batch_Inr:
  "mig_batch ds (f, s) = Inr (f', s') \<Longrightarrow> ddl_batch ds s = Inr s'"
  by (auto simp: mig_batch_def mig_stmt_def split: list.splits option.splits)
    (auto simp: map_sum_def split: sum.splits)

lemma mig_stmt_no_fault: "mig_stmt f ([], s) = map_sum id (\<lambda>(a, s'). (a, ([], s'))) (f s)"
  by (simp add: mig_stmt_def)

lemma mig_batch_no_fault: "mig_batch ds ([], s) = map_sum id (Pair []) (ddl_batch ds s)"
  by (cases "ddl_batch ds s") (simp_all add: mig_batch_def mig_stmt_no_fault)

lemma base_bootstrap_Inr:
  "base_bootstrap ms (f, s) = Inr (f', s') \<Longrightarrow> ddl_batch (concat (map mg_sql ms)) s = Inr s'"
proof (induction ms arbitrary: f s)
  case (Cons m ms)
  then obtain f1 s1 where "mig_batch (mg_sql m) (f, s) = Inr (f1, s1)" "base_bootstrap ms (f1, s1) = Inr (f', s')"
    by (auto split: sum.splits)
  with Cons.IH mig_batch_Inr show ?case by (fastforce simp: ddl_batch_append)
qed simp

lemma apply_incremental_Inr:
  "apply_incremental applied ms n (f, s) = Inr (n', (f', s')) \<Longrightarrow> set applied \<subseteq> set (sc_versions s)
     \<Longrightarrow> grows s s' \<and> mg_version ` set ms \<subseteq> set (sc_versions s') \<and> n' \<le> n + length ms"
proof (induction ms arbitrary: n f s)
  case (Cons m ms)
  show ?case
  proof (cases "List.member applied (mg_version m)")
    case True
    with Cons have "grows s s' \<and> mg_version ` set ms \<subseteq> set (sc_versions s') \<and> n' \<le> n + length ms" by simp
    moreover from this True Cons.prems(2) have "mg_version m \<in> set (sc_versions s')" by (auto simp: grows_def)
    ultimately show ?thesis by simp
  next
    case False
    with Cons.prems(1) obtain f1 s1 f2 s2 where *: "mig_batch (mg_sql m) (f, s) = Inr (f1, s1)"
        "mig_batch [InsertVersionOnce (mg_version m)] (f1, s1) = Inr (f2, s2)"
        "apply_incremental applied ms (n + 1) (f2, s2) = Inr (n', (f', s'))"
      by (auto split: sum.splits)
    have g: "grows s s1" "grows s1 s2" using *(1,2)[THEN mig_batch_Inr] by (blast intro: ddl_batch_grows)+
    have "mg_version m \<in> set (sc_versions s2)"
      using *(2)[THEN mig_batch_Inr] by (auto split: if_splits)
    moreover have "set applied \<subseteq> set (sc_versions s2)" using g Cons.prems(2) by (auto simp: grows_def)
    ultimately show ?thesis using Cons.IH[OF *(3)] g by (auto simp: grows_def)
  qed
qed simp

abbreviation base_files :: "migration list" where
  "base_files \<equiv> filter (\<lambda>m. mg_version m \<le> BASE_BOOTSTRAP_MAX_VERSION) EMBEDDED_MIGRATIONS"

abbreviation later_files :: "migration list" where
  "later_files \<equiv> filter (\<lambda>m. BASE_BOOTSTRAP_MAX_VERSION < mg_version m) EMBEDDED_MIGRATIONS"

lemma files:
  "concat (map mg_sql base_files) = sql_000_schema @ sql_001_tables @ sql_002_indexes @ sql_003_migrations_table"
  "map mg_version later_files = [4, 5]" "mg_version ` set later_files = {4, 5}" "length later_files = 2"
  "map mg_sql later_files = [sql_004_retrieval_indexes, sql_005_status_check]"
  by (simp_all add: EMBEDDED_MIGRATIONS_def BASE_BOOTSTRAP_MAX_VERSION_def)

lemma mig_stmt_InrE:
  assumes "mig_stmt f (faults, s) = Inr (a, st)"
  obtains s' where "f s = Inr (a, s')" "st = (tl faults, s')"
  using assms that by (auto simp: mig_stmt_def map_sum_def split: list.splits option.splits sum.splits)

lemma migrate_tx_InrE:
  assumes "migrate_tx (f, s) = Inr (n, (f', s'))"
  obtains k f1 s1 where "if has_relation ''migrations'' s then k = 0 \<and> s1 = s\<lparr>sc_namespace := True\<rparr>
      else k = 1 \<and> ddl_batch (concat (map mg_sql base_files)) (s\<lparr>sc_namespace := True\<rparr>) = Inr s1"
    "apply_incremental (sc_versions s1) later_files k (f1, s1) = Inr (n, (f', s'))"
proof -
  from assms obtain u1 st1 u2 st2 k st3 v st4 where
      1: "mig_stmt (\<lambda>s. Inr ((), s\<lparr>sc_namespace := True\<rparr>)) (f, s) = Inr (u1, st1)"
    and 2: "mig_stmt (\<lambda>s. Inr (\<not> has_relation ''migrations'' s, s)) st1 = Inr (u2, st2)"
    and 3: "(if u2 then map_sum id (Pair 1) (base_bootstrap base_files st2) else Inr (0, st2)) = Inr (k, st3)"
    and 4: "mig_stmt (\<lambda>s. Inr (sc_versions s, s)) st3 = Inr (v, st4)"
    and 5: "apply_incremental v later_files k st4 = Inr (n, (f', s'))"
    unfolding migrate_tx_def by (auto split: sum.splits)
  let ?s = "s\<lparr>sc_namespace := True\<rparr>"
  from 1 have st1: "st1 = (tl f, ?s)" by (rule mig_stmt_InrE) simp
  have u2: "u2 \<longleftrightarrow> \<not> has_relation ''migrations'' s" "st2 = (tl (tl f), ?s)"
    using 2[unfolded st1] by (auto elim!: mig_stmt_InrE simp: has_relation_def)
  obtain f3 s3 where st3: "st3 = (f3, s3)" by fastforce
  have st4: "v = sc_versions s3" "st4 = (tl f3, s3)" using 4[unfolded st3] by (auto elim!: mig_stmt_InrE)
  have "if has_relation ''migrations'' s then k = 0 \<and> s3 = ?s
      else k = 1 \<and> ddl_batch (concat (map mg_sql base_files)) ?s = Inr s3"
    using 3 u2 base_bootstrap_Inr[of base_files "tl (tl f)" ?s f3 s3] st3
    by (auto simp: map_sum_def split: if_splits sum.splits)
  from that[OF this] 5 st4 show thesis by blast
qed

lemma migrate_tx_done:
  assumes "migrate_tx (f, s) = Inr (n, (f', s'))"
  shows "sc_namespace s' \<and> has_relation ''migrations'' s' \<and> {4, 5} \<subseteq> set (sc_versions s')"
proof -
  from assms obtain k f1 s1 where 1: "if has_relation ''migrations'' s then k = 0 \<and> s1 = s\<lparr>sc_namespace := True\<rparr>
      else k = 1 \<and> ddl_batch (concat (map mg_sql base_files)) (s\<lparr>sc_namespace := True\<rparr>) = Inr s1"
    and 2: "apply_incremental (sc_versions s1) later_files k (f1, s1) = Inr (n, (f', s'))"
    by (rule migrate_tx_InrE)
  note later = apply_incremental_Inr[OF 2 subset_refl, unfolded files]
  have "sc_namespace s1 \<and> has_relation ''migrations'' s1"
  proof (cases "has_relation ''migrations'' s")
    case True
    with 1 show ?thesis by (simp add: has_relation_def)
  next
    case False
    with 1 have b: "ddl_batch (concat (map mg_sql base_files)) (s\<lparr>sc_namespace := True\<rparr>) = Inr s1" by simp
    have "CreateTable ''migrations'' \<in> set (concat (map mg_sql base_files))"
      unfolding files by (simp add: sql_003_migrations_table_def)
    with b obtain t t' where "ddl_exec (CreateTable ''migrations'') t = Inr t'" "grows t' s1" by (rule ddl_batch_mem)
    then have "''migrations'' \<in> set (sc_relations s1)" by (auto simp: grows_def has_relation_def split: if_splits)
    with ddl_batch_grows[OF b] show ?thesis by (simp add: grows_def has_relation_def)
  qed
  with later show ?thesis by (auto simp: grows_def has_relation_def)
qed

section \<open>Properties\<close>

text \<open>
  Migrations are all or nothing: a run that reports an error has left the schema as it was, unless
  only the answer of its \<open>COMMIT\<close> was lost, in which case it left what the complete run leaves.
\<close>

theorem run_migrations_atomic:
  assumes "run_migrations mf s = (Inl e, s')"
  shows "s' = s \<or> (\<exists>n. run_migrations (mf\<lparr>mf_commit := None\<rparr>) s = (Inr n, s'))"
  using assms by (auto simp: run_migrations_def split: option.splits sum.splits prod.splits if_splits)

text \<open>
  C25 (migrations are idempotent): after a run that succeeded, a further run succeeds, applies nothing
  and changes nothing; a run on an empty database applies the base files as one unit and the two later
  files.
\<close>

theorem run_migrations_idempotent:
  assumes "run_migrations mf s = (Inr n, s')"
  shows "run_migrations no_mig_faults s' = (Inr 0, s') \<and> n \<le> 3"
proof -
  from assms obtain f' where m: "migrate_tx (mf_stmts mf, s) = Inr (n, (f', s'))"
    by (auto simp: run_migrations_def split: option.splits sum.splits)
  have d: "sc_namespace s'" "has_relation ''migrations'' s'" "4 \<in> set (sc_versions s')" "5 \<in> set (sc_versions s')"
    using migrate_tx_done[OF m] by simp_all
  then have same: "s'\<lparr>sc_namespace := True\<rparr> = s'" by simp
  have "apply_incremental (sc_versions s') later_files 0 ([], s') = Inr (0, ([], s'))"
    using d by (simp add: EMBEDDED_MIGRATIONS_def BASE_BOOTSTRAP_MAX_VERSION_def)
  then have "run_migrations no_mig_faults s' = (Inr 0, s')"
    using d(2) same by (simp add: run_migrations_def migrate_tx_def no_mig_faults_def mig_stmt_no_fault)
  moreover from m obtain k f1 s1 where k: "if has_relation ''migrations'' s then k = 0 \<and> s1 = s\<lparr>sc_namespace := True\<rparr>
      else k = 1 \<and> ddl_batch (concat (map mg_sql base_files)) (s\<lparr>sc_namespace := True\<rparr>) = Inr s1"
    and a: "apply_incremental (sc_versions s1) later_files k (f1, s1) = Inr (n, (f', s'))"
    by (rule migrate_tx_InrE)
  have "k \<le> 1" using k by (simp split: if_splits)
  with apply_incremental_Inr[OF a subset_refl] have "n \<le> 3" unfolding files by simp
  ultimately show ?thesis by simp
qed

text \<open>A server with the two extensions and nothing else.\<close>

definition stock_server :: schema where
  "stock_server = \<lparr>sc_extensions = [''vector'', ''pg_trgm''], sc_embed_dim = None, sc_namespace = False,
     sc_relations = [], sc_functions = [], sc_constraints = [], sc_dim = None, sc_versions = [],
     sc_bad_status = False\<rparr>"

lemmas sql_files = sql_000_schema_def sql_001_tables_def sql_002_indexes_def sql_003_migrations_table_def
  sql_004_retrieval_indexes_def sql_005_status_check_def

lemma stock_server_run:
  "\<exists>s'. run_migrations no_mig_faults stock_server = (Inr 3, s') \<and> sc_versions s' = [1, 4, 5] \<and> sc_dim s' = Some 384"
  by (simp add: run_migrations_def migrate_tx_def no_mig_faults_def stock_server_def mig_stmt_no_fault mig_batch_no_fault
      EMBEDDED_MIGRATIONS_def BASE_BOOTSTRAP_MAX_VERSION_def sql_files has_relation_def unwrap_or_def hnsw_max_dim_def)

theorem run_migrations_idempotent_witness:
  "run_migrations no_mig_faults (snd (run_migrations no_mig_faults stock_server))
     = (Inr 0, snd (run_migrations no_mig_faults stock_server))"
proof -
  obtain s' where s: "run_migrations no_mig_faults stock_server = (Inr 3, s')" using stock_server_run by blast
  from run_migrations_idempotent[OF s] show ?thesis by (simp add: s)
qed

theorem run_migrations_atomic_witness:
  "snd (run_migrations \<lparr>mf_begin = None, mf_stmts = [None, None, Some ''connection reset''], mf_commit = None\<rparr> stock_server)
     = stock_server"
proof -
  let ?mf = "\<lparr>mf_begin = None, mf_stmts = [None, None, Some ''connection reset''], mf_commit = None\<rparr>"
  have "\<exists>e s'. run_migrations ?mf stock_server = (Inl e, s')"
    by (simp add: run_migrations_def migrate_tx_def stock_server_def mig_stmt_def mig_batch_def
        EMBEDDED_MIGRATIONS_def BASE_BOOTSTRAP_MAX_VERSION_def has_relation_def)
  then obtain e s' where r: "run_migrations ?mf stock_server = (Inl e, s')" by blast
  from run_migrations_atomic[OF r] r show ?thesis by auto
qed

lemma create_extension_has:
  assumes "create_extension s = Inr s'"
  shows "''ingest_jobs_status_check'' \<in> set (sc_constraints s')" "''ingest_jobs'' \<in> set (sc_relations s')"
    "''migrations'' \<in> set (sc_relations s')" "sc_namespace s'" "set (sc_versions s') \<subseteq> insert 1 (set (sc_versions s))"
proof -
  let ?ds = "sql_000_schema @ sql_001_tables @ sql_002_indexes @ sql_003_migrations_table
       @ sql_004_retrieval_indexes @ sql_005_status_check"
  have b: "ddl_batch ?ds (s\<lparr>sc_namespace := True\<rparr>) = Inr s'" using assms by (simp add: create_extension_def)
  have "AddStatusCheck ''ingest_jobs_status_check'' \<in> set ?ds" by (simp add: sql_files)
  with b obtain t t' where "ddl_exec (AddStatusCheck ''ingest_jobs_status_check'') t = Inr t'" "grows t' s'"
    by (rule ddl_batch_mem)
  then show "''ingest_jobs_status_check'' \<in> set (sc_constraints s')" "''ingest_jobs'' \<in> set (sc_relations s')"
    by (auto simp: grows_def has_relation_def split: if_splits)
  have "CreateTable ''migrations'' \<in> set ?ds" by (simp add: sql_files)
  with b obtain t t' where "ddl_exec (CreateTable ''migrations'') t = Inr t'" "grows t' s'" by (rule ddl_batch_mem)
  then show "''migrations'' \<in> set (sc_relations s')" by (auto simp: grows_def has_relation_def split: if_splits)
  show "sc_namespace s'" using ddl_batch_grows[OF b] by (simp add: grows_def)
  show "set (sc_versions s') \<subseteq> insert 1 (set (sc_versions s))"
    using ddl_batch_versions[OF b] by (auto simp: sql_files)
qed

text \<open>
  C26 (extension first): where \<open>CREATE EXTENSION\<close> installed the schema, every run of the sidecar's
  migrations fails, with or without connection faults, and changes nothing: the versions of the last two
  files are not recorded there, and the last one is not repeatable.
\<close>

theorem sidecar_fails_after_extension:
  assumes "create_extension s = Inr s'" and "sc_versions s = []"
  shows "\<exists>e. run_migrations mf s' = (Inl e, s')"
proof -
  note has = create_extension_has[OF assms(1)]
  have new: "4 \<notin> set (sc_versions s')" "5 \<notin> set (sc_versions s')" using has(5) assms(2) by auto
  have rel: "has_relation ''migrations'' s'" using has(3) by (simp add: has_relation_def)
  have "migrate_tx (f, s') \<noteq> Inr (n, (f', s2))" for f n f' s2
  proof
    assume "migrate_tx (f, s') = Inr (n, (f', s2))"
    then obtain k f1 s1 where 1: "if has_relation ''migrations'' s' then k = 0 \<and> s1 = s'\<lparr>sc_namespace := True\<rparr>
        else k = 1 \<and> ddl_batch (concat (map mg_sql base_files)) (s'\<lparr>sc_namespace := True\<rparr>) = Inr s1"
      and 2: "apply_incremental (sc_versions s1) later_files k (f1, s1) = Inr (n, (f', s2))"
      by (rule migrate_tx_InrE)
    have s1: "s1 = s'" using 1 rel has(4) by simp
    from 2 new obtain f2 t1 f3 t2 f4 t3 where "mig_batch sql_004_retrieval_indexes (f1, s') = Inr (f2, t1)"
        "mig_batch [InsertVersionOnce 4] (f2, t1) = Inr (f3, t2)" "mig_batch sql_005_status_check (f3, t2) = Inr (f4, t3)"
      unfolding s1 by (auto simp: EMBEDDED_MIGRATIONS_def BASE_BOOTSTRAP_MAX_VERSION_def split: sum.splits)
    note b = this[THEN mig_batch_Inr]
    have "grows s' t2" using b(1,2) by (blast intro: ddl_batch_grows grows_trans)
    then have "''ingest_jobs_status_check'' \<in> set (sc_constraints t2)" using has(1) by (auto simp: grows_def)
    with b(3) show False by (simp add: sql_005_status_check_def split: if_splits)
  qed
  then have "\<exists>e. migrate_tx (f, s') = Inl e" for f
    by (cases "migrate_tx (f, s')") auto
  then obtain e where "migrate_tx (mf_stmts mf, s') = Inl e" by blast
  then show ?thesis by (simp add: run_migrations_def split: option.split)
qed

lemma stock_server_extension: "\<exists>s'. create_extension stock_server = Inr s'"
  by (simp add: create_extension_def stock_server_def sql_files has_relation_def unwrap_or_def hnsw_max_dim_def)

theorem sidecar_fails_after_extension_witness:
  "\<exists>s' e. create_extension stock_server = Inr s' \<and> run_migrations no_mig_faults s' = (Inl e, s')"
proof -
  obtain s' where s: "create_extension stock_server = Inr s'" using stock_server_extension by blast
  from sidecar_fails_after_extension[OF s, of no_mig_faults] s show ?thesis by (auto simp: stock_server_def)
qed

text \<open>
  The dimension of the vector columns comes from the session setting alone: the sidecar's own
  \<open>embed_dim\<close> is not passed to the statements, so a new database gets 384 whatever it is.
\<close>

lemma ddl_batch_dim:
  "ddl_batch ds t = Inr t' \<Longrightarrow> (\<And>ts. CreateTables ts \<notin> set ds) \<Longrightarrow> sc_dim t' = sc_dim t"
proof (induction ds t rule: ddl_batch.induct)
  case (2 d ds t)
  then obtain u where u: "ddl_exec d t = Inr u" "ddl_batch ds u = Inr t'" by (auto split: sum.splits)
  have "sc_dim u = sc_dim t"
    using u(1) 2(3) by (cases d) (auto split: if_splits)
  moreover have "sc_dim t' = sc_dim u" using 2(1)[OF u] 2(3) by simp
  ultimately show ?case by simp
qed simp

lemma base_files_dim:
  assumes "ddl_batch (concat (map mg_sql base_files)) s = Inr s'"
  shows "sc_dim s' = Some (unwrap_or 384 (sc_embed_dim s))"
proof -
  from assms obtain t1 t2 t3 where t: "ddl_batch sql_000_schema s = Inr t1" "ddl_batch sql_001_tables t1 = Inr t2"
      "ddl_batch (sql_002_indexes @ sql_003_migrations_table) t2 = Inr s'"
    unfolding files by (auto simp: ddl_batch_append split: sum.splits)
  have "sc_embed_dim t1 = sc_embed_dim s" using ddl_batch_grows[OF t(1)] by (simp add: grows_def)
  moreover have "sc_dim t2 = Some (unwrap_or 384 (sc_embed_dim t1))"
    using t(2) by (auto simp: sql_001_tables_def Let_def map_sum_def simp del: create_relations.simps split: if_splits sum.splits)
  moreover have "sc_dim s' = sc_dim t2" by (rule ddl_batch_dim[OF t(3)]) (simp add: sql_files)
  ultimately show ?thesis by simp
qed


text \<open>Which settings a stock server can be installed with.\<close>

lemma stock_server_dims:
  "(\<exists>s'. create_extension (stock_server\<lparr>sc_embed_dim := Some d\<rparr>) = Inr s') \<longleftrightarrow> 1 \<le> d \<and> d \<le> hnsw_max_dim"
  "(\<exists>n s'. run_migrations no_mig_faults (stock_server\<lparr>sc_embed_dim := Some d\<rparr>) = (Inr n, s'))
     \<longleftrightarrow> 1 \<le> d \<and> d \<le> hnsw_max_dim"
  by (auto simp: create_extension_def run_migrations_def migrate_tx_def no_mig_faults_def stock_server_def
      mig_stmt_no_fault mig_batch_no_fault EMBEDDED_MIGRATIONS_def BASE_BOOTSTRAP_MAX_VERSION_def sql_files
      has_relation_def unwrap_or_def hnsw_max_dim_def)

lemma apply_incremental_dim:
  "apply_incremental applied ms n (f, s) = Inr (n', (f', s')) \<Longrightarrow> (\<And>m ts. m \<in> set ms \<Longrightarrow> CreateTables ts \<notin> set (mg_sql m))
     \<Longrightarrow> sc_dim s' = sc_dim s"
proof (induction ms arbitrary: n f s)
  case (Cons m ms)
  show ?case
  proof (cases "List.member applied (mg_version m)")
    case True
    with Cons show ?thesis by simp
  next
    case False
    with Cons.prems(1) obtain f1 s1 f2 s2 where *: "mig_batch (mg_sql m) (f, s) = Inr (f1, s1)"
        "mig_batch [InsertVersionOnce (mg_version m)] (f1, s1) = Inr (f2, s2)"
        "apply_incremental applied ms (n + 1) (f2, s2) = Inr (n', (f', s'))"
      by (auto split: sum.splits)
    have "sc_dim s1 = sc_dim s" by (rule ddl_batch_dim[OF mig_batch_Inr[OF *(1)]]) (simp add: Cons.prems(2))
    moreover have "sc_dim s2 = sc_dim s1" by (rule ddl_batch_dim[OF mig_batch_Inr[OF *(2)]]) simp
    ultimately show ?thesis using Cons.IH[OF *(3)] Cons.prems(2) by simp
  qed
qed simp

lemma run_migrations_dim:
  assumes "run_migrations mf s = (Inr n, s')" and "\<not> has_relation ''migrations'' s"
  shows "sc_dim s' = Some (unwrap_or 384 (sc_embed_dim s))"
proof -
  from assms(1) obtain f' where "migrate_tx (mf_stmts mf, s) = Inr (n, (f', s'))"
    by (auto simp: run_migrations_def split: option.splits sum.splits)
  then obtain k f1 s1 where 1: "if has_relation ''migrations'' s then k = 0 \<and> s1 = s\<lparr>sc_namespace := True\<rparr>
      else k = 1 \<and> ddl_batch (concat (map mg_sql base_files)) (s\<lparr>sc_namespace := True\<rparr>) = Inr s1"
    and 2: "apply_incremental (sc_versions s1) later_files k (f1, s1) = Inr (n, (f', s'))"
    by (rule migrate_tx_InrE)
  have "sc_dim s' = sc_dim s1"
    by (rule apply_incremental_dim[OF 2]) (auto simp: EMBEDDED_MIGRATIONS_def BASE_BOOTSTRAP_MAX_VERSION_def sql_files)
  with base_files_dim[of "s\<lparr>sc_namespace := True\<rparr>" s1] 1 assms(2) show ?thesis by simp
qed

end
