(* ===== verification/Fixture.thy ===== *)
theory Fixture
  imports PgIngest
begin

text \<open>
  Fixture files: the parser of one JSONL line (\<^verbatim>\<open>pg_raggraph_core/src/retrieval/fixture.rs\<close>) and the
  loader \<open>pgrg.ingest_extracted\<close> (\<^verbatim>\<open>pg_raggraph/src/ingest_extracted.rs\<close>), which inserts the records
  in one statement. The JSON library, the readings of a JSON value and the file are parameters; the
  columns \<open>metadata\<close> and \<open>classification\<close> are carried by the records but are not columns of the
  tables modelled here.
\<close>

section \<open>Records\<close>

record 'v fixture_document =
  fd_id :: uuid
  fd_namespace :: string
  fd_source :: string
  fd_content_hash :: string
  fd_title :: "string option"
  fd_metadata :: 'v

record 'v fixture_chunk =
  fc_id :: uuid
  fc_namespace :: string
  fc_document_id :: uuid
  fc_ord :: i32
  fc_text :: string
  fc_token_count :: i32
  fc_embedding :: "f32 list"
  fc_metadata :: 'v

record fixture_entity =
  fe_id :: uuid
  fe_namespace :: string
  fe_name :: string
  fe_kind_label :: "string option"
  fe_name_emb :: "f32 list"
  fe_description :: "string option"

record fixture_relationship =
  fr_id :: uuid
  fr_namespace :: string
  fr_src_id :: uuid
  fr_dst_id :: uuid
  fr_kind :: string
  fr_weight :: f64

record fixture_chunk_entity =
  fx_chunk_id :: uuid
  fx_entity_id :: uuid
  fx_confidence :: f64
  fx_classification :: string

datatype 'v fixture_record =
    FDocument "'v fixture_document"
  | FChunk "'v fixture_chunk"
  | FEntity fixture_entity
  | FRelationship fixture_relationship
  | FChunkEntity fixture_chunk_entity

definition default_weight :: f64 where "default_weight = Fin 1"
definition default_confidence :: f64 where "default_confidence = Fin 1"
definition default_classification :: string where "default_classification = ''extracted''"

section \<open>Parsing\<close>

record 'v fixture_api = "'v body_api" +
  fa_uuid :: "'v \<Rightarrow> uuid option"
  fa_f64 :: "'v \<Rightarrow> f64 option"
  fa_f32s :: "'v \<Rightarrow> f32 list option"
  fa_error :: "'v \<Rightarrow> string"

abbreviation (input) fields :: "'v fixture_api \<Rightarrow> 'v body_api" where
  "fields D \<equiv> body_api.truncate D"

definition de_document :: "'v json_api \<Rightarrow> 'v fixture_api \<Rightarrow> 'v \<Rightarrow> 'v fixture_document option" where
  "de_document J D v =
     Option.bind (required (fields D) v ''id'' (fa_uuid D)) (\<lambda>i.
     Option.bind (required (fields D) v ''namespace'' (ba_string D)) (\<lambda>ns.
     Option.bind (required (fields D) v ''source'' (ba_string D)) (\<lambda>src.
     Option.bind (required (fields D) v ''content_hash'' (ba_string D)) (\<lambda>h.
     Option.bind (field_or (fields D) v ''title'' None (optional (fields D) (ba_string D))) (\<lambda>title.
     Option.bind (field_or (fields D) v ''metadata'' (js_object J []) Some) (\<lambda>md.
       Some \<lparr>fd_id = i, fd_namespace = ns, fd_source = src, fd_content_hash = h, fd_title = title,
             fd_metadata = md\<rparr>))))))"

definition de_chunk :: "'v json_api \<Rightarrow> 'v fixture_api \<Rightarrow> 'v \<Rightarrow> 'v fixture_chunk option" where
  "de_chunk J D v =
     Option.bind (required (fields D) v ''id'' (fa_uuid D)) (\<lambda>i.
     Option.bind (required (fields D) v ''namespace'' (ba_string D)) (\<lambda>ns.
     Option.bind (required (fields D) v ''document_id'' (fa_uuid D)) (\<lambda>d.
     Option.bind (required (fields D) v ''ord'' (ba_i32 D)) (\<lambda>ord.
     Option.bind (required (fields D) v ''text'' (ba_string D)) (\<lambda>txt.
     Option.bind (required (fields D) v ''token_count'' (ba_i32 D)) (\<lambda>tc.
     Option.bind (required (fields D) v ''embedding'' (fa_f32s D)) (\<lambda>emb.
     Option.bind (field_or (fields D) v ''metadata'' (js_object J []) Some) (\<lambda>md.
       Some \<lparr>fc_id = i, fc_namespace = ns, fc_document_id = d, fc_ord = ord, fc_text = txt,
             fc_token_count = tc, fc_embedding = emb, fc_metadata = md\<rparr>))))))))"

definition de_entity :: "'v fixture_api \<Rightarrow> 'v \<Rightarrow> fixture_entity option" where
  "de_entity D v =
     Option.bind (required (fields D) v ''id'' (fa_uuid D)) (\<lambda>i.
     Option.bind (required (fields D) v ''namespace'' (ba_string D)) (\<lambda>ns.
     Option.bind (required (fields D) v ''name'' (ba_string D)) (\<lambda>name.
     Option.bind (field_or (fields D) v ''kind_label'' None (optional (fields D) (ba_string D))) (\<lambda>kind.
     Option.bind (required (fields D) v ''name_emb'' (fa_f32s D)) (\<lambda>emb.
     Option.bind (field_or (fields D) v ''description'' None (optional (fields D) (ba_string D))) (\<lambda>descr.
       Some \<lparr>fe_id = i, fe_namespace = ns, fe_name = name, fe_kind_label = kind, fe_name_emb = emb,
             fe_description = descr\<rparr>))))))"

definition de_relationship :: "'v fixture_api \<Rightarrow> 'v \<Rightarrow> fixture_relationship option" where
  "de_relationship D v =
     Option.bind (required (fields D) v ''id'' (fa_uuid D)) (\<lambda>i.
     Option.bind (required (fields D) v ''namespace'' (ba_string D)) (\<lambda>ns.
     Option.bind (required (fields D) v ''src_id'' (fa_uuid D)) (\<lambda>src.
     Option.bind (required (fields D) v ''dst_id'' (fa_uuid D)) (\<lambda>dst.
     Option.bind (required (fields D) v ''kind_label'' (ba_string D)) (\<lambda>kind.
     Option.bind (field_or (fields D) v ''weight'' default_weight (fa_f64 D)) (\<lambda>weight.
       Some \<lparr>fr_id = i, fr_namespace = ns, fr_src_id = src, fr_dst_id = dst, fr_kind = kind,
             fr_weight = weight\<rparr>))))))"

definition de_chunk_entity :: "'v fixture_api \<Rightarrow> 'v \<Rightarrow> fixture_chunk_entity option" where
  "de_chunk_entity D v =
     Option.bind (required (fields D) v ''chunk_id'' (fa_uuid D)) (\<lambda>c.
     Option.bind (required (fields D) v ''entity_id'' (fa_uuid D)) (\<lambda>e.
     Option.bind (field_or (fields D) v ''confidence'' default_confidence (fa_f64 D)) (\<lambda>conf.
     Option.bind (field_or (fields D) v ''classification'' default_classification (ba_string D)) (\<lambda>cls.
       Some \<lparr>fx_chunk_id = c, fx_entity_id = e, fx_confidence = conf, fx_classification = cls\<rparr>))))"

text \<open>\<open>serde_json::from_value(v)?\<close>\<close>

definition from_value :: "'v fixture_api \<Rightarrow> 'v \<Rightarrow> 'a option \<Rightarrow> 'a core_result" where
  "from_value D v r = ok_or (Json (fa_error D v)) r"

definition parse_jsonl_line :: "'v json_api \<Rightarrow> 'v fixture_api \<Rightarrow> string \<Rightarrow> 'v fixture_record core_result" where
  "parse_jsonl_line J D line =
     (let trimmed = trim line in
      if trimmed = [] then Inl (InvalidConfig ''empty line'')
      else
        res_bind (map_err Json (js_from_str J trimmed)) (\<lambda>v.
        res_bind (ok_or (InvalidConfig ''missing `kind` field'') (js_as_str J (js_key J v ''kind''))) (\<lambda>kind.
          if kind = ''document'' then map_sum id FDocument (from_value D v (de_document J D v))
          else if kind = ''chunk'' then map_sum id FChunk (from_value D v (de_chunk J D v))
          else if kind = ''entity'' then map_sum id FEntity (from_value D v (de_entity D v))
          else if kind = ''relationship'' then map_sum id FRelationship (from_value D v (de_relationship D v))
          else if kind = ''chunk_entity'' then map_sum id FChunkEntity (from_value D v (de_chunk_entity D v))
          else Inl (InvalidConfig (''unknown record kind: '' @ kind)))))"

section \<open>Loading\<close>

text \<open>The namespace of the call replaces the one of the record.\<close>

fun insert_record :: "pg_ext \<Rightarrow> string \<Rightarrow> 'v fixture_record \<Rightarrow> database \<Rightarrow> sql_error + database" where
  "insert_record X ns (FDocument d) db =
     sql_insert_document \<lparr>dr_id = fd_id d, dr_namespace = ns, dr_source = fd_source d,
       dr_content_hash = fd_content_hash d, dr_title = fd_title d\<rparr> db"
| "insert_record X ns (FChunk c) db =
     sql_insert_chunk X \<lparr>cw_id = fc_id c, cw_document_id = fc_document_id c, cw_namespace = ns,
       cw_ord = fc_ord c, cw_text = fc_text c, cw_token_count = fc_token_count c,
       cw_embedding = fc_embedding c\<rparr> (vector_literal (fc_embedding c)) db"
| "insert_record X ns (FEntity e) db =
     sql_insert_entity X \<lparr>en_id = fe_id e, en_namespace = ns, en_name = fe_name e, en_kind = fe_kind_label e,
       en_name_emb = Some (fe_name_emb e), en_description = fe_description e\<rparr>
       (Some (vector_literal (fe_name_emb e))) db"
| "insert_record X ns (FRelationship r) db =
     sql_insert_relationship \<lparr>rr_id = fr_id r, rr_namespace = ns, rr_src_id = fr_src_id r,
       rr_dst_id = fr_dst_id r, rr_kind = fr_kind r, rr_weight = fr_weight r, rr_description = None\<rparr> db"
| "insert_record X ns (FChunkEntity l) db =
     sql_insert_chunk_entity \<lparr>ce_chunk_id = fx_chunk_id l, ce_entity_id = fx_entity_id l,
       ce_confidence = fx_confidence l\<rparr> db"

text \<open>
  The loop over the lines, each of which may fail to be read. The number of a line counts blank lines
  too, the result counts the records, inserted or skipped on a conflict.
\<close>

fun load_lines ::
  "'v json_api \<Rightarrow> 'v fixture_api \<Rightarrow> pg_ext \<Rightarrow> string \<Rightarrow> nat \<Rightarrow> (string + string) list \<Rightarrow> nat \<Rightarrow> database
     \<Rightarrow> string + nat \<times> database" where
  "load_lines J D X ns lineno [] n db = Inr (n, db)"
| "load_lines J D X ns lineno (Inl e # ls) n db =
     Inl (''ingest_extracted: read line '' @ show_nat lineno @ '': '' @ e)"
| "load_lines J D X ns lineno (Inr line # ls) n db =
     (if trim line = [] then load_lines J D X ns (lineno + 1) ls n db
      else
        (case parse_jsonl_line J D line of
           Inl e \<Rightarrow> Inl (''ingest_extracted: parse line '' @ show_nat lineno @ '': '' @ core_error_display e)
         | Inr rec \<Rightarrow>
             (case insert_record X ns rec db of
                Inl e \<Rightarrow> Inl (px_render X e)
              | Inr db' \<Rightarrow> load_lines J D X ns (lineno + 1) ls (n + 1) db')))"

text \<open>\<open>file\<close> is what opening and reading the path gives; an error aborts the statement.\<close>

definition ingest_extracted ::
  "'v json_api \<Rightarrow> 'v fixture_api \<Rightarrow> pg_ext \<Rightarrow> string \<Rightarrow> string + (string + string) list \<Rightarrow> string \<Rightarrow> database
     \<Rightarrow> (string + nat) \<times> database" where
  "ingest_extracted J D X path file ns db =
     (case file of
        Inl e \<Rightarrow> (Inl (''ingest_extracted: cannot open '' @ path @ '': '' @ e), db)
      | Inr ls \<Rightarrow>
          (case load_lines J D X ns 0 ls 0 db of
             Inl e \<Rightarrow> (Inl e, db)
           | Inr (n, db') \<Rightarrow> (Inr n, db')))"

section \<open>Facts\<close>

lemma insert_record_ok: "db_ok db \<Longrightarrow> insert_record X ns rec db = Inr db' \<Longrightarrow> db_ok db'"
  by (cases rec) (auto dest: db_ok_insert_document db_ok_insert_chunk db_ok_insert_entity
      db_ok_insert_relationship db_ok_insert_chunk_entity)

text \<open>The records of a file that was loaded, in order.\<close>

fun file_records :: "'v json_api \<Rightarrow> 'v fixture_api \<Rightarrow> (string + string) list \<Rightarrow> 'v fixture_record list option" where
  "file_records J D [] = Some []"
| "file_records J D (Inl e # ls) = None"
| "file_records J D (Inr line # ls) =
     (if trim line = [] then file_records J D ls
      else
        (case parse_jsonl_line J D line of
           Inl e \<Rightarrow> None
         | Inr rec \<Rightarrow> map_option ((#) rec) (file_records J D ls)))"

fun insert_records :: "pg_ext \<Rightarrow> string \<Rightarrow> 'v fixture_record list \<Rightarrow> database \<Rightarrow> sql_error + database" where
  "insert_records X ns [] db = Inr db"
| "insert_records X ns (r # rs) db =
     (case insert_record X ns r db of Inl e \<Rightarrow> Inl e | Inr db' \<Rightarrow> insert_records X ns rs db')"

lemma load_lines_Inr_iff:
  "load_lines J D X ns k ls n db = Inr (m, db') \<longleftrightarrow>
     (\<exists>rs. file_records J D ls = Some rs \<and> m = n + length rs \<and> insert_records X ns rs db = Inr db')"
proof (induction J D X ns k ls n db rule: load_lines.induct)
  case (3 J D X ns k line ls n db)
  show ?case
  proof (cases "trim line = []")
    case True
    then show ?thesis using 3(1) by simp
  next
    case False
    show ?thesis
    proof (cases "parse_jsonl_line J D line")
      case (Inl e)
      then show ?thesis using False by simp
    next
      case (Inr rec)
      show ?thesis
      proof (cases "insert_record X ns rec db")
        case (Inl e)
        then show ?thesis using False \<open>parse_jsonl_line J D line = Inr rec\<close> by auto
      next
        case (Inr db1)
        then show ?thesis using False \<open>parse_jsonl_line J D line = Inr rec\<close> 3(2) by auto
      qed
    qed
  qed
qed auto

lemma insert_records_ok: "db_ok db \<Longrightarrow> insert_records X ns rs db = Inr db' \<Longrightarrow> db_ok db'"
proof (induction rs arbitrary: db)
  case (Cons r rs)
  then show ?case by (auto split: sum.splits dest: insert_record_ok)
qed simp

text \<open>Tables only grow, and a grown table still rejects or skips what it rejected or skipped before.\<close>

definition extends :: "database \<Rightarrow> database \<Rightarrow> bool" where
  "extends db db' \<longleftrightarrow> db_dim db' = db_dim db \<and> set (db_documents db) \<subseteq> set (db_documents db')
     \<and> set (db_chunks db) \<subseteq> set (db_chunks db') \<and> set (db_entities db) \<subseteq> set (db_entities db')
     \<and> set (db_relationships db) \<subseteq> set (db_relationships db')
     \<and> set (db_chunk_entities db) \<subseteq> set (db_chunk_entities db')"

lemma extends_refl [simp]: "extends db db"
  by (simp add: extends_def)

lemma extends_trans: "extends a b \<Longrightarrow> extends b c \<Longrightarrow> extends a c"
  by (auto simp: extends_def)

lemma list_ex_mono: "set xs \<subseteq> set ys \<Longrightarrow> list_ex Q xs \<Longrightarrow> list_ex Q ys"
  by (auto simp: list_ex_iff)

lemma insert_record_extends: "insert_record X ns rec db = Inr db' \<Longrightarrow> extends db db'"
  by (cases rec) (auto simp: extends_def sql_insert_document_def sql_insert_chunk_def sql_insert_entity_def
      sql_insert_relationship_def sql_insert_chunk_entity_def res_bind_Inr_iff split: if_splits)

lemma insert_records_extends: "insert_records X ns rs db = Inr db' \<Longrightarrow> extends db db'"
proof (induction rs arbitrary: db)
  case (Cons r rs)
  then show ?case by (auto split: sum.splits intro: extends_trans dest: insert_record_extends)
qed simp

definition kindless :: "'v fixture_record \<Rightarrow> bool" where
  "kindless rec = (case rec of FEntity e \<Rightarrow> fe_kind_label e = None | _ \<Rightarrow> False)"

lemma sql_vector_dim: "db_dim a = db_dim b \<Longrightarrow> sql_vector X a lit = sql_vector X b lit"
  by (simp add: sql_vector_def split: sum.split)

text \<open>Inserting a record again, in a database that has grown since: skipped, or a duplicate key.\<close>

lemma insert_record_dim:
  "insert_record X ns rec db = Inr db1 \<Longrightarrow> extends db1 db2 \<Longrightarrow> db_dim db2 = db_dim db"
  by (metis insert_record_extends extends_def)

lemma insert_record_again:
  assumes "insert_record X ns rec db = Inr db1" and "extends db1 db2"
  shows "insert_record X ns rec db2 = (if kindless rec then Inl (UniqueViolation ''entities_pkey'') else Inr db2)"
proof (cases rec)
  case (FDocument d)
  have "list_ex (\<lambda>x. dr_content_hash x = fd_content_hash d) (db_documents db1)"
    using assms(1) FDocument by (auto simp: sql_insert_document_def split: if_splits)
  then have "list_ex (\<lambda>x. dr_content_hash x = fd_content_hash d) (db_documents db2)"
    using assms(2) by (auto simp: extends_def intro: list_ex_mono)
  then show ?thesis using FDocument by (simp add: sql_insert_document_def kindless_def)
next
  case (FChunk c)
  obtain v where v: "sql_vector X db (vector_literal (fc_embedding c)) = Inr v"
    using assms(1) FChunk by (auto simp: sql_insert_chunk_def res_bind_Inr_iff)
  then have v2: "sql_vector X db2 (vector_literal (fc_embedding c)) = Inr v" using sql_vector_dim[OF insert_record_dim[OF assms]] by simp
  have "list_ex (\<lambda>x. cw_document_id x = fc_document_id c \<and> cw_ord x = fc_ord c) (db_chunks db1)"
    using assms(1) FChunk v by (auto simp: sql_insert_chunk_def split: if_splits)
  then have "list_ex (\<lambda>x. cw_document_id x = fc_document_id c \<and> cw_ord x = fc_ord c) (db_chunks db2)"
    using assms(2) by (auto simp: extends_def intro: list_ex_mono)
  then show ?thesis using FChunk v2 by (simp add: sql_insert_chunk_def kindless_def)
next
  case (FEntity e)
  obtain v where v: "sql_vector X db (vector_literal (fe_name_emb e)) = Inr v"
    using assms(1) FEntity by (auto simp: sql_insert_entity_def res_bind_Inr_iff map_sum_def split: sum.splits)
  then have v2: "sql_vector X db2 (vector_literal (fe_name_emb e)) = Inr v" using sql_vector_dim[OF insert_record_dim[OF assms]] by simp
  have "list_ex (\<lambda>x. if fe_kind_label e = None then en_id x = fe_id e
      else en_namespace x = ns \<and> en_name x = fe_name e \<and> en_kind x = fe_kind_label e) (db_entities db1)"
    using assms(1) FEntity v by (auto simp: sql_insert_entity_def split: if_splits)
  moreover have "set (db_entities db1) \<subseteq> set (db_entities db2)" using assms(2) by (simp add: extends_def)
  ultimately have "list_ex (\<lambda>x. if fe_kind_label e = None then en_id x = fe_id e
      else en_namespace x = ns \<and> en_name x = fe_name e \<and> en_kind x = fe_kind_label e) (db_entities db2)"
    by (rule list_ex_mono[rotated])
  then show ?thesis using FEntity v2
    by (cases "fe_kind_label e") (simp_all add: sql_insert_entity_def kindless_def)
next
  case (FRelationship r)
  let ?key = "\<lambda>x. rr_namespace x = ns \<and> rr_src_id x = fr_src_id r \<and> rr_dst_id x = fr_dst_id r \<and> rr_kind x = fr_kind r"
  have "list_ex ?key (db_relationships db1)"
    using assms(1) FRelationship by (auto simp: sql_insert_relationship_def split: if_splits)
  then have "list_ex ?key (db_relationships db2)"
    using assms(2) by (auto simp: extends_def intro: list_ex_mono)
  then show ?thesis using FRelationship by (simp add: sql_insert_relationship_def kindless_def)
next
  case (FChunkEntity l)
  let ?key = "\<lambda>x. ce_chunk_id x = fx_chunk_id l \<and> ce_entity_id x = fx_entity_id l"
  have "list_ex ?key (db_chunk_entities db1)"
    using assms(1) FChunkEntity by (auto simp: sql_insert_chunk_entity_def split: if_splits)
  then have "list_ex ?key (db_chunk_entities db2)"
    using assms(2) by (auto simp: extends_def intro: list_ex_mono)
  then show ?thesis using FChunkEntity by (simp add: sql_insert_chunk_entity_def kindless_def)
qed

lemma insert_records_again:
  assumes "insert_records X ns rs db = Inr db1" and "extends db1 db2"
  shows "insert_records X ns rs db2 = (if list_ex kindless rs then Inl (UniqueViolation ''entities_pkey'') else Inr db2)"
  using assms(1)
proof (induction rs arbitrary: db)
  case (Cons r rs)
  then obtain db0 where r: "insert_record X ns r db = Inr db0" "insert_records X ns rs db0 = Inr db1"
    by (auto split: sum.splits)
  have "extends db0 db2" using insert_records_extends[OF r(2)] assms(2) by (rule extends_trans)
  with insert_record_again[OF r(1)] Cons.IH[OF r(2)] show ?case by simp
qed simp

section \<open>Properties\<close>

text \<open>
  Loading a fixture: the call fails and changes nothing, or every line was read, every line that is
  not blank is a record, all of them were inserted or skipped in order, the answer is their number and
  the tables still satisfy the schema.
\<close>

theorem ingest_extracted_correct:
  assumes "db_ok db" and "ingest_extracted J D X path file ns db = (r, db')"
  shows "case r of
    Inl _ \<Rightarrow> db' = db
  | Inr n \<Rightarrow> \<exists>ls rs. file = Inr ls \<and> file_records J D ls = Some rs \<and> insert_records X ns rs db = Inr db'
      \<and> n = length rs \<and> n = length (filter (\<lambda>l. case l of Inl _ \<Rightarrow> True | Inr t \<Rightarrow> trim t \<noteq> []) ls)
      \<and> extends db db' \<and> db_ok db'"
proof (cases r)
  case (Inl e)
  with assms(2) show ?thesis by (auto simp: ingest_extracted_def split: sum.splits prod.splits)
next
  case (Inr n)
  with assms(2) obtain ls where ls: "file = Inr ls" "load_lines J D X ns 0 ls 0 db = Inr (n, db')"
    by (auto simp: ingest_extracted_def split: sum.splits prod.splits)
  then obtain rs where rs: "file_records J D ls = Some rs" "n = length rs" "insert_records X ns rs db = Inr db'"
    by (auto simp: load_lines_Inr_iff)
  have "length rs = length (filter (\<lambda>l. case l of Inl _ \<Rightarrow> True | Inr t \<Rightarrow> trim t \<noteq> []) ls)"
    using rs(1)
  proof (induction J D ls arbitrary: rs rule: file_records.induct)
    case (3 J D line ls)
    then show ?case by (auto split: if_splits sum.splits)
  qed auto
  with ls rs insert_records_extends[OF rs(3)] insert_records_ok[OF assms(1) rs(3)] Inr show ?thesis by auto
qed

text \<open>
  C32 (loading twice): a file that was loaded once can be loaded again, with the same answer and no effect,
  exactly if each of its entities has a kind: an entity without one never conflicts on its name, so its
  second insertion is a duplicate of its primary key and the whole load fails.
\<close>

theorem ingest_extracted_twice:
  assumes "ingest_extracted J D X path file ns db = (Inr n, db')"
  shows "case file of
    Inl _ \<Rightarrow> False
  | Inr ls \<Rightarrow> ingest_extracted J D X path file ns db' =
      (if list_ex kindless (the (file_records J D ls)) then (Inl (px_render X (UniqueViolation ''entities_pkey'')), db')
       else (Inr n, db'))"
proof -
  from assms obtain ls where ls: "file = Inr ls" "load_lines J D X ns 0 ls 0 db = Inr (n, db')"
    by (auto simp: ingest_extracted_def split: sum.splits prod.splits)
  then obtain rs where rs: "file_records J D ls = Some rs" "n = length rs" "insert_records X ns rs db = Inr db'"
    by (auto simp: load_lines_Inr_iff)
  note again = insert_records_again[OF rs(3) extends_refl]
  have err: "load_lines J D X ns k ls m a = Inl (px_render X e)"
    if "file_records J D ls = Some rs" "insert_records X ns rs a = Inl e" for k m a e rs
    using that
  proof (induction J D X ns k ls m a arbitrary: rs rule: load_lines.induct)
    case (3 J D X ns k line ls m a)
    then show ?case by (auto split: if_splits sum.splits)
  qed auto
  show ?thesis
  proof (cases "list_ex kindless rs")
    case True
    with again err[OF rs(1)] ls rs(1) show ?thesis by (simp add: ingest_extracted_def)
  next
    case False
    then have "load_lines J D X ns 0 ls 0 db' = Inr (n, db')" using again rs by (simp add: load_lines_Inr_iff)
    with False ls rs(1) show ?thesis by (simp add: ingest_extracted_def)
  qed
qed

text \<open>One line: an entity without a kind. Its text is the number 1, parsed as the object below.\<close>

definition demo_line :: jv where
  "demo_line = JObj [(''kind'', JStr ''entity''), (''id'', JInt 5), (''namespace'', JStr ''x''), (''name'', JStr ''Ada''),
     (''name_emb'', JArr [])]"

definition demo_fields :: "jv fixture_api" where
  "demo_fields = \<lparr>
     ba_field = (\<lambda>v k. case v of JObj kvs \<Rightarrow> map_of kvs k | _ \<Rightarrow> None),
     ba_string = (\<lambda>v. case v of JStr s \<Rightarrow> Some s | _ \<Rightarrow> None), ba_i32 = (\<lambda>_. None),
     ba_is_null = (\<lambda>v. v = JNull), fa_uuid = (\<lambda>v. case v of JInt i \<Rightarrow> Some (Uuid i) | _ \<Rightarrow> None),
     fa_f64 = (\<lambda>_. None), fa_f32s = (\<lambda>v. case v of JArr _ \<Rightarrow> Some [Fin 1] | _ \<Rightarrow> None), fa_error = (\<lambda>_. [])\<rparr>"

lemma demo_trim: "trim ''1'' = ''1''" "trim '' '' = []"
  by (simp_all add: trim_def trim_by_def uchars_ascii_Cons is_whitespace_def)

lemma demo_parse:
  "parse_jsonl_line (jv_api [(''1'', demo_line)]) demo_fields ''1'' = Inr (FEntity \<lparr>fe_id = Uuid 5, fe_namespace = ''x'',
     fe_name = ''Ada'', fe_kind_label = None, fe_name_emb = [Fin 1], fe_description = None\<rparr>)"
  by (simp add: parse_jsonl_line_def Let_def demo_trim jv_api_def demo_line_def demo_fields_def from_value_def
      de_entity_def required_def field_or_def body_api.defs)

lemma demo_load:
  "\<exists>db'. ingest_extracted (jv_api [(''1'', demo_line)]) demo_fields demo_ext ''f'' (Inr [Inr '' '', Inr ''1'']) ''ns'' demo_db
     = (Inr 1, db')"
  by (simp add: ingest_extracted_def demo_trim demo_parse sql_insert_entity_def sql_vector_def demo_ext_def demo_db_def)

theorem ingest_extracted_correct_witness:
  "\<exists>db'. ingest_extracted (jv_api [(''1'', demo_line)]) demo_fields demo_ext ''f'' (Inr [Inr '' '', Inr ''1'']) ''ns'' demo_db
     = (Inr 1, db') \<and> db_ok db' \<and> extends demo_db db'"
proof -
  obtain db' where l: "ingest_extracted (jv_api [(''1'', demo_line)]) demo_fields demo_ext ''f'' (Inr [Inr '' '', Inr ''1''])
      ''ns'' demo_db = (Inr 1, db')"
    using demo_load by blast
  from ingest_extracted_correct[OF demo_db_ok l] l show ?thesis by auto
qed

theorem ingest_extracted_twice_witness:
  "\<exists>db'. ingest_extracted (jv_api [(''1'', demo_line)]) demo_fields demo_ext ''f'' (Inr [Inr '' '', Inr ''1'']) ''ns'' demo_db
      = (Inr 1, db')
    \<and> ingest_extracted (jv_api [(''1'', demo_line)]) demo_fields demo_ext ''f'' (Inr [Inr '' '', Inr ''1'']) ''ns'' db'
      = (Inl ''error'', db')"
proof -
  obtain db' where l: "ingest_extracted (jv_api [(''1'', demo_line)]) demo_fields demo_ext ''f'' (Inr [Inr '' '', Inr ''1''])
      ''ns'' demo_db = (Inr 1, db')"
    using demo_load by blast
  have "px_render demo_ext e = ''error''" for e by (simp add: demo_ext_def)
  with ingest_extracted_twice[OF l] l show ?thesis
    by (simp add: demo_trim demo_parse kindless_def)
qed

end
