(* ===== verification/Drain.thy ===== *)
theory Drain
  imports JobQueue
begin

text \<open>
  Progress of the queue: a worker that keeps polling (\<open>run_worker\<close> of
  \<^verbatim>\<open>pg_raggraph_sidecar/src/main.rs\<close>) settles every queued job, oldest first. The control connection
  has no faults here; the ingest itself may fail in any way, at any statement.
\<close>

section \<open>Filtering a stable sort\<close>

context sort_order
begin

lemma sort_insert_least: "\<forall>z \<in> set zs. le x z \<Longrightarrow> sort_insert le x zs = x # zs"
  by (cases zs) auto

lemma filter_sort_insert_sorted:
  assumes "sorted_wrt le xs" and "insert x (set xs) \<subseteq> D"
  shows "filter Q (sort_insert le x xs) = (if Q x then sort_insert le x (filter Q xs) else filter Q xs)"
  using assms
proof (induction xs)
  case (Cons y ys)
  show ?case
  proof (cases "le x y")
    case True
    then have "\<forall>z \<in> set (filter Q (y # ys)). le x z"
      using Cons.prems le_trans[of x y] by auto
    then have "sort_insert le x (filter Q (y # ys)) = x # filter Q (y # ys)" by (rule sort_insert_least)
    with True show ?thesis by simp
  next
    case False
    with Cons show ?thesis by simp
  qed
qed simp

lemma filter_stable_sort:
  "set xs \<subseteq> D \<Longrightarrow> filter Q (stable_sort le xs) = stable_sort le (filter Q xs)"
proof (induction xs)
  case (Cons x xs)
  then have "sorted_wrt le (stable_sort le xs)" by (simp add: sorted_stable_sort)
  with Cons show ?case by (simp add: filter_sort_insert_sorted)
qed simp

end

interpretation by_age: sort_order "\<lambda>a b. jb_enqueued_at a \<le> jb_enqueued_at b" UNIV
  by unfold_locales auto

section \<open>Polling\<close>

text \<open>The polls of one worker, each with the times of its two updates and the faults of its ingest.\<close>

fun polls ::
  "pg_ext \<Rightarrow> ('c, 'w) ingest_env \<Rightarrow> (core_error \<Rightarrow> string) \<Rightarrow> 'w embedder \<Rightarrow> (int \<times> int \<times> string option list) list
     \<Rightarrow> database \<times> 'w \<Rightarrow> (string + process_outcome) list \<times> database \<times> 'w" where
  "polls X env dbg emb [] dbw = ([], dbw)"
| "polls X env dbg emb ((t1, t2, faults) # ts) dbw =
     (case process_one X env dbg (no_faults\<lparr>cf_statements := faults\<rparr>) [] t1 t2 emb dbw of
        (r, dbw') \<Rightarrow> (case polls X env dbg emb ts dbw' of (rs, dbw'') \<Rightarrow> (r # rs, dbw'')))"

text \<open>The job a poll settled.\<close>

definition settled :: "string + process_outcome \<Rightarrow> uuid option" where
  "settled r = (case r of Inr (POCompleted i) \<Rightarrow> Some i | Inr (POFailed i _) \<Rightarrow> Some i | _ \<Rightarrow> None)"

text \<open>The queued jobs in the order in which they are claimed.\<close>

definition waiting :: "database \<Rightarrow> job_row list" where
  "waiting db = stable_sort (\<lambda>a b. jb_enqueued_at a \<le> jb_enqueued_at b)
     (filter (\<lambda>j. jb_status j = Queued) (db_jobs db))"

lemma process_one_outcome:
  assumes "process_one X env dbg (no_faults\<lparr>cf_statements := faults\<rparr>) [] t1 t2 emb (db, w) = (r, db', w')"
    and "sql_claim [] t1 db = Inr (Some j', db1)"
  obtains "r = Inr (POCompleted (jb_id j'))" and "db_jobs db' = db_jobs (complete_job t2 (jb_id j') db1)"
  | e where "r = Inr (POFailed (jb_id j') e)" and "db_jobs db' = db_jobs (fail_job t2 (jb_id j') e db1)"
proof -
  obtain q t w1 where q: "run_job (tokio_client X) env (build_request (claimed_of j')) emb (mock_llm mock_new)
      (tx_begin faults db1, w) = (q, (t, w1))"
    by (metis surj_pair)
  have id: "cj_id (claimed_of j') = jb_id j'" by (simp add: claimed_of_def)
  show thesis
  proof (cases q)
    case (Inr out)
    then have r: "r = Inr (POCompleted (jb_id j'))" and db': "db' = complete_job t2 (jb_id j') (tx_commit t)"
      using assms q by (simp_all add: process_one_def claim_next_job_def no_faults_def id Let_def)
    have "db_jobs db' = db_jobs (complete_job t2 (jb_id j') db1)"
      by (simp add: db' complete_job_def update_job_def tokio_job_jobs[OF q])
    with r show thesis by (rule that(1))
  next
    case (Inl e)
    then have r: "r = Inr (POFailed (jb_id j') (dbg e))" and db': "db' = fail_job t2 (jb_id j') (dbg e) (tx_rollback t)"
      using assms q by (simp_all add: process_one_def claim_next_job_def no_faults_def id Let_def)
    have "db_jobs db' = db_jobs (fail_job t2 (jb_id j') (dbg e) db1)"
      by (simp add: db' tokio_job_error_rolls_back[OF q[unfolded Inl]])
    with r show thesis by (rule that(2))
  qed
qed

lemma filter_settled:
  "\<not> Q f \<Longrightarrow> filter Q (map (\<lambda>x. if k x = i then f else x) xs) = filter (\<lambda>x. k x \<noteq> i) (filter Q xs)"
  by (induction xs) auto

text \<open>One poll settles the job that has waited longest and leaves the others alone.\<close>

lemma poll_settles:
  assumes "process_one X env dbg (no_faults\<lparr>cf_statements := faults\<rparr>) [] t1 t2 emb (db, w) = (r, db', w')"
    and "distinct (map jb_id (db_jobs db))" and "waiting db = j # js" and "sint (jb_attempt_count j) \<noteq> i32_max"
  shows "settled r = Some (jb_id j)" "waiting db' = js" "map jb_id (db_jobs db') = map jb_id (db_jobs db)"
    "\<forall>x \<in> set (db_jobs db'). jb_id x = jb_id j \<longrightarrow> jb_status x \<in> {JobCompleted, JobFailed}"
    "\<forall>x. jb_id x \<noteq> jb_id j \<longrightarrow> (x \<in> set (db_jobs db') \<longleftrightarrow> x \<in> set (db_jobs db))"
proof -
  define j' where "j' = j\<lparr>jb_status := Running,
     jb_started_at := Some (case jb_started_at j of None \<Rightarrow> t1 | Some t \<Rightarrow> t),
     jb_updated_at := t1, jb_attempt_count := jb_attempt_count j + 1\<rparr>"
  define db1 where "db1 = update_job (jb_id j) (\<lambda>_. j') db"
  have claim: "sql_claim [] t1 db = Inr (Some j', db1)"
    using assms(3,4) by (simp add: sql_claim_def waiting_def j'_def db1_def update_job_def Let_def)
  have "\<exists>f s. db_jobs db' = map (\<lambda>x. if jb_id x = jb_id j then f else x) (db_jobs db) \<and> jb_id f = jb_id j
      \<and> jb_status f = s \<and> s \<in> {JobCompleted, JobFailed} \<and> settled r = Some (jb_id j)"
    by (rule process_one_outcome[OF assms(1) claim])
      (auto simp: db1_def j'_def complete_job_def fail_job_def update_job_def settled_def)
  then obtain f s where f: "db_jobs db' = map (\<lambda>x. if jb_id x = jb_id j then f else x) (db_jobs db)"
      "jb_id f = jb_id j" "jb_status f = s" "s \<in> {JobCompleted, JobFailed}" "settled r = Some (jb_id j)"
    by blast
  show "settled r = Some (jb_id j)" by (rule f(5))
  show "map jb_id (db_jobs db') = map jb_id (db_jobs db)" using f(1,2) by simp
  show "\<forall>x \<in> set (db_jobs db'). jb_id x = jb_id j \<longrightarrow> jb_status x \<in> {JobCompleted, JobFailed}"
    using f by auto
  show "\<forall>x. jb_id x \<noteq> jb_id j \<longrightarrow> (x \<in> set (db_jobs db') \<longleftrightarrow> x \<in> set (db_jobs db))"
    using f(1,2) by auto
  have "filter (\<lambda>x. jb_status x = Queued) (db_jobs db')
      = filter (\<lambda>x. jb_id x \<noteq> jb_id j) (filter (\<lambda>x. jb_status x = Queued) (db_jobs db))"
    unfolding f(1) by (rule filter_settled) (use f(3,4) in auto)
  then have "waiting db' = filter (\<lambda>x. jb_id x \<noteq> jb_id j) (waiting db)"
    by (simp add: waiting_def by_age.filter_stable_sort)
  moreover have "distinct (map jb_id (waiting db))"
  proof -
    have "mset (map jb_id (waiting db)) = mset (map jb_id (filter (\<lambda>j. jb_status j = Queued) (db_jobs db)))"
      by (simp add: waiting_def)
    moreover have "distinct (map jb_id (filter (\<lambda>j. jb_status j = Queued) (db_jobs db)))"
      using assms(2) by (simp add: distinct_map inj_on_def)
    ultimately show ?thesis by (metis mset_eq_imp_distinct_iff)
  qed
  ultimately show "waiting db' = js"
    using assms(3) by (auto simp: filter_id_conv image_iff)
qed

section \<open>Properties\<close>

lemma polls_settle:
  assumes "waiting db = ws" and "distinct (map jb_id (db_jobs db))"
    and "\<forall>j \<in> set ws. sint (jb_attempt_count j) \<noteq> i32_max" and "length ts = length ws"
    and "polls X env dbg emb ts (db, w) = (rs, db', w')"
  shows "map settled rs = map (\<lambda>j. Some (jb_id j)) ws \<and> waiting db' = []
    \<and> map jb_id (db_jobs db') = map jb_id (db_jobs db)
    \<and> (\<forall>x \<in> set (db_jobs db'). jb_id x \<in> jb_id ` set ws \<longrightarrow> jb_status x \<in> {JobCompleted, JobFailed})
    \<and> (\<forall>x. jb_id x \<notin> jb_id ` set ws \<longrightarrow> (x \<in> set (db_jobs db') \<longleftrightarrow> x \<in> set (db_jobs db)))"
  using assms
proof (induction ws arbitrary: db w ts rs)
  case Nil
  then show ?case by simp
next
  case (Cons j js)
  obtain t1 t2 faults ts' where ts: "ts = (t1, t2, faults) # ts'"
    using Cons.prems(4) by (cases ts) auto
  obtain r db1 w1 where one: "process_one X env dbg (no_faults\<lparr>cf_statements := faults\<rparr>) [] t1 t2 emb (db, w) = (r, db1, w1)"
    by (metis surj_pair)
  obtain rs' where rest: "polls X env dbg emb ts' (db1, w1) = (rs', db', w')" "rs = r # rs'"
    using Cons.prems(5) by (simp add: ts one split: prod.splits)
  have "sint (jb_attempt_count j) \<noteq> i32_max" using Cons.prems(3) by simp
  note s = poll_settles[OF one Cons.prems(2,1) this]
  have "distinct (map jb_id (db_jobs db1))" using s(3) Cons.prems(2) by simp
  from Cons.IH[OF s(2) this _ _ rest(1)] Cons.prems(3,4)
  have IH: "map settled rs' = map (\<lambda>j. Some (jb_id j)) js" "waiting db' = []" "map jb_id (db_jobs db') = map jb_id (db_jobs db1)"
      "\<forall>x \<in> set (db_jobs db'). jb_id x \<in> jb_id ` set js \<longrightarrow> jb_status x \<in> {JobCompleted, JobFailed}"
      "\<forall>x. jb_id x \<notin> jb_id ` set js \<longrightarrow> (x \<in> set (db_jobs db') \<longleftrightarrow> x \<in> set (db_jobs db1))"
    by (simp_all add: ts)
  have "jb_status x \<in> {JobCompleted, JobFailed}" if "x \<in> set (db_jobs db')" "jb_id x \<in> jb_id ` set (j # js)" for x
  proof (cases "jb_id x \<in> jb_id ` set js")
    case True
    with IH(4) that(1) show ?thesis by blast
  next
    case False
    with IH(5) that s(4) show ?thesis by auto
  qed
  moreover have "x \<in> set (db_jobs db') \<longleftrightarrow> x \<in> set (db_jobs db)" if "jb_id x \<notin> jb_id ` set (j # js)" for x
    using IH(5) s(5) that by simp
  ultimately show ?case using IH(1-3) s(1,3) rest(2) by simp
qed

text \<open>
  C7 (the queue drains): a worker whose control connection holds settles every queued job in as many polls
  as there are queued jobs, oldest first, each exactly once, as completed or failed, whatever its ingests
  do; every other row stays as it was, and the next poll finds the queue idle and changes nothing.
\<close>

theorem polls_drain:
  assumes "queue_ok db" and "length ts = length (waiting db)"
    and "polls X env dbg emb ts (db, w) = (rs, db', w')"
  shows "map settled rs = map (\<lambda>j. Some (jb_id j)) (waiting db)
    \<and> (\<forall>x \<in> set (db_jobs db'). jb_status x \<noteq> Queued
         \<and> (jb_id x \<in> jb_id ` set (waiting db) \<longrightarrow> jb_status x \<in> {JobCompleted, JobFailed})
         \<and> (jb_id x \<notin> jb_id ` set (waiting db) \<longrightarrow> x \<in> set (db_jobs db)))
    \<and> map jb_id (db_jobs db') = map jb_id (db_jobs db)
    \<and> process_one X env dbg no_faults [] t1 t2 emb (db', w') = (Inr POIdle, db', w')"
proof -
  have "\<forall>j \<in> set (waiting db). sint (jb_attempt_count j) \<noteq> i32_max"
    using assms(1) by (auto simp: waiting_def queue_ok_def row_ok_def i32_max_def)
  from polls_settle[OF refl _ this assms(2,3)] assms(1)
  have s: "map settled rs = map (\<lambda>j. Some (jb_id j)) (waiting db)" "waiting db' = []"
      "map jb_id (db_jobs db') = map jb_id (db_jobs db)"
      "\<forall>x \<in> set (db_jobs db'). jb_id x \<in> jb_id ` set (waiting db) \<longrightarrow> jb_status x \<in> {JobCompleted, JobFailed}"
      "\<forall>x. jb_id x \<notin> jb_id ` set (waiting db) \<longrightarrow> (x \<in> set (db_jobs db') \<longleftrightarrow> x \<in> set (db_jobs db))"
    by (simp_all add: queue_ok_def)
  have "set (waiting db') = {x \<in> set (db_jobs db'). jb_status x = Queued}" by (simp add: waiting_def)
  with s(2) have none: "\<forall>x \<in> set (db_jobs db'). jb_status x \<noteq> Queued" by auto
  then have "filter (\<lambda>x. jb_status x = Queued) (db_jobs db') = []" by (simp add: filter_empty_conv)
  then have "process_one X env dbg no_faults [] t1 t2 emb (db', w') = (Inr POIdle, db', w')"
    by (simp add: process_one_def claim_next_job_def sql_claim_def no_faults_def)
  with s none show ?thesis by blast
qed

theorem polls_drain_witness:
  "\<exists>rs db' w'. polls demo_ext demo_env (\<lambda>_. []) demo_embedder [(5, 6, [])] (demo_queue, 0) = (rs, db', w')
     \<and> map settled rs = [Some (Uuid 77)]
     \<and> process_one demo_ext demo_env (\<lambda>_. []) no_faults [] 7 8 demo_embedder (db', w') = (Inr POIdle, db', w')"
proof -
  have w: "waiting demo_queue = [demo_job]" by (simp add: waiting_def demo_queue_def demo_job_def queued_row_def)
  have ok: "queue_ok demo_queue" by (simp add: queue_ok_def row_ok_def demo_queue_def demo_job_def queued_row_def)
  have id: "jb_id demo_job = Uuid 77" by (simp add: demo_job_def queued_row_def)
  obtain rs db' w' where p: "polls demo_ext demo_env (\<lambda>_. []) demo_embedder [(5, 6, [])] (demo_queue, 0) = (rs, db', w')"
    by (metis surj_pair)
  from polls_drain[OF ok _ p, of 7 8] p show ?thesis by (simp add: w id)
qed

end
