(* ===== verification/Onnx.thy ===== *)
theory Onnx
  imports Embedding RustStr
begin

text \<open>
  The ONNX embedder (\<^verbatim>\<open>pg_raggraph_core/src/embedding/onnx.rs\<close>): finding the files of a model, loading
  with a probe of the dimension, and one inference with CLS pooling. The tokenizer, the ONNX runtime and
  the file system are parameters; a session lives in the world the calls thread.
\<close>

section \<open>Files\<close>

text \<open>
  \<open>Path::join\<close> with a relative path and \<open>Path::parent\<close>, for paths without \<open>.\<close> components: the last
  component and the slashes before it are dropped, and the root has no parent.
\<close>

definition path_join :: "string \<Rightarrow> string \<Rightarrow> string" where
  "path_join dir p = (if dir = [] \<or> last dir = CHR ''/'' then dir @ p else dir @ CHR ''/'' # p)"

definition strip_slashes :: "string \<Rightarrow> string" where
  "strip_slashes p = rev (dropWhile (\<lambda>c. c = CHR ''/'') (rev p))"

definition path_parent :: "string \<Rightarrow> string option" where
  "path_parent p =
     (let q = strip_slashes p in
      if q = [] then None
      else
        let front = rev (dropWhile (\<lambda>c. c \<noteq> CHR ''/'') (rev q)) in
        Some (if front \<noteq> [] \<and> strip_slashes front = [] then ''/'' else strip_slashes front))"

record ('m, 't, 'w) onnx_api =
  ox_is_file :: "string \<Rightarrow> bool"
  ox_exists :: "string \<Rightarrow> bool"
  ox_tokenizer :: "string \<Rightarrow> 'w \<Rightarrow> (string + 't) \<times> 'w"
  ox_builder :: "'w \<Rightarrow> (string + unit) \<times> 'w"
  ox_commit :: "string \<Rightarrow> 'w \<Rightarrow> (string + 'm) \<times> 'w"
  ox_encode :: "'t \<Rightarrow> string \<Rightarrow> string + 32 word list \<times> 32 word list \<times> 32 word list"
  ox_tensor :: "i64 list \<Rightarrow> string option"
  ox_poisoned :: "'m \<Rightarrow> 'w \<Rightarrow> bool"
  ox_run :: "'m \<Rightarrow> i64 list \<Rightarrow> i64 list \<Rightarrow> i64 list \<Rightarrow> 'w \<Rightarrow> (string + (string + i64 list \<times> f32 list)) \<times> 'w"
  ox_show_dims :: "i64 list \<Rightarrow> string"

definition resolve_model_file :: "('m, 't, 'w) onnx_api \<Rightarrow> string \<Rightarrow> string core_result" where
  "resolve_model_file A dir =
     (if ox_is_file A dir then Inr dir
      else
        (case find (\<lambda>p. ox_exists A p)
            (map (path_join dir) [''model.onnx'', ''onnx/model.onnx'', ''model_optimized.onnx'']) of
           Some p \<Rightarrow> Inr p
         | None \<Rightarrow> Inl (InvalidConfig (''model.onnx not found under '' @ dir))))"

definition resolve_tokenizer_file :: "('m, 't, 'w) onnx_api \<Rightarrow> string \<Rightarrow> string core_result" where
  "resolve_tokenizer_file A dir =
     (let beside = (if ox_is_file A dir
          then Option.bind (path_parent dir)
            (\<lambda>parent. let p = path_join parent ''tokenizer.json'' in if ox_exists A p then Some p else None)
          else None);
          p = path_join dir ''tokenizer.json''
      in case beside of
           Some q \<Rightarrow> Inr q
         | None \<Rightarrow> if ox_exists A p then Inr p else Inl (InvalidConfig (''tokenizer.json not found under '' @ dir)))"

section \<open>Inference\<close>

definition invalid :: "string \<Rightarrow> string + 'a \<Rightarrow> 'a core_result" where
  "invalid what r = map_err (\<lambda>e. InvalidConfig (what @ '': '' @ e)) r"

text \<open>\<open>Array2::from_shape_vec\<close> of shape \<open>[1, seq_len]\<close>, and the tensor over it.\<close>

definition shape_check :: "string \<Rightarrow> nat \<Rightarrow> i64 list \<Rightarrow> unit core_result" where
  "shape_check what seq_len xs =
     (if length xs = seq_len then Inr () else Inl (InvalidConfig (what @ '' shape construction failed: incompatible shape'')))"

definition tensor_check :: "('m, 't, 'w) onnx_api \<Rightarrow> string \<Rightarrow> i64 list \<Rightarrow> unit core_result" where
  "tensor_check A what xs =
     (case ox_tensor A xs of None \<Rightarrow> Inr () | Some e \<Rightarrow> Inl (InvalidConfig (what @ '' tensor construction failed: '' @ e)))"

text \<open>\<open>usize::try_from(d).unwrap_or(0)\<close>\<close>

definition dim_of :: "i64 \<Rightarrow> nat" where
  "dim_of d = nat (sint d)"

text \<open>The checks on the output, then the first row, normalised.\<close>

definition pool_output :: "('m, 't, 'w) onnx_api \<Rightarrow> nat \<Rightarrow> i64 list \<times> f32 list \<Rightarrow> f32 list core_result" where
  "pool_output A seq_len out =
     (case out of (dims, d) \<Rightarrow>
        (case dims of
           [b, s, h] \<Rightarrow>
             let batch = dim_of b; seq = dim_of s; hidden = dim_of h in
             if batch \<noteq> 1 \<or> seq \<noteq> seq_len \<or> hidden = 0 then
               Inl (InvalidConfig (''unexpected output shape: batch='' @ show_nat batch @ '', seq='' @ show_nat seq
                 @ '', hidden='' @ show_nat hidden @ '', expected_seq='' @ show_nat seq_len))
             else Inr (l2_normalize (take hidden d))
         | _ \<Rightarrow> Inl (InvalidConfig (''expected 3-D output [batch, seq, hidden], got shape '' @ ox_show_dims A dims))))"

definition embed_with :: "('m, 't, 'w) onnx_api \<Rightarrow> 'm \<Rightarrow> 't \<Rightarrow> string \<Rightarrow> ('w, f32 list) sr" where
  "embed_with A session tokenizer txt =
     sr_bind (sr_lift (invalid ''tokenizer encode failed'' (ox_encode A tokenizer txt))) (\<lambda>(ids32, mask32, types32).
     let ids = map ucast ids32; mask = map ucast mask32; type_ids = map ucast types32; seq_len = length ids in
     sr_bind (sr_lift (shape_check ''input_ids'' seq_len ids)) (\<lambda>_.
     sr_bind (sr_lift (shape_check ''attention_mask'' seq_len mask)) (\<lambda>_.
     sr_bind (sr_lift (shape_check ''token_type_ids'' seq_len type_ids)) (\<lambda>_.
     sr_bind (sr_lift (tensor_check A ''input_ids'' ids)) (\<lambda>_.
     sr_bind (sr_lift (tensor_check A ''attention_mask'' mask)) (\<lambda>_.
     sr_bind (sr_lift (tensor_check A ''token_type_ids'' type_ids)) (\<lambda>_.
     sr_bind (\<lambda>w. if ox_poisoned A session w then (Inl (InvalidConfig ''ONNX session mutex poisoned''), w) else (Inr (), w)) (\<lambda>_.
     sr_bind (\<lambda>w. case ox_run A session ids mask type_ids w of (r, w') \<Rightarrow> (invalid ''ONNX inference failed'' r, w')) (\<lambda>value.
     sr_bind (sr_lift (invalid ''output tensor extract failed'' value)) (\<lambda>out.
       sr_lift (pool_output A seq_len out)))))))))))"

section \<open>Loading\<close>

record ('m, 't) onnx_embedder =
  oe_session :: 'm
  oe_tokenizer :: 't
  oe_dim :: nat

definition onnx_load ::
  "('m, 't, 'w) onnx_api \<Rightarrow> string \<Rightarrow> nat \<Rightarrow> ('w, ('m, 't) onnx_embedder) sr" where
  "onnx_load A model_path expected_dim =
     sr_bind (sr_lift (resolve_model_file A model_path)) (\<lambda>model_file.
     sr_bind (sr_lift (resolve_tokenizer_file A model_path)) (\<lambda>tokenizer_file.
     sr_bind (\<lambda>w. case ox_tokenizer A tokenizer_file w of
         (r, w') \<Rightarrow> (invalid (''tokenizer load failed for '' @ tokenizer_file) r, w')) (\<lambda>tokenizer.
     sr_bind (\<lambda>w. case ox_builder A w of (r, w') \<Rightarrow> (invalid ''ONNX session builder init failed'' r, w')) (\<lambda>_.
     sr_bind (\<lambda>w. case ox_commit A model_file w of (r, w') \<Rightarrow> (invalid ''ONNX model load failed'' r, w')) (\<lambda>session.
     sr_bind (embed_with A session tokenizer ''probe'') (\<lambda>probe.
       if length probe \<noteq> expected_dim then
         sr_fail (InvalidConfig (''ONNX model output dimension '' @ show_nat (length probe)
           @ '' does not match expected_dim '' @ show_nat expected_dim @ '' (pgrg.embed_dim). Set pgrg.embed_dim to ''
           @ show_nat (length probe) @ '' or use a different model.''))
       else sr_return \<lparr>oe_session = session, oe_tokenizer = tokenizer, oe_dim = length probe\<rparr>))))))"

definition onnx_backend :: "('m, 't, 'w) onnx_api \<Rightarrow> ('m, 't) onnx_embedder \<Rightarrow> 'w embedder" where
  "onnx_backend A e =
     (let emb = embed_with A (oe_session e) (oe_tokenizer e)
      in \<lparr>em_dim = oe_dim e, em_embed = emb, em_embed_batch = embed_batch_default emb\<rparr>)"

section \<open>Facts\<close>

lemma pool_output_Inr:
  assumes "pool_output A n out = Inr v"
  obtains b s h d where "out = ([b, s, h], d)" "dim_of b = 1" "dim_of s = n" "0 < dim_of h"
    "v = l2_normalize (take (dim_of h) d)"
  using assms by (auto simp: pool_output_def Let_def split: prod.splits list.splits if_splits)

text \<open>
  What the libraries document: a tensor holds as many values as its shape says, the tokenizer adds the
  special tokens (so that no text is empty), and the hidden size is a constant of the model.
\<close>

definition onnx_laws :: "('m, 't, 'w) onnx_api \<Rightarrow> bool" where
  "onnx_laws A \<longleftrightarrow>
     (\<forall>m a b c w dims d w'. ox_run A m a b c w = (Inr (Inr (dims, d)), w') \<longrightarrow> length d = prod_list (map dim_of dims))
     \<and> (\<forall>t txt x. ox_encode A t txt \<noteq> Inr ([], x))"

definition constant_width :: "('m, 't, 'w) onnx_api \<Rightarrow> 'm \<Rightarrow> bool" where
  "constant_width A m \<longleftrightarrow> (\<exists>H. \<forall>a b c w dims d w'. ox_run A m a b c w = (Inr (Inr (dims, d)), w')
     \<longrightarrow> dims \<noteq> [] \<longrightarrow> last dims = H)"

lemma embed_with_InrE:
  assumes "embed_with A m t txt w = (Inr v, w')"
  obtains ids mask types b s h d where "ox_encode A t txt = Inr (ids, mask, types)"
    "length mask = length ids" "length types = length ids"
    "ox_run A m (map ucast ids) (map ucast mask) (map ucast types) w = (Inr (Inr ([b, s, h], d)), w')"
    "dim_of b = 1" "dim_of s = length ids" "0 < dim_of h" "v = l2_normalize (take (dim_of h) d)"
  using assms unfolding embed_with_def
  apply (elim sr_bind_InrE)
  apply (auto simp: sr_apply Let_def invalid_def shape_check_def tensor_check_def
      split: prod.splits if_splits option.splits elim!: sr_bind_InrE pool_output_Inr)
  done

text \<open>The row read is inside the data: an inference never slices out of range, if it saw a token.\<close>

lemma cls_row_in_range:
  assumes "onnx_laws A" and "ox_run A m a b c w = (Inr (Inr ([b', s, h], d)), w')"
    and "dim_of b' = 1" and "0 < dim_of s"
  shows "dim_of h \<le> length d"
proof -
  have "length d = dim_of s * dim_of h" using assms by (force simp: onnx_laws_def)
  with assms(4) show ?thesis by simp
qed

lemma embed_with_length:
  assumes "onnx_laws A" and "embed_with A m t txt w = (Inr v, w')"
  obtains a b c b' s h d where "ox_run A m a b c w = (Inr (Inr ([b', s, h], d)), w')" "length v = dim_of h" "0 < dim_of h"
proof -
  from assms(2) obtain ids mask types b s h d where e: "ox_encode A t txt = Inr (ids, mask, types)"
    and run: "ox_run A m (map ucast ids) (map ucast mask) (map ucast types) w = (Inr (Inr ([b, s, h], d)), w')"
    and b: "dim_of b = 1" and s: "dim_of s = length ids" and h: "0 < dim_of h" and v: "v = l2_normalize (take (dim_of h) d)"
    by (rule embed_with_InrE)
  from assms(1) e have "0 < dim_of s" by (auto simp: s onnx_laws_def)
  from cls_row_in_range[OF assms(1) run b this] show thesis by (intro that[OF run]) (simp_all add: v h)
qed

lemma invalid_Inl: "invalid what r = Inl e \<Longrightarrow> \<exists>m. e = InvalidConfig m"
  by (cases r) (auto simp: invalid_def)

lemma embed_with_Inl:
  "embed_with A m t txt w = (Inl e, w') \<Longrightarrow> \<exists>msg. e = InvalidConfig msg"
  unfolding embed_with_def
  by (elim sr_bind_InlE)
    (auto simp: sr_apply Let_def shape_check_def tensor_check_def pool_output_def dest: invalid_Inl
      split: prod.splits if_splits option.splits list.splits elim!: sr_bind_InlE)

lemma onnx_load_InrE:
  assumes "onnx_load A path n w = (Inr e, w')"
  obtains probe wp where "embed_with A (oe_session e) (oe_tokenizer e) ''probe'' wp = (Inr probe, w')"
    "length probe = n" "oe_dim e = n"
  using assms unfolding onnx_load_def
  by (elim sr_bind_InrE) (auto simp: sr_apply split: if_splits prod.splits)

lemma resolve_Inl:
  "resolve_model_file A dir = Inl e \<Longrightarrow> \<exists>msg. e = InvalidConfig msg"
  "resolve_tokenizer_file A dir = Inl e \<Longrightarrow> \<exists>msg. e = InvalidConfig msg"
  by (auto simp: resolve_model_file_def resolve_tokenizer_file_def Let_def split: if_splits option.splits)

lemma onnx_load_Inl: "onnx_load A path n w = (Inl e, w') \<Longrightarrow> \<exists>msg. e = InvalidConfig msg"
  unfolding onnx_load_def
  by (elim sr_bind_InlE)
    (auto simp: sr_apply dest: resolve_Inl invalid_Inl embed_with_Inl split: if_splits prod.splits)

lemma loaded_contract:
  assumes laws: "onnx_laws A" and load: "onnx_load A path n w = (Inr e, w')"
    and width: "constant_width A (oe_session e)"
  shows "embedder_contract (onnx_backend A e)"
proof
  from load obtain probe wp where p: "embed_with A (oe_session e) (oe_tokenizer e) ''probe'' wp = (Inr probe, w')"
    and n: "length probe = n" "oe_dim e = n" by (rule onnx_load_InrE)
  fix t v w1 w2
  assume "em_embed (onnx_backend A e) t w1 = (Inr v, w2)"
  then have v: "embed_with A (oe_session e) (oe_tokenizer e) t w1 = (Inr v, w2)" by (simp add: onnx_backend_def Let_def)
  from embed_with_length[OF laws v] embed_with_length[OF laws p]
  obtain a b c x s h d a' b' c' x' s' h' d'
    where "ox_run A (oe_session e) a b c w1 = (Inr (Inr ([x, s, h], d)), w2)" "length v = dim_of h"
      "ox_run A (oe_session e) a' b' c' wp = (Inr (Inr ([x', s', h'], d')), w')" "length probe = dim_of h'"
    by metis
  moreover from this width have "h = h'" unfolding constant_width_def by (metis last.simps list.distinct(1))
  ultimately show "length v = em_dim (onnx_backend A e)" using n by (simp add: onnx_backend_def Let_def)
qed (simp add: onnx_backend_def Let_def)

section \<open>Properties\<close>

text \<open>
  C33 (loading a model): every failure to load, whether a file is missing, the tokenizer or the session
  cannot be made or the probe fails, is an \<open>InvalidConfig\<close>. A model that loads has the configured,
  positive dimension, and where the hidden size is a constant of the model it keeps the contract of the
  trait from then on: every batch it embeds has one vector per text, each of that dimension.
\<close>

theorem onnx_load_correct:
  assumes laws: "onnx_laws A" and load: "onnx_load A path n w = (r, w')"
  shows "case r of
      Inl err \<Rightarrow> \<exists>msg. err = InvalidConfig msg
    | Inr e \<Rightarrow> em_dim (onnx_backend A e) = n \<and> 0 < n
        \<and> (constant_width A (oe_session e) \<longrightarrow>
            (\<forall>txts vs w1 w2. em_embed_batch (onnx_backend A e) txts w1 = (Inr vs, w2)
              \<longrightarrow> length vs = length txts \<and> list_all (\<lambda>v. length v = n) vs))"
proof (cases r)
  case (Inl err)
  with load onnx_load_Inl show ?thesis by fastforce
next
  case (Inr e)
  with load have l: "onnx_load A path n w = (Inr e, w')" by simp
  then obtain probe wp where p: "embed_with A (oe_session e) (oe_tokenizer e) ''probe'' wp = (Inr probe, w')"
    and n: "length probe = n" "oe_dim e = n" by (rule onnx_load_InrE)
  from embed_with_length[OF laws p] n have "0 < n" by metis
  moreover have d: "em_dim (onnx_backend A e) = n" using n by (simp add: onnx_backend_def Let_def)
  ultimately show ?thesis
    using Inr embedder_contract.batch_dims[OF loaded_contract[OF laws l]] by auto
qed

definition demo_onnx :: "(unit, unit, unit) onnx_api" where
  "demo_onnx = \<lparr>ox_is_file = (\<lambda>_. False),
     ox_exists = (\<lambda>p. p = ''/m/onnx/model.onnx'' \<or> p = ''/m/tokenizer.json''),
     ox_tokenizer = (\<lambda>_ w. (Inr (), w)), ox_builder = (\<lambda>w. (Inr (), w)), ox_commit = (\<lambda>_ w. (Inr (), w)),
     ox_encode = (\<lambda>_ _. Inr ([101, 102], [1, 1], [0, 0])), ox_tensor = (\<lambda>_. None), ox_poisoned = (\<lambda>_ _. False),
     ox_run = (\<lambda>_ ids _ _ w. (Inr (Inr ([1, 2, 3], replicate 6 (Fin 1))), w)), ox_show_dims = (\<lambda>_. [])\<rparr>"

lemma demo_onnx_laws: "onnx_laws demo_onnx" "constant_width demo_onnx m"
  by (auto simp: onnx_laws_def constant_width_def demo_onnx_def dim_of_def)

lemma demo_onnx_embed:
  "embed_with demo_onnx () () txt () = (Inr (l2_normalize [Fin 1, Fin 1, Fin 1]), ())"
  by (simp add: embed_with_def demo_onnx_def sr_bind_def sr_apply invalid_def shape_check_def tensor_check_def
      pool_output_def dim_of_def Let_def numeral_3_eq_3)

lemma demo_onnx_load:
  "onnx_load demo_onnx ''/m'' 3 () = (Inr \<lparr>oe_session = (), oe_tokenizer = (), oe_dim = 3\<rparr>, ())"
proof -
  have "resolve_model_file demo_onnx ''/m'' = Inr ''/m/onnx/model.onnx''"
    by (simp add: resolve_model_file_def demo_onnx_def path_join_def)
  moreover have "resolve_tokenizer_file demo_onnx ''/m'' = Inr ''/m/tokenizer.json''"
    by (simp add: resolve_tokenizer_file_def demo_onnx_def path_join_def)
  moreover have "ox_tokenizer demo_onnx p w = (Inr (), w)" "ox_builder demo_onnx w = (Inr (), w)"
      "ox_commit demo_onnx p w = (Inr (), w)" for p w
    by (simp_all add: demo_onnx_def)
  ultimately show ?thesis
    by (simp add: onnx_load_def demo_onnx_embed sr_bind_def sr_apply invalid_def)
qed

theorem onnx_load_correct_witness:
  "\<exists>e vs. onnx_load demo_onnx ''/m'' 3 () = (Inr e, ()) \<and> em_dim (onnx_backend demo_onnx e) = 3
    \<and> em_embed_batch (onnx_backend demo_onnx e) [''a'', ''b''] () = (Inr vs, ())
    \<and> length vs = 2 \<and> list_all (\<lambda>v. length v = 3) vs"
proof -
  let ?e = "\<lparr>oe_session = (), oe_tokenizer = (), oe_dim = 3\<rparr> :: (unit, unit) onnx_embedder"
  obtain vs where b: "em_embed_batch (onnx_backend demo_onnx ?e) [''a'', ''b''] () = (Inr vs, ())"
    by (simp add: onnx_backend_def Let_def demo_onnx_embed sr_bind_def sr_apply)
  from onnx_load_correct[OF demo_onnx_laws(1) demo_onnx_load] b demo_onnx_laws(2)
  have "em_dim (onnx_backend demo_onnx ?e) = 3 \<and> length vs = 2 \<and> list_all (\<lambda>v. length v = 3) vs" by force
  with b demo_onnx_load show ?thesis by blast
qed

end
