(* ===== verification/Startup.thy ===== *)
theory Startup
  imports AskSurfaces Migrations Jobs
begin

text \<open>
  Configuration and startup: the settings the extension registers and its initialisation
  (\<^verbatim>\<open>pg_raggraph/src/gucs.rs\<close>, \<^verbatim>\<open>lib.rs\<close>, \<^verbatim>\<open>bgw/launcher.rs\<close>, \<^verbatim>\<open>bgw/worker.rs\<close>, \<^verbatim>\<open>bgw/embedder_cache.rs\<close>),
  the configuration of the sidecar (\<^verbatim>\<open>config.rs\<close>) and what its \<open>main\<close> does before the workers run
  (\<^verbatim>\<open>main.rs\<close>). PostgreSQL checks a setting against its bounds and its context as documented; the
  command line parser is a parameter.
\<close>

section \<open>Settings of the extension\<close>

datatype guc_value = GInt int | GBool bool | GString "string option"

datatype guc_context = Postmaster | Sighup | Suset | Userset

record guc =
  gu_name :: string
  gu_boot :: guc_value
  gu_bounds :: "(int \<times> int) option"
  gu_context :: guc_context

definition define_int_guc :: "string \<Rightarrow> int \<Rightarrow> int \<Rightarrow> int \<Rightarrow> guc_context \<Rightarrow> guc" where
  "define_int_guc name boot lo hi ctx =
     \<lparr>gu_name = name, gu_boot = GInt boot, gu_bounds = Some (lo, hi), gu_context = ctx\<rparr>"

definition define_guc :: "string \<Rightarrow> guc_value \<Rightarrow> guc_context \<Rightarrow> guc" where
  "define_guc name boot ctx = \<lparr>gu_name = name, gu_boot = boot, gu_bounds = None, gu_context = ctx\<rparr>"

definition register :: "guc list" where
  "register =
     [define_int_guc ''pg_raggraph.bgw_workers'' 2 1 16 Postmaster,
      define_int_guc ''pg_raggraph.extract_concurrency'' 4 1 64 Sighup,
      define_int_guc ''pg_raggraph.embed_dim'' 384 64 4096 Postmaster,
      define_guc ''pg_raggraph.debug_retrieval'' (GBool False) Userset,
      define_int_guc ''pg_raggraph.job_reaper_interval'' 300 10 86400 Sighup,
      define_guc ''pg_raggraph.parity_mode'' (GBool False) Suset,
      define_guc ''pg_raggraph.master_key_path'' (GString None) Suset,
      define_guc ''pg_raggraph.embed_model_path'' (GString None) Sighup]"

text \<open>Which values a setting accepts, and who may change it when.\<close>

datatype guc_source = ServerStart | Reload | SessionSet bool

definition guc_accepts :: "guc \<Rightarrow> guc_value \<Rightarrow> bool" where
  "guc_accepts g v =
     (case (gu_boot g, v) of
        (GInt _, GInt i) \<Rightarrow> (case gu_bounds g of None \<Rightarrow> True | Some (lo, hi) \<Rightarrow> lo \<le> i \<and> i \<le> hi)
      | (GBool _, GBool _) \<Rightarrow> True
      | (GString _, GString _) \<Rightarrow> True
      | _ \<Rightarrow> False)"

fun context_allows :: "guc_context \<Rightarrow> guc_source \<Rightarrow> bool" where
  "context_allows ctx ServerStart = True"
| "context_allows ctx Reload = (ctx \<noteq> Postmaster)"
| "context_allows ctx (SessionSet superuser) = (ctx = Userset \<or> ctx = Suset \<and> superuser)"

type_synonym settings = "string \<Rightarrow> guc_value option"

definition guc_named :: "string \<Rightarrow> guc option" where
  "guc_named name = find (\<lambda>g. gu_name g = name) register"

definition boot_settings :: settings where
  "boot_settings name = map_option gu_boot (guc_named name)"

text \<open>An assignment that is not allowed is rejected and changes nothing.\<close>

definition guc_assign :: "settings \<Rightarrow> guc_source \<times> string \<times> guc_value \<Rightarrow> settings" where
  "guc_assign \<sigma> a =
     (case a of (src, name, v) \<Rightarrow>
      case guc_named name of
        None \<Rightarrow> \<sigma>
      | Some g \<Rightarrow> if guc_accepts g v \<and> context_allows (gu_context g) src then \<sigma>(name \<mapsto> v) else \<sigma>)"

definition guc_int :: "settings \<Rightarrow> string \<Rightarrow> int" where
  "guc_int \<sigma> name = (case \<sigma> name of Some (GInt i) \<Rightarrow> i | _ \<Rightarrow> 0)"

section \<open>Initialisation of the extension\<close>

record bgworker =
  bw_name :: string
  bw_function :: string
  bw_restart_secs :: nat

datatype init_effect = InitWarning string | RegisterWorker bgworker

definition register_launcher :: init_effect where
  "register_launcher = RegisterWorker
     \<lparr>bw_name = ''pg_raggraph launcher'', bw_function = ''pg_raggraph_launcher_main'', bw_restart_secs = 5\<rparr>"

definition register_workers :: "int \<Rightarrow> init_effect list" where
  "register_workers n = map (\<lambda>i. RegisterWorker
     \<lparr>bw_name = ''pg_raggraph w'' @ show_nat i, bw_function = ''pg_raggraph_worker_main'', bw_restart_secs = 1\<rparr>)
     [0..<nat n]"

definition master_key_warning :: string where
  "master_key_warning = ''pgrg.master_key_path not set '' @ [CHR 0xE2, CHR 0x80, CHR 0x94]
     @ '' provider credentials stored plaintext. They will appear in `pg_dump`. Set a master key for production.''"

definition pg_init :: "settings \<Rightarrow> bool \<Rightarrow> init_effect list" where
  "pg_init \<sigma> preloading =
     (if \<sigma> ''pg_raggraph.master_key_path'' = Some (GString None)
      then [InitWarning master_key_warning]
      else [])
     @ (if preloading then register_launcher # register_workers (guc_int \<sigma> ''pg_raggraph.bgw_workers'') else [])"

text \<open>\<open>embedder_cache::build_backend\<close>\<close>

definition build_backend :: "(bytes \<Rightarrow> bytes) \<Rightarrow> settings \<Rightarrow> 'w embedder" where
  "build_backend sha \<sigma> = deterministic_backend sha (embed_dims (word_of_int (guc_int \<sigma> ''pg_raggraph.embed_dim'')))"

section \<open>The sidecar\<close>

record sidecar_config =
  sg_database_url :: string
  sg_http_bind :: string
  sg_bgw_workers :: i32
  sg_extract_concurrency :: i32
  sg_embed_dim :: i32
  sg_embed_model_path :: "string option"
  sg_master_key_path :: "string option"
  sg_job_reaper_interval_secs :: i64
  sg_parity_mode :: bool

text \<open>
  What the parser gives for an option: its typed value, from the command line or else from the
  environment variable, or nothing where neither is set; or an error, on which it ends the process.
\<close>

record clap =
  cl_string :: "string \<Rightarrow> string \<Rightarrow> string + string option"
  cl_i32 :: "string \<Rightarrow> string \<Rightarrow> string + i32 option"
  cl_i64 :: "string \<Rightarrow> string \<Rightarrow> string + i64 option"
  cl_bool :: "string \<Rightarrow> string \<Rightarrow> string + bool option"

definition parse_from :: "clap \<Rightarrow> string + sidecar_config" where
  "parse_from A =
     res_bind (cl_string A ''database-url'' ''PGRG_DATABASE_URL'') (\<lambda>url.
     res_bind (ok_or ''the following required arguments were not provided: --database-url <DATABASE_URL>'' url) (\<lambda>url.
     res_bind (cl_string A ''http-bind'' ''PGRG_HTTP_BIND'') (\<lambda>bind.
     res_bind (cl_i32 A ''bgw-workers'' ''PGRG_BGW_WORKERS'') (\<lambda>workers.
     res_bind (cl_i32 A ''extract-concurrency'' ''PGRG_EXTRACT_CONCURRENCY'') (\<lambda>conc.
     res_bind (cl_i32 A ''embed-dim'' ''PGRG_EMBED_DIM'') (\<lambda>dims.
     res_bind (cl_string A ''embed-model-path'' ''PGRG_EMBED_MODEL_PATH'') (\<lambda>model.
     res_bind (cl_string A ''master-key-path'' ''PGRG_MASTER_KEY_PATH'') (\<lambda>key.
     res_bind (cl_i64 A ''job-reaper-interval-secs'' ''PGRG_JOB_REAPER_INTERVAL'') (\<lambda>secs.
     res_bind (cl_bool A ''parity-mode'' ''PGRG_PARITY_MODE'') (\<lambda>parity.
       Inr \<lparr>sg_database_url = url, sg_http_bind = unwrap_or ''0.0.0.0:8410'' bind,
            sg_bgw_workers = unwrap_or 2 workers, sg_extract_concurrency = unwrap_or 4 conc,
            sg_embed_dim = unwrap_or 384 dims, sg_embed_model_path = model, sg_master_key_path = key,
            sg_job_reaper_interval_secs = unwrap_or 300 secs, sg_parity_mode = unwrap_or False parity\<rparr>))))))))))"

text \<open>\<open>impl Debug\<close>: the fields handed to \<open>debug_struct\<close>.\<close>

datatype dbg = DStr string | DInt int | DOpt "string option" | DBool bool

definition config_debug :: "sidecar_config \<Rightarrow> (string \<times> dbg) list" where
  "config_debug c =
     [(''database_url'', DStr ''<redacted>''), (''http_bind'', DStr (sg_http_bind c)),
      (''bgw_workers'', DInt (sint (sg_bgw_workers c))),
      (''extract_concurrency'', DInt (sint (sg_extract_concurrency c))),
      (''embed_dim'', DInt (sint (sg_embed_dim c))), (''embed_model_path'', DOpt (sg_embed_model_path c)),
      (''master_key_path'', DOpt (map_option (\<lambda>_. ''<set>'') (sg_master_key_path c))),
      (''job_reaper_interval_secs'', DInt (sint (sg_job_reaper_interval_secs c))),
      (''parity_mode'', DBool (sg_parity_mode c))]"

text \<open>The period of the reaper task in seconds: at least one.\<close>

definition reaper_period :: "i64 \<Rightarrow> nat" where
  "reaper_period secs = nat (max 1 (sint secs))"

text \<open>
  What \<open>main\<close> sets up: the migrations run first, on the connection \<open>conn\<close>, then the embedder is loaded
  and shared by the workers \<open>0..bgw_workers\<close>, the reaper and the HTTP server.
\<close>

record 'w started =
  su_embedder :: "'w embedder"
  su_workers :: "int list"
  su_reaper_period :: nat
  su_reaper_secs :: int
  su_http_bind :: string

definition sidecar_main ::
  "(bytes \<Rightarrow> bytes) \<Rightarrow> sidecar_config \<Rightarrow> string option \<Rightarrow> mig_faults \<Rightarrow> schema \<Rightarrow> (string + 'w started) \<times> schema" where
  "sidecar_main sha cfg conn mf s =
     (case conn of Some e \<Rightarrow> (Inl e, s) | None \<Rightarrow>
      case run_migrations mf s of
        (Inl e, s') \<Rightarrow> (Inl e, s')
      | (Inr _, s') \<Rightarrow>
          (Inr \<lparr>su_embedder = build_embedder sha (sg_embed_dim cfg),
                su_workers = [0..sint (sg_bgw_workers cfg) - 1],
                su_reaper_period = reaper_period (sg_job_reaper_interval_secs cfg),
                su_reaper_secs = reap_secs (sg_job_reaper_interval_secs cfg),
                su_http_bind = sg_http_bind cfg\<rparr>, s'))"

section \<open>Facts about the settings\<close>

text \<open>Every setting holds a value its definition accepts, whatever is assigned.\<close>

definition settings_ok :: "settings \<Rightarrow> bool" where
  "settings_ok \<sigma> \<longleftrightarrow> (\<forall>g \<in> set register. \<exists>v. \<sigma> (gu_name g) = Some v \<and> guc_accepts g v)"

lemma register_simps:
  "guc_named name = (if name = ''pg_raggraph.bgw_workers'' then Some (define_int_guc name 2 1 16 Postmaster)
     else if name = ''pg_raggraph.extract_concurrency'' then Some (define_int_guc name 4 1 64 Sighup)
     else if name = ''pg_raggraph.embed_dim'' then Some (define_int_guc name 384 64 4096 Postmaster)
     else if name = ''pg_raggraph.debug_retrieval'' then Some (define_guc name (GBool False) Userset)
     else if name = ''pg_raggraph.job_reaper_interval'' then Some (define_int_guc name 300 10 86400 Sighup)
     else if name = ''pg_raggraph.parity_mode'' then Some (define_guc name (GBool False) Suset)
     else if name = ''pg_raggraph.master_key_path'' then Some (define_guc name (GString None) Suset)
     else if name = ''pg_raggraph.embed_model_path'' then Some (define_guc name (GString None) Sighup)
     else None)"
  by (simp add: guc_named_def register_def define_int_guc_def define_guc_def)

lemma distinct_names: "distinct (map gu_name register)"
  by (simp add: register_def define_int_guc_def define_guc_def)

lemma guc_named_register: "g \<in> set register \<Longrightarrow> guc_named (gu_name g) = Some g"
proof -
  have "g \<in> set gs \<Longrightarrow> distinct (map gu_name gs) \<Longrightarrow> find (\<lambda>x. gu_name x = gu_name g) gs = Some g" for gs
    by (induction gs) auto
  then show "g \<in> set register \<Longrightarrow> guc_named (gu_name g) = Some g" using distinct_names by (simp add: guc_named_def)
qed

lemma boot_settings_ok: "settings_ok boot_settings"
  unfolding settings_ok_def
proof
  fix g
  assume g: "g \<in> set register"
  have "guc_accepts g (gu_boot g)"
    using g by (auto simp: register_def define_int_guc_def define_guc_def guc_accepts_def)
  with g show "\<exists>v. boot_settings (gu_name g) = Some v \<and> guc_accepts g v"
    by (simp add: boot_settings_def guc_named_register)
qed

lemma guc_assign_ok: "settings_ok \<sigma> \<Longrightarrow> settings_ok (guc_assign \<sigma> a)"
  by (auto simp: settings_ok_def guc_assign_def guc_named_register split: prod.split option.split)

lemma foldl_guc_ok: "settings_ok \<sigma> \<Longrightarrow> settings_ok (foldl guc_assign \<sigma> as)"
  by (induction as arbitrary: \<sigma>) (auto intro: guc_assign_ok)

lemma settings_int:
  assumes "settings_ok \<sigma>" and "define_int_guc name boot lo hi ctx \<in> set register"
  shows "lo \<le> guc_int \<sigma> name \<and> guc_int \<sigma> name \<le> hi"
proof -
  let ?g = "define_int_guc name boot lo hi ctx"
  from assms obtain v where v: "\<sigma> name = Some v" "guc_accepts ?g v"
    unfolding settings_ok_def by (metis define_int_guc_def guc.select_convs(1))
  then show ?thesis by (cases v) (simp_all add: define_int_guc_def guc_accepts_def guc_int_def)
qed

lemma postmaster_fixed:
  assumes "guc_named name = Some g" and "gu_context g = Postmaster" and "\<forall>a \<in> set as. fst a \<noteq> ServerStart"
  shows "foldl guc_assign \<sigma> as name = \<sigma> name"
  using assms(3)
proof (induction as arbitrary: \<sigma>)
  case (Cons a as)
  obtain src n v where a: "a = (src, n, v)" by (metis surj_pair)
  with Cons.prems have "\<not> context_allows Postmaster src" by (cases src) auto
  then have "guc_assign \<sigma> a name = \<sigma> name" using assms(1,2) by (auto simp: a guc_assign_def split: option.split)
  with Cons show ?case by simp
qed simp

lemma embed_dims_small:
  assumes "0 \<le> d" and "d < 2 ^ 31"
  shows "embed_dims (word_of_int d) = nat d"
proof -
  have "sint (word_of_int d :: i32) = d" using assms by (simp only: sint_sbintrunc') (simp add: signed_take_bit_int_eq_self)
  with assms show ?thesis by (simp add: embed_dims_def)
qed

section \<open>A job whose embeddings have the wrong length\<close>

text \<open>What is used of pgvector's input: a literal with as many components as the vector it was printed from.\<close>

definition literal_length :: "pg_ext \<Rightarrow> bool" where
  "literal_length X \<longleftrightarrow> (\<forall>v u. px_vector_in X (vector_literal v) = Inr u \<longrightarrow> length u = length v)"

lemma run_job_embeds:
  assumes "run_job cl env req emb p (s, w) = (Inr (Completed d n), t)"
  obtains ns h ids chunks vecs doc s1 w1 w2 w3 sw2 where "pg_document_exists_by_hash cl ns h s = (Inr False, s1)"
    "em_embed_batch emb (map ch_text chunks) w1 = (Inr vecs, w2)"
    "chunks \<noteq> []" "length ids = length chunks" "length vecs = length chunks"
    "persist_document cl env emb p doc (zip ids (zip chunks vecs)) (s1, w3) = (Inr (), sw2)"
  using assms
  unfolding run_job_def
  by (auto simp: on_world_Inr on_client_Inr Let_def sr_apply sr_lift_Inr
      elim!: sr_bind_pairE dest!: fresh_ids_Inr fresh_idE commit_or_rollback_InrD split: if_splits)

lemma insert_document_dim: "sql_insert_document d db = Inr db' \<Longrightarrow> db_dim db' = db_dim db"
  by (auto simp: sql_insert_document_def split: if_splits)

lemma wrong_dim_persist_fails:
  assumes "literal_length X" and "length (snd (snd x)) \<noteq> db_dim (tx_work t)"
  shows "persist_document (tokio_client X) env emb p doc (x # xs) (t, w) \<noteq> (Inr (), s)"
proof
  assume "persist_document (tokio_client X) env emb p doc (x # xs) (t, w) = (Inr (), s)"
  then obtain t1 t2 where 1: "tokio_insert_document X doc t = (Inr (), t1)"
      "tokio_insert_chunk X (chunk_row_of (dr_namespace doc) (dr_id doc) x) t1 = (Inr (), t2)"
    unfolding persist_document_def persist_chunk_def
    by (auto elim!: sr_bind_pairE simp: on_client_Inr)
  have "db_dim (tx_work t1) = db_dim (tx_work t)"
    using tx_update_Inr[OF 1(1)[unfolded tokio_insert_document_def]] by (rule insert_document_dim)
  moreover obtain v where "sql_vector X (tx_work t1) (vector_literal (snd (snd x))) = Inr v"
    using tx_update_Inr[OF 1(2)[unfolded tokio_insert_chunk_def]]
    by (auto simp: sql_insert_chunk_def res_bind_Inr_iff chunk_row_of_def split: prod.splits)
  ultimately show False
    using assms by (auto simp: sql_vector_def literal_length_def split: sum.splits if_splits)
qed

lemma wrong_dim_never_completes:
  assumes "literal_length X" and "embedder_contract emb" and "em_dim emb \<noteq> db_dim db"
  shows "run_job (tokio_client X) env req emb p (tx_begin faults db, w) \<noteq> (Inr (Completed d n), t)"
proof
  assume "run_job (tokio_client X) env req emb p (tx_begin faults db, w) = (Inr (Completed d n), t)"
  then obtain ns h ids chunks vecs doc s1 w1 w2 w3 sw2 where
      e: "pg_document_exists_by_hash (tokio_client X) ns h (tx_begin faults db) = (Inr False, s1)"
      and b: "em_embed_batch emb (map ch_text chunks) w1 = (Inr vecs, w2)"
      and l: "chunks \<noteq> []" "length ids = length chunks" "length vecs = length chunks"
      and p: "persist_document (tokio_client X) env emb p doc (zip ids (zip chunks vecs)) (s1, w3) = (Inr (), sw2)"
    by (rule run_job_embeds)
  have "tx_work s1 = db"
    using e tx_query_Inr[of X "''spi document_exists''" "sql_document_exists ns h" "tx_begin faults db" False s1]
    by (simp add: tokio_document_exists_by_hash_def tx_begin_def)
  moreover obtain c cs v vs i us where "chunks = c # cs" "vecs = v # vs" "ids = i # us"
    using l by (cases chunks; cases vecs; cases ids) auto
  moreover from this embedder_contract.batch_dims[OF assms(2) b] have "length v = em_dim emb" by simp
  ultimately have bad: "persist_document (tokio_client X) env emb p doc ((i, c, v) # zip us (zip cs vs)) (s1, w3) = (Inr (), sw2)"
      "length (snd (snd (i, c, v))) \<noteq> db_dim (tx_work s1)"
    using p assms(3) by simp_all
  show False by (rule notE[OF wrong_dim_persist_fails[OF assms(1) bad(2)] bad(1)])
qed

lemma duplicate_commits_nothing:
  assumes "run_job (tokio_client X) env req emb p (tx_begin faults db, w) = (Inr (SkippedDuplicate h), (t, w'))"
  shows "tx_commit t = db"
proof -
  obtain name bs w0 where s: "read_source env (rq_source req) w = (Inr (name, bs), w0)"
    using assms by (auto simp: run_job_def on_world_Inr elim!: sr_bind_pairE)
  from assms s obtain ns h where "pg_document_exists_by_hash (tokio_client X) ns h (tx_begin faults db) = (Inr True, t)"
    by (rule run_job_InrE) auto
  then have "tx_run X ''spi document_exists'' (tx_query (sql_document_exists ns h)) (tx_begin faults db) = (Inr True, t)"
    by (simp add: tokio_document_exists_by_hash_def)
  with tx_query_Inr[OF this] show ?thesis
    by (auto simp: tx_commit_def tx_begin_def tx_run_Inr tx_query_def dest: tx_exec_not_aborted)
qed

text \<open>So a poll with such an embedder never changes the tables of documents and graph, whatever fails.\<close>

lemma wrong_dim_poll:
  assumes "literal_length X" and "embedder_contract emb" and "em_dim emb \<noteq> db_dim db"
    and "process_one X env dbg cf locked t1 t2 emb (db, w) = (r, db', w')"
  shows "data_of db' = data_of db"
proof -
  have dim: "em_dim emb \<noteq> db_dim db1" if "sql_claim locked t1 db = Inr (q, db1)" for q db1
    using that assms(3) by (auto simp: sql_claim_def Let_def update_job_def split: list.splits if_splits)
  have out: "tx_commit t = db1"
    if "run_job (tokio_client X) env req emb p (tx_begin faults db1, w) = (Inr out, (t, w1))"
      and "sql_claim locked t1 db = Inr (q, db1)" for req p faults db1 out t w1 q
  proof (cases out)
    case (Completed d n)
    with that(1) wrong_dim_never_completes[OF assms(1,2) dim[OF that(2)]] show ?thesis by blast
  next
    case (SkippedDuplicate h)
    show ?thesis by (rule duplicate_commits_nothing[OF that(1)[unfolded SkippedDuplicate]])
  qed
  show ?thesis
    using assms(4)
    by (auto simp: process_one_def claim_next_job_def Let_def claim_keeps_data out
        dest!: tokio_job_error_rolls_back split: option.splits sum.splits prod.splits)
qed

section \<open>Properties\<close>

definition workers_of :: "init_effect list \<Rightarrow> bgworker list" where
  "workers_of es = concat (map (\<lambda>e. case e of RegisterWorker b \<Rightarrow> [b] | InitWarning _ \<Rightarrow> []) es)"

lemma workers_of_register: "workers_of (register_workers n) = map (\<lambda>i.
    \<lparr>bw_name = ''pg_raggraph w'' @ show_nat i, bw_function = ''pg_raggraph_worker_main'', bw_restart_secs = 1\<rparr>) [0..<nat n]"
  by (simp add: workers_of_def register_workers_def comp_def concat_map_singleton)

lemma inj_show_nat: "inj show_nat"
  by (rule inj_on_inverseI[of _ digits_val]) (rule digits_val_show_nat)

text \<open>
  Settings stay in range: whatever is assigned to the settings of the extension, the embedder of a
  worker has exactly the configured dimension, between 64 and 4096, so that its fallback of 384 is never
  taken; between 1 and 16 workers are registered besides the launcher, under different names, and only when
  preloading; the reaper waits between 10 and 86400 seconds. A server that runs keeps its dimension.
\<close>

theorem settings_in_range:
  fixes as bs :: "(guc_source \<times> string \<times> guc_value) list"
  defines "\<sigma> \<equiv> foldl guc_assign boot_settings as"
  assumes "\<forall>a \<in> set bs. fst a \<noteq> ServerStart"
  shows "int (em_dim (build_backend sha \<sigma> :: 'w embedder)) = guc_int \<sigma> ''pg_raggraph.embed_dim''
    \<and> em_dim (build_backend sha \<sigma> :: 'w embedder) \<in> {64..4096}
    \<and> length (workers_of (pg_init \<sigma> True)) \<in> {2..17}
    \<and> distinct (map bw_name (workers_of (pg_init \<sigma> True)))
    \<and> workers_of (pg_init \<sigma> False) = []
    \<and> guc_int \<sigma> ''pg_raggraph.job_reaper_interval'' \<in> {10..86400}
    \<and> (build_backend sha (foldl guc_assign \<sigma> bs) :: 'w embedder) = build_backend sha \<sigma>"
proof -
  have ok: "settings_ok \<sigma>" unfolding \<sigma>_def by (intro foldl_guc_ok boot_settings_ok)
  have d: "64 \<le> guc_int \<sigma> ''pg_raggraph.embed_dim''" "guc_int \<sigma> ''pg_raggraph.embed_dim'' \<le> 4096"
    using settings_int[OF ok, of "''pg_raggraph.embed_dim''" 384 64 4096 Postmaster] by (simp_all add: register_def)
  have n: "1 \<le> guc_int \<sigma> ''pg_raggraph.bgw_workers''" "guc_int \<sigma> ''pg_raggraph.bgw_workers'' \<le> 16"
    using settings_int[OF ok, of "''pg_raggraph.bgw_workers''" 2 1 16 Postmaster] by (simp_all add: register_def)
  have r: "guc_int \<sigma> ''pg_raggraph.job_reaper_interval'' \<in> {10..86400}"
    using settings_int[OF ok, of "''pg_raggraph.job_reaper_interval''" 300 10 86400 Sighup] by (simp add: register_def)
  have dim: "em_dim (build_backend sha \<sigma> :: 'w embedder) = nat (guc_int \<sigma> ''pg_raggraph.embed_dim'')"
    using embed_dims_small d by (simp add: build_backend_def deterministic_backend_def Let_def)
  have w: "workers_of (pg_init \<sigma> True) =
      \<lparr>bw_name = ''pg_raggraph launcher'', bw_function = ''pg_raggraph_launcher_main'', bw_restart_secs = 5\<rparr>
      # workers_of (register_workers (guc_int \<sigma> ''pg_raggraph.bgw_workers''))"
    by (simp add: pg_init_def workers_of_def register_launcher_def)
  have "distinct (map bw_name (workers_of (pg_init \<sigma> True)))"
    unfolding w workers_of_register
    by (auto simp: distinct_map comp_def inj_on_def inj_eq[OF inj_show_nat])
  moreover have "length (workers_of (pg_init \<sigma> True)) \<in> {2..17}"
    using n unfolding w workers_of_register by auto
  moreover have "foldl guc_assign \<sigma> bs ''pg_raggraph.embed_dim'' = \<sigma> ''pg_raggraph.embed_dim''"
    by (rule postmaster_fixed[of _ "define_int_guc ''pg_raggraph.embed_dim'' 384 64 4096 Postmaster", OF _ _ assms(2)])
      (simp_all add: register_simps define_int_guc_def)
  ultimately show ?thesis
    using d r dim by (auto simp: build_backend_def guc_int_def pg_init_def workers_of_def)
qed

text \<open>
  C34 (accepted but not installable): the server accepts dimensions up to 4096, but neither the extension
  nor the sidecar can create the schema on a stock server with more than 2000, the limit of the HNSW
  indexes that the base files create.
\<close>

theorem embed_dim_limit:
  "(\<exists>g. guc_named ''pg_raggraph.embed_dim'' = Some g \<and> (guc_accepts g (GInt d) \<longleftrightarrow> 64 \<le> d \<and> d \<le> 4096))
   \<and> ((\<exists>s'. create_extension (stock_server\<lparr>sc_embed_dim := Some d\<rparr>) = Inr s') \<longleftrightarrow> 1 \<le> d \<and> d \<le> 2000)
   \<and> ((\<exists>n s'. run_migrations no_mig_faults (stock_server\<lparr>sc_embed_dim := Some d\<rparr>) = (Inr n, s'))
       \<longleftrightarrow> 1 \<le> d \<and> d \<le> 2000)"
  by (simp only: stock_server_dims hnsw_max_dim_def) (simp add: register_simps guc_accepts_def define_int_guc_def)

text \<open>
  C6 (the dimension of the sidecar is not the one of its schema): a sidecar that starts on a database
  without the schema creates its vector columns with 384 components, unless the database session says
  otherwise. Configured with any other dimension it starts all the same, and from then on no poll, whatever
  fails, ever changes a document, chunk, entity, relationship or link.
\<close>

theorem sidecar_dim_ignored:
  assumes "sidecar_main sha cfg conn mf s = (Inr su, s')"
    and "\<not> has_relation ''migrations'' s" and "sc_embed_dim s = None"
    and "sc_dim s' = Some (int (db_dim db))" and "embed_dims (sg_embed_dim cfg) \<noteq> 384"
    and "literal_length X"
    and "process_one X env dbg cf locked t1 t2 (su_embedder su) (db, w) = (r, db', w')"
  shows "db_dim db = 384 \<and> em_dim (su_embedder su) = embed_dims (sg_embed_dim cfg) \<and> data_of db' = data_of db"
proof -
  from assms(1) obtain n where m: "run_migrations mf s = (Inr n, s')"
    and e: "su_embedder su = deterministic_backend sha (embed_dims (sg_embed_dim cfg))"
    by (auto simp: sidecar_main_def build_embedder_def split: option.splits prod.splits sum.splits)
  have d: "db_dim db = 384" using run_migrations_dim[OF m assms(2)] assms(3,4) by (simp add: unwrap_or_def)
  have emb: "em_dim (su_embedder su) = embed_dims (sg_embed_dim cfg)"
    unfolding e by (simp add: deterministic_backend_def Let_def)
  have "embedder_contract (su_embedder su)" unfolding e by (rule deterministic.embedder_contract_axioms)
  from wrong_dim_poll[OF assms(6) this _ assms(7)] d emb assms(5) show ?thesis by simp
qed

theorem settings_in_range_witness:
  "em_dim (build_backend id (foldl guc_assign boot_settings
      [(ServerStart, ''pg_raggraph.embed_dim'', GInt 1024), (ServerStart, ''pg_raggraph.embed_dim'', GInt 5)]) :: unit embedder) = 1024
   \<and> (build_backend id (foldl guc_assign (foldl guc_assign boot_settings
        [(ServerStart, ''pg_raggraph.embed_dim'', GInt 1024), (ServerStart, ''pg_raggraph.embed_dim'', GInt 5)])
        [(Reload, ''pg_raggraph.embed_dim'', GInt 384)]) :: unit embedder)
     = build_backend id (foldl guc_assign boot_settings
        [(ServerStart, ''pg_raggraph.embed_dim'', GInt 1024), (ServerStart, ''pg_raggraph.embed_dim'', GInt 5)])"
proof -
  let ?as = "[(ServerStart, ''pg_raggraph.embed_dim'', GInt 1024), (ServerStart, ''pg_raggraph.embed_dim'', GInt 5)]"
  have "guc_int (foldl guc_assign boot_settings ?as) ''pg_raggraph.embed_dim'' = 1024"
    by (simp add: guc_assign_def register_simps guc_int_def guc_accepts_def define_int_guc_def)
  with settings_in_range[where 'w = unit and bs = "[(Reload, ''pg_raggraph.embed_dim'', GInt 384)]" and as = ?as and sha = id] show ?thesis by simp
qed

definition demo_config :: sidecar_config where
  "demo_config = \<lparr>sg_database_url = ''postgres://h/db'', sg_http_bind = ''0.0.0.0:8410'', sg_bgw_workers = 2,
     sg_extract_concurrency = 4, sg_embed_dim = 768, sg_embed_model_path = None, sg_master_key_path = None,
     sg_job_reaper_interval_secs = 300, sg_parity_mode = False\<rparr>"

definition demo_pgvector :: pg_ext where
  "demo_pgvector = demo_ext\<lparr>px_vector_in := \<lambda>s. ok_or ''invalid input'' (parse_vector_literal s)\<rparr>"

lemma demo_pgvector_length: "literal_length demo_pgvector"
  by (auto simp: literal_length_def demo_pgvector_def ok_or_def parse_printed_vector dest!: parse_parts_length
      split: option.splits)

theorem sidecar_dim_ignored_witness:
  "\<exists>(su :: int started) s'. sidecar_main (\<lambda>b. replicate 32 (CHR ''a'')) demo_config None no_mig_faults stock_server = (Inr su, s')
    \<and> em_dim (su_embedder su) = 768 \<and> sc_dim s' = Some 384
    \<and> data_of (fst (snd (process_one demo_pgvector demo_env (\<lambda>_. []) no_faults [] 5 6 (su_embedder su)
        (demo_queue\<lparr>db_dim := 384\<rparr>, 0)))) = data_of (demo_queue\<lparr>db_dim := 384\<rparr>)"
proof -
  let ?sha = "\<lambda>b. replicate 32 (CHR ''a'')"
  let ?db = "demo_queue\<lparr>db_dim := 384\<rparr>"
  obtain s' where m: "run_migrations no_mig_faults stock_server = (Inr 3, s')" "sc_dim s' = Some 384"
    using stock_server_run by blast
  then obtain su :: "int started" where su: "sidecar_main ?sha demo_config None no_mig_faults stock_server = (Inr su, s')"
    by (simp add: sidecar_main_def)
  obtain r db' w' where p: "process_one demo_pgvector demo_env (\<lambda>_. []) no_faults [] 5 6 (su_embedder su) (?db, 0)
      = (r, db', w')" by (metis surj_pair)
  have "embed_dims (sg_embed_dim demo_config) = 768" by (simp add: embed_dims_def demo_config_def)
  with sidecar_dim_ignored[OF su _ _ _ _ demo_pgvector_length p] m(2) su p show ?thesis
    by (simp add: stock_server_def has_relation_def)
qed

end
