(* ===== verification/ParityConstants.thy ===== *)
theory ParityConstants
  imports FloatText Resolve
begin

text \<open>
  The build script of the core crate (\<^verbatim>\<open>pg_raggraph_core/build.rs\<close>): it reads the constants shared with the
  Python implementation, compares them with its own and writes the Rust file that the entity resolution
  includes. A panic is an error that stops the build.
\<close>

section \<open>Lines\<close>

text \<open>\<open>str::lines\<close>: an ending \<open>\n\<close> or \<open>\r\n\<close> is dropped, and there is no line after the last one.\<close>

definition strip_cr :: "string \<Rightarrow> string" where
  "strip_cr l = (if l \<noteq> [] \<and> last l = CHR 0x0D then butlast l else l)"

definition str_lines :: "string \<Rightarrow> string list" where
  "str_lines s =
     (let ps = split_on (CHR 0x0A) s
      in map strip_cr (butlast ps) @ (if last ps = [] then [] else [last ps]))"

section \<open>The script\<close>

definition CANON_TRGM :: f32 where "CANON_TRGM = rnd binary32 (85 / 100)"
definition CANON_COSINE :: f32 where "CANON_COSINE = rnd binary32 (90 / 100)"

fun scan_lines :: "string \<Rightarrow> string list \<Rightarrow> string + f32" where
  "scan_lines key [] = Inl (''parity yaml: key `'' @ key @ ''` not found'')"
| "scan_lines key (raw # ls) =
     (let line = trim raw in
      if starts_with ''#'' line \<or> line = [] then scan_lines key ls
      else
        (case split_once (CHR '':'') line of
           None \<Rightarrow> scan_lines key ls
         | Some (k, v) \<Rightarrow>
             if trim k = key
             then ok_or (''parity yaml: `'' @ key @ ''` not a float'') (parse_float binary32 (trim v))
             else scan_lines key ls))"

definition scan :: "string \<Rightarrow> string \<Rightarrow> string + f32" where
  "scan yaml key = scan_lines key (str_lines yaml)"

definition drift :: "string \<Rightarrow> f32 \<Rightarrow> f32 \<Rightarrow> string" where
  "drift name x canon = ''DRIFT: resolution_constants.yaml '' @ name @ ''='' @ fmt_float binary32 x @ '' != canonical ''
     @ fmt_float binary32 canon @ ''. Reconcile resolve.rs and the YAML in one commit.''"

definition generated :: "f32 \<Rightarrow> f32 \<Rightarrow> string" where
  "generated trgm cosv =
     ''pub const TRGM_MERGE: f32 = '' @ fmt_float binary32 trgm @ ''_f32;'' @ [CHR 0x0A]
     @ ''pub const COSINE_MERGE: f32 = '' @ fmt_float binary32 cosv @ ''_f32;'' @ [CHR 0x0A]"

text \<open>\<open>r\<close> is what reading the file gives. Values that are not NaN have equal bits iff they are equal.\<close>

definition build :: "string + string \<Rightarrow> string + string" where
  "build r =
     res_bind (map_err (\<lambda>e. ''cannot read ../bench/parity/resolution_constants.yaml: '' @ e) r) (\<lambda>yaml.
     res_bind (scan yaml ''trgm_merge'') (\<lambda>trgm.
     res_bind (scan yaml ''cosine_merge'') (\<lambda>cosv.
       if trgm \<noteq> CANON_TRGM then Inl (drift ''trgm_merge'' trgm CANON_TRGM)
       else if cosv \<noteq> CANON_COSINE then Inl (drift ''cosine_merge'' cosv CANON_COSINE)
       else Inr (generated trgm cosv))))"

section \<open>Rounded values are values of the format\<close>

lemma rnd_idem:
  assumes "rnd f x = Fin y" and "0 < prec f"
  shows "rnd f y = Fin y"
proof (cases "y = 0")
  case False
  with assms(1) have y: "y = rnd_val f x" "\<bar>y\<bar> < 2 powi (emax f + 1)" and x: "x \<noteq> 0"
    by (auto simp: rnd_def Let_def split: if_splits)
  let ?q = "quantum_exp f x"
  let ?m = "rhe (x / 2 powi ?q)"
  have m: "y = of_int ?m * 2 powi ?q" by (simp add: y(1) rnd_val_def)
  have q: "qmin f \<le> ?q" "rat_exp x + 1 \<le> int (prec f) + ?q" by (simp_all add: quantum_exp_def)
  have "\<bar>x\<bar> < 2 powi (rat_exp x + 1)" by (rule rat_exp_bounds(2)[OF x])
  also have "\<dots> \<le> 2 powi (int (prec f) + ?q)" using q(2) by (simp add: powi2_le_iff)
  also have "\<dots> = of_int (2 ^ prec f) * 2 powi ?q" by (simp add: powi2_add)
  finally have b: "x \<le> of_int (2 ^ prec f) * 2 powi ?q" "of_int (- (2 ^ prec f)) * 2 powi ?q \<le> x"
    by auto
  have "of_int ?m * 2 powi ?q \<le> of_int (2 ^ prec f) * (2 :: rat) powi ?q"
       "of_int (- (2 ^ prec f)) * (2 :: rat) powi ?q \<le> of_int ?m * 2 powi ?q"
    using rnd_val_le_multiple[OF b(1)] rnd_val_ge_multiple[OF b(2)] by (simp_all add: rnd_val_def)
  then have le: "?m \<le> 2 ^ prec f" "- (2 ^ prec f) \<le> ?m"
    by (simp_all only: mult_le_cancel_right of_int_le_iff) simp_all
  show ?thesis
  proof (cases "\<bar>?m\<bar> = 2 ^ prec f")
    case True
    have "(of_int ?m :: rat) = of_int (sgn ?m * \<bar>?m\<bar>)" by (simp only: sgn_mult_abs)
    also have "\<dots> = of_int (sgn ?m) * 2 ^ prec f" using True by simp
    finally have "y = of_int (sgn ?m) * 2 powi (int (prec f) + ?q)" unfolding m by (simp add: powi2_add)
    then show ?thesis
      by (rule rnd_exact) (use q assms(2) y(2) in \<open>auto simp: sgn_if\<close>)
  next
    case False
    with le have "\<bar>?m\<bar> < 2 ^ prec f" by auto
    with m show ?thesis by (rule rnd_exact) (use q y(2) in auto)
  qed
qed simp

lemma is_fl_rnd: "0 < prec f \<Longrightarrow> is_fl f (rnd f x)"
  by (auto simp: is_fl_def rnd_idem split: fl.split)

section \<open>Properties\<close>

text \<open>The entries of a file, and the first one under a key.\<close>

definition entry_of :: "string \<Rightarrow> (string \<times> string) option" where
  "entry_of raw =
     (let line = trim raw in
      if starts_with ''#'' line then None
      else map_option (\<lambda>(k, v). (trim k, trim v)) (split_once (CHR '':'') line))"

lemma scan_lines_first:
  "scan_lines key ls =
     (case map_of (List.map_filter entry_of ls) key of
        None \<Rightarrow> Inl (''parity yaml: key `'' @ key @ ''` not found'')
      | Some v \<Rightarrow> ok_or (''parity yaml: `'' @ key @ ''` not a float'') (parse_float binary32 v))"
  by (induction ls) (auto simp: entry_of_def Let_def map_filter_simps split: option.splits)

text \<open>
  Drift stops the build: the build succeeds exactly if the file can be read and its first entries for
  the two thresholds are floats equal to the canonical ones, and then the file it writes defines exactly
  the two thresholds the entity resolution uses, in decimals that read back as them. No other entry of the
  file is looked at.
\<close>

theorem build_checks_drift:
  "build r = Inr out \<longleftrightarrow>
     (\<exists>yaml t c. r = Inr yaml
        \<and> map_of (List.map_filter entry_of (str_lines yaml)) ''trgm_merge'' = Some t
        \<and> map_of (List.map_filter entry_of (str_lines yaml)) ''cosine_merge'' = Some c
        \<and> parse_float binary32 t = Some TRGM_MERGE \<and> parse_float binary32 c = Some COSINE_MERGE)
     \<and> out = generated TRGM_MERGE COSINE_MERGE
     \<and> parse_float binary32 (fmt_float binary32 TRGM_MERGE) = Some TRGM_MERGE
     \<and> parse_float binary32 (fmt_float binary32 COSINE_MERGE) = Some COSINE_MERGE"
proof -
  have fl: "is_fl binary32 TRGM_MERGE" "is_fl binary32 COSINE_MERGE"
    unfolding TRGM_MERGE_def COSINE_MERGE_def by (simp_all add: is_fl_rnd)
  have rt: "parse_float binary32 (fmt_float binary32 TRGM_MERGE) = Some TRGM_MERGE"
      "parse_float binary32 (fmt_float binary32 COSINE_MERGE) = Some COSINE_MERGE"
    by (rule parse_fmt_float[OF fl(1)], simp add: binary32_def, rule parse_fmt_float[OF fl(2)], simp add: binary32_def)
  have c: "CANON_TRGM = TRGM_MERGE" "CANON_COSINE = COSINE_MERGE"
    by (simp_all add: CANON_TRGM_def CANON_COSINE_def TRGM_MERGE_def COSINE_MERGE_def)
  show ?thesis
    unfolding build_def scan_def scan_lines_first c
    by (cases r) (auto simp: rt res_bind_Inr_iff ok_or_def split: option.splits if_splits)
qed

text \<open>The two entries as the shared file has them.\<close>

lemma shared_constants_build:
  "build (Inr (''trgm_merge: 0.85'' @ CHR 0x0A # ''cosine_merge: 0.90'')) = Inr (generated TRGM_MERGE COSINE_MERGE)"
proof -
  have l: "str_lines (''trgm_merge: 0.85'' @ CHR 0x0A # ''cosine_merge: 0.90'') = [''trgm_merge: 0.85'', ''cosine_merge: 0.90'']"
    by (simp add: str_lines_def strip_cr_def)
  have t: "trim ''trgm_merge: 0.85'' = ''trgm_merge: 0.85''" "trim ''cosine_merge: 0.90'' = ''cosine_merge: 0.90''"
      "trim '' 0.85'' = ''0.85''" "trim '' 0.90'' = ''0.90''" "trim ''trgm_merge'' = ''trgm_merge''"
      "trim ''cosine_merge'' = ''cosine_merge''"
    by (simp_all add: trim_def trim_by_def uchars_ascii_Cons is_whitespace_def)
  have p: "parse_float binary32 ''0.85'' = Some (rnd binary32 (85 / 100))"
      "parse_float binary32 ''0.90'' = Some (rnd binary32 (90 / 100))"
    by (simp_all add: parse_float_digit parse_decimal_def is_digit_def digits_val_def digit_val_def Let_def)
  show ?thesis
    using l by (simp add: build_def scan_def t p starts_with_def CANON_TRGM_def CANON_COSINE_def TRGM_MERGE_def COSINE_MERGE_def)
qed

end
