(* ===== verification/EndToEnd.thy ===== *)
theory EndToEnd
  imports Jobs Retrieval
begin

text \<open>
  The components together: a text given to \<open>pgrg.ingest_text\<close> goes through the queue, the poll of the
  sidecar, the chunker, the embedder and the transaction of the document, and comes back from
  \<open>pgrg.query\<close>. The lemmas say when each stage succeeds, and with what state.
\<close>

section \<open>Statements that succeed\<close>

text \<open>A transaction without a fault, with \<open>db\<close> committed and \<open>k\<close> in its work.\<close>

abbreviation open_tx :: "database \<Rightarrow> database \<Rightarrow> pg_tx" where
  "open_tx db k \<equiv> \<lparr>tx_committed = db, tx_work = k, tx_aborted = False, tx_faults = []\<rparr>"

lemma tx_begin_open: "tx_begin [] db = open_tx db db"
  by (simp add: tx_begin_def)

lemma open_update: "stmt k = Inr k' \<Longrightarrow> tx_run X ctx (tx_update stmt) (open_tx db k) = (Inr (), open_tx db k')"
  by (simp add: tx_run_def tx_update_def tx_exec_def)

lemma open_query: "tx_run X ctx (tx_query q) (open_tx db k) = (Inr (q k), open_tx db k)"
  by (simp add: tx_run_def tx_query_def tx_exec_def)

text \<open>The rows a document adds fit the table.\<close>

definition chunks_fit :: "pg_ext \<Rightarrow> database \<Rightarrow> chunk_row list \<Rightarrow> bool" where
  "chunks_fit X db cs \<longleftrightarrow>
     distinct (map cw_id (db_chunks db @ cs))
   \<and> distinct (map (\<lambda>c. (cw_document_id c, cw_ord c)) (db_chunks db @ cs))
   \<and> (\<forall>c \<in> set cs. px_vector_in X (vector_literal (cw_embedding c)) = Inr (cw_embedding c)
        \<and> length (cw_embedding c) = db_dim db \<and> cw_document_id c \<in> dr_id ` set (db_documents db))"

lemma insert_chunk_fits:
  assumes "chunks_fit X k (c # cs)"
  shows "sql_insert_chunk X c (vector_literal (cw_embedding c)) k = Inr (k\<lparr>db_chunks := db_chunks k @ [c]\<rparr>)"
    and "chunks_fit X (k\<lparr>db_chunks := db_chunks k @ [c]\<rparr>) cs"
proof -
  have "sql_vector X k (vector_literal (cw_embedding c)) = Inr (cw_embedding c)"
    using assms by (simp add: chunks_fit_def sql_vector_def)
  moreover have "\<not> list_ex (\<lambda>x. cw_document_id x = cw_document_id c \<and> cw_ord x = cw_ord c) (db_chunks k)"
    using assms by (auto simp: chunks_fit_def list_ex_iff image_iff)
  moreover have "\<not> list_ex (\<lambda>x. cw_id x = cw_id c) (db_chunks k)"
    using assms by (auto simp: chunks_fit_def list_ex_iff image_iff)
  moreover have "list_ex (\<lambda>d. dr_id d = cw_document_id c) (db_documents k)"
    using assms by (auto simp: chunks_fit_def list_ex_iff)
  ultimately show "sql_insert_chunk X c (vector_literal (cw_embedding c)) k = Inr (k\<lparr>db_chunks := db_chunks k @ [c]\<rparr>)"
    by (simp add: sql_insert_chunk_def)
  show "chunks_fit X (k\<lparr>db_chunks := db_chunks k @ [c]\<rparr>) cs"
    using assms by (simp add: chunks_fit_def)
qed

section \<open>The pipeline when nothing fails\<close>

text \<open>The provider of the sidecar finds no entities.\<close>

lemma mock_finds_nothing:
  "persist_chunk_extraction cl env emb (mock_llm mock_new) ns cid txt sw = (Inr (), sw)"
  by (cases sw) (simp add: persist_chunk_extraction_def sr_bind_def sr_apply on_world_def mock_llm_def
      mock_extract_def mock_new_def extraction_default_def)

lemma persist_chunks_fit:
  "chunks_fit X k (map (chunk_row_of ns d) items) \<Longrightarrow>
     sr_for (persist_chunk (tokio_client X) env emb (mock_llm mock_new) ns d) items (open_tx db k, w)
   = (Inr (), (open_tx db (k\<lparr>db_chunks := db_chunks k @ map (chunk_row_of ns d) items\<rparr>), w))"
proof (induction items arbitrary: k)
  case (Cons x items)
  let ?c = "chunk_row_of ns d x"
  note fit = insert_chunk_fits[OF Cons.prems[unfolded list.map]]
  have "persist_chunk (tokio_client X) env emb (mock_llm mock_new) ns d x (open_tx db k, w)
      = (Inr (), (open_tx db (k\<lparr>db_chunks := db_chunks k @ [?c]\<rparr>), w))"
    by (simp add: persist_chunk_def sr_bind_def on_client_def tokio_ops open_update[where stmt = "sql_insert_chunk X _ _", OF fit(1)]
        mock_finds_nothing)
  with Cons.IH[OF fit(2)] show ?case by simp
qed (simp add: sr_apply)

text \<open>The identifiers a document draws, one per chunk, and the world after them.\<close>

fun draws :: "('w \<Rightarrow> 'a \<times> 'w) \<Rightarrow> nat \<Rightarrow> 'w \<Rightarrow> 'a list \<times> 'w" where
  "draws nv 0 w = ([], w)"
| "draws nv (Suc n) w = (case nv w of (u, w1) \<Rightarrow> case draws nv n w1 of (us, w2) \<Rightarrow> (u # us, w2))"

lemma draws_length: "draws nv n w = (us, w') \<Longrightarrow> length us = n"
  by (induction n arbitrary: w us) (auto split: prod.splits)

lemma fresh_ids_draws:
  "draws nv (length xs) w = (us, w') \<Longrightarrow> fresh_ids nv xs (s, w) = (Inr us, (s, w'))"
  by (induction xs arbitrary: us w) (auto simp: sr_bind_def sr_apply fresh_def on_world_def split: prod.splits)

lemma insert_document_new:
  assumes "dr_content_hash d \<notin> dr_content_hash ` set (db_documents k)" "dr_id d \<notin> dr_id ` set (db_documents k)"
    and "dr_namespace d \<in> nr_name ` set (db_namespaces k)"
  shows "sql_insert_document d k = Inr (k\<lparr>db_documents := db_documents k @ [d]\<rparr>)"
proof -
  have "list_ex (\<lambda>n. nr_name n = dr_namespace d) (db_namespaces k)"
    using assms(3) by (auto simp: list_ex_iff)
  moreover have "\<not> list_ex (\<lambda>x. dr_content_hash x = dr_content_hash d) (db_documents k)"
    "\<not> list_ex (\<lambda>x. dr_id x = dr_id d) (db_documents k)"
    using assms(1,2) by (auto simp: list_ex_iff image_iff)
  ultimately show ?thesis by (simp add: sql_insert_document_def)
qed

text \<open>The database after a document and its chunks.\<close>

definition with_document :: "doc_row \<Rightarrow> chunk_row list \<Rightarrow> database \<Rightarrow> database" where
  "with_document d cs db = db\<lparr>db_documents := db_documents db @ [d], db_chunks := db_chunks db @ cs\<rparr>"

lemma with_document_sel [simp]:
  "db_documents (with_document d cs db) = db_documents db @ [d]"
  "db_chunks (with_document d cs db) = db_chunks db @ cs"
  "db_jobs (with_document d cs db) = db_jobs db" "db_dim (with_document d cs db) = db_dim db"
  by (simp_all add: with_document_def)

lemma persist_document_fits:
  assumes "dr_content_hash d \<notin> dr_content_hash ` set (db_documents db)" "dr_id d \<notin> dr_id ` set (db_documents db)"
    and "dr_namespace d \<in> nr_name ` set (db_namespaces db)"
    and "chunks_fit X (with_document d [] db) (map (chunk_row_of (dr_namespace d) (dr_id d)) items)"
  shows "persist_document (tokio_client X) env emb (mock_llm mock_new) d items (open_tx db0 db, w)
    = (Inr (), (open_tx db0 (with_document d (map (chunk_row_of (dr_namespace d) (dr_id d)) items) db), w))"
proof -
  have "with_document d [] db = db\<lparr>db_documents := db_documents db @ [d]\<rparr>" by (simp add: with_document_def)
  with insert_document_new[OF assms(1-3)] have "sql_insert_document d db = Inr (with_document d [] db)" by simp
  then have "on_client (pg_insert_document (tokio_client X) d) (open_tx db0 db, w)
      = (Inr (), (open_tx db0 (with_document d [] db), w))"
    by (simp add: on_client_def tokio_ops open_update[where stmt = "sql_insert_document _"])
  then show ?thesis
    using persist_chunks_fit[OF assms(4)] by (simp add: persist_document_def) (simp add: with_document_def)
qed

lemma run_job_completes_open:
  assumes "read_source env (rq_source req) w = (Inr (name, bs), w)" and "is_utf8 bs"
    and "chunker_chunk (ie_chunkshop env)
      (chunker_new (unwrap_or chunk_strategy_default (chunk_strategy_parse (rq_chunk_strategy req)))) bs = Inr chunks"
    and "chunks \<noteq> []" and "em_embed_batch emb (map ch_text chunks) w = (Inr vs, w1)" and "length vs = length chunks"
    and "draws (ie_new_v4 env) (length chunks) w1 = (ids, w2)" and "ie_new_v4 env w2 = (i, w3)"
    and "d = \<lparr>dr_id = i, dr_namespace = rq_namespace req, dr_source = name,
           dr_content_hash = content_hash (ie_sha env) bs, dr_title = None\<rparr>"
    and "cs = map (chunk_row_of (rq_namespace req) i) (zip ids (zip chunks vs))"
    and "dr_content_hash d \<notin> dr_content_hash ` set (db_documents db)" and "i \<notin> dr_id ` set (db_documents db)"
    and "rq_namespace req \<in> nr_name ` set (db_namespaces db)" and "chunks_fit X (with_document d [] db) cs"
  shows "run_job (tokio_client X) env req emb (mock_llm mock_new) (open_tx db0 db, w)
    = (Inr (Completed i (length chunks)), (open_tx db0 (with_document d cs db), w3))"
proof -
  have unknown: "\<not> sql_document_exists (rq_namespace req) (content_hash (ie_sha env) bs) db"
    using assms(9,11) by (auto simp: sql_document_exists_def list_ex_iff image_iff)
  have "persist_document (tokio_client X) env emb (mock_llm mock_new) d (zip ids (zip chunks vs)) (open_tx db0 db, w3)
      = (Inr (), (open_tx db0 (with_document d cs db), w3))"
    using persist_document_fits[where d = d and db = db and X = X and items = "zip ids (zip chunks vs)" and env = env and emb = emb and w = w3] assms(9-14) by simp
  then have "commit_or_rollback (tokio_client X)
      (persist_document (tokio_client X) env emb (mock_llm mock_new) d (zip ids (zip chunks vs))) i (length chunks)
      (open_tx db0 db, w3) = (Inr (Completed i (length chunks)), (open_tx db0 (with_document d cs db), w3))"
    by (simp add: commit_or_rollback_def sr_bind_def on_client_def tokio_ops sr_apply)
  then show ?thesis
    unfolding run_job_def using assms(1-8) unknown
    by (simp add: on_world_def on_client_def tokio_ops open_query sr_apply fresh_def
        fresh_ids_draws[OF assms(7)] sr_bind_def Let_def assms(9)[symmetric])
qed

lemmas run_job_completes = run_job_completes_open[where ?db0.0 = db and db = db for db, folded tx_begin_open]

section \<open>The poll\<close>

text \<open>The row of a job that was claimed once, at \<open>t1\<close>, and completed at \<open>t2\<close>.\<close>

definition completed_row :: "int \<Rightarrow> int \<Rightarrow> job_row \<Rightarrow> job_row" where
  "completed_row t1 t2 j = j\<lparr>jb_status := JobCompleted, jb_error := None, jb_attempt_count := jb_attempt_count j + 1,
     jb_started_at := Some t1, jb_finished_at := Some t2, jb_updated_at := t2\<rparr>"

definition claimed_row :: "int \<Rightarrow> job_row \<Rightarrow> job_row" where
  "claimed_row now j = j\<lparr>jb_status := Running, jb_started_at := Some now, jb_updated_at := now,
     jb_attempt_count := jb_attempt_count j + 1\<rparr>"

lemma claim_only_job:
  assumes "list_all (\<lambda>j. jb_status j \<noteq> Queued) js" and "\<not> list_ex (\<lambda>j. jb_id j = i) js"
    and "j = queued_row t0 i source ns strategy payload"
  shows "sql_claim [] t1 (db\<lparr>db_jobs := js @ [j]\<rparr>)
    = Inr (Some (claimed_row t1 j), db\<lparr>db_jobs := js @ [claimed_row t1 j]\<rparr>)"
proof -
  have "filter (\<lambda>j. jb_status j = Queued \<and> jb_id j \<notin> set []) (js @ [j]) = [j]"
    using assms(1,3) by (simp add: filter_empty_conv list_all_iff queued_row_def)
  moreover have "map (\<lambda>x. if jb_id x = i then g else x) js = js" for g
    using assms(2) by (intro map_idI) (auto simp: list_ex_iff)
  ultimately show ?thesis
    using assms(3) by (simp add: sql_claim_def Let_def queued_row_def i32_max_def claimed_row_def)
qed

lemma complete_only_job:
  assumes "\<not> list_ex (\<lambda>j. jb_id j = i) js" and "jb_id j = i"
  shows "complete_job t2 i (db\<lparr>db_jobs := js @ [claimed_row t1 j]\<rparr>) = db\<lparr>db_jobs := js @ [completed_row t1 t2 j]\<rparr>"
proof -
  have "map (\<lambda>x. if jb_id x = i then f x else x) js = js" for f
    using assms(1) by (intro map_idI) (auto simp: list_ex_iff)
  with assms(2) show ?thesis
    by (simp add: complete_job_def update_job_def claimed_row_def completed_row_def)
qed

lemma distinct_map_append:
  "distinct (map f xs) \<Longrightarrow> distinct (map f ys) \<Longrightarrow> (\<And>x y. x \<in> set xs \<Longrightarrow> y \<in> set ys \<Longrightarrow> f x \<noteq> f y)
     \<Longrightarrow> distinct (map f (xs @ ys))"
  by auto

text \<open>What a new document needs of the identifiers drawn and of the embedder, for the schema as it stands.\<close>

lemma chunk_rows_columns:
  assumes "length ids = length chunks" "length chunks = length vs"
  shows "map cw_id (map (chunk_row_of ns i) (zip ids (zip chunks vs))) = ids"
    and "map cw_text (map (chunk_row_of ns i) (zip ids (zip chunks vs))) = map ch_text chunks"
    and "map cw_ord (map (chunk_row_of ns i) (zip ids (zip chunks vs))) = map ch_ord chunks"
    and "map cw_embedding (map (chunk_row_of ns i) (zip ids (zip chunks vs))) = vs"
  using assms by (induction ids chunks vs rule: list_induct3) (simp_all add: chunk_row_of_def)

lemma chunks_fitI:
  assumes "db_ok db" and "length ids = length chunks" and "length vs = length chunks"
    and "distinct ids" and "set ids \<inter> cw_id ` set (db_chunks db) = {}" and "distinct (map ch_ord chunks)"
    and "dr_id d \<notin> dr_id ` set (db_documents db)"
    and "\<forall>v \<in> set vs. px_vector_in X (vector_literal v) = Inr v \<and> length v = db_dim db"
  shows "chunks_fit X (with_document d [] db) (map (chunk_row_of ns (dr_id d)) (zip ids (zip chunks vs)))"
proof -
  define cs where "cs = map (chunk_row_of ns (dr_id d)) (zip ids (zip chunks vs))"
  have doc: "cw_document_id c = dr_id d" if "c \<in> set cs" for c
    using that by (auto simp: cs_def chunk_row_of_def)
  have ids: "map cw_id cs = ids" and ords: "map cw_ord cs = map ch_ord chunks"
    unfolding cs_def using assms(2,3) by (simp_all only: chunk_rows_columns)
  have emb: "cw_embedding c \<in> set vs" if "c \<in> set cs" for c
    using that by (auto simp: cs_def chunk_row_of_def dest!: set_zip_rightD)
  have "distinct (map cw_id (db_chunks db @ cs))"
    unfolding map_append ids using assms(1,4,5) by (auto simp: db_ok_def)
  moreover have "distinct (map (\<lambda>c. (cw_document_id c, cw_ord c)) (db_chunks db @ cs))"
  proof -
    have "distinct (map cw_ord cs)" unfolding ords by (rule assms(6))
    then have "distinct (map (\<lambda>c. (cw_document_id c, cw_ord c)) cs)"
      unfolding distinct_map by (auto simp: inj_on_def)
    moreover have "cw_document_id c \<noteq> dr_id d" if "c \<in> set (db_chunks db)" for c
    proof -
      have "cw_document_id c \<in> dr_id ` set (db_documents db)" using that assms(1) by (simp add: db_ok_def)
      with assms(7) show ?thesis by metis
    qed
    moreover have "distinct (map (\<lambda>c. (cw_document_id c, cw_ord c)) (db_chunks db))"
      using assms(1) by (simp add: db_ok_def)
    ultimately show ?thesis using doc by (intro distinct_map_append) auto
  qed
  ultimately show ?thesis
    unfolding cs_def[symmetric] chunks_fit_def with_document_sel using assms(8) emb doc by auto
qed

lemma process_one_completes:
  assumes "list_all (\<lambda>j. jb_status j \<noteq> Queued) (db_jobs db)"
    and "ingest_text t0 job name txt ns strategy db = Inr (job, db0)"
    and "\<And>db1. data_of db1 = data_of db \<Longrightarrow> db_namespaces db1 = db_namespaces db \<Longrightarrow> db_dim db1 = db_dim db \<Longrightarrow>
      run_job (tokio_client X) env \<lparr>rq_source = row_to_ingest_source name (Some txt), rq_namespace = ns,
          rq_chunk_strategy = strategy\<rparr> emb (mock_llm mock_new) (tx_begin [] db1, w)
        = (Inr out, (open_tx db1 (with_document d cs db1), w'))"
  shows "process_one X env dbg no_faults [] t1 t2 emb (db0, w)
    = (Inr (POCompleted job),
       with_document d cs db\<lparr>db_jobs := db_jobs db
         @ [completed_row t1 t2 (queued_row t0 job name ns strategy (Some txt))]\<rparr>, w')"
proof -
  let ?q = "queued_row t0 job name ns strategy (Some txt)"
  let ?db1 = "db\<lparr>db_jobs := db_jobs db @ [claimed_row t1 ?q]\<rparr>"
  from assms(2) have new: "\<not> list_ex (\<lambda>j. jb_id j = job) (db_jobs db)" and db0: "db0 = db\<lparr>db_jobs := db_jobs db @ [?q]\<rparr>"
    by (auto simp: ingest_text_def enqueue_payload_def sql_enqueue_def queued_row_def split: if_splits)
  have sel: "jb_id ?q = job" "jb_id (claimed_row t1 ?q) = job"
    by (simp_all add: queued_row_def claimed_row_def)
  have "build_request (claimed_of (claimed_row t1 ?q)) = \<lparr>rq_source = row_to_ingest_source name (Some txt),
      rq_namespace = ns, rq_chunk_strategy = strategy\<rparr>"
    by (simp add: build_request_def claimed_of_def claimed_row_def queued_row_def)
  moreover have "with_document d cs ?db1 = with_document d cs db\<lparr>db_jobs := db_jobs db @ [claimed_row t1 ?q]\<rparr>"
    by (simp add: with_document_def)
  moreover note run = assms(3)[of ?db1]
  ultimately have "run_job (tokio_client X) env (build_request (claimed_of (claimed_row t1 ?q))) emb (mock_llm mock_new)
      (tx_begin [] ?db1, w) = (Inr out, (open_tx ?db1 (with_document d cs db\<lparr>db_jobs := db_jobs db @ [claimed_row t1 ?q]\<rparr>), w'))"
    by (simp add: data_of_def)
  moreover have "cj_id (claimed_of (claimed_row t1 ?q)) = job" using sel(2) by (simp add: claimed_of_def)
  ultimately show ?thesis
    unfolding process_one_def claim_next_job_def no_faults_def db0
    using claim_only_job[OF assms(1) new refl] complete_only_job[OF new sel(1), where db = "with_document d cs db"]
    by (simp add: Let_def tx_commit_def)
qed

section \<open>The query\<close>

lemma vec_lane_all:
  assumes "c \<in> set (db_chunks db)" and "cw_namespace c = ns" and "uses_vector m"
    and "length (filter (\<lambda>c. cw_namespace c = ns) (db_chunks db)) \<le> 50"
  shows "cw_id c \<in> fst ` set (vec_lane Y m v None ns db)"
proof -
  let ?cs = "filter (\<lambda>c. cw_namespace c = ns) (db_chunks db)"
  let ?le = "\<lambda>a b. sql_float_le (rx_distance Y (cw_embedding a) v) (rx_distance Y (cw_embedding b) v)"
  have lane: "vec_lane Y m v None ns db = numbered (map cw_id (stable_sort ?le ?cs))"
    using assms(3,4) by (simp add: vec_lane_def passes_def)
  have "fst ` set (vec_lane Y m v None ns db) = set (map fst (vec_lane Y m v None ns db))" by simp
  also have "\<dots> = cw_id ` set ?cs" unfolding lane by simp
  finally show ?thesis using assms(1,2) by auto
qed

lemma query_returns:
  assumes "retr_ok Y" and "distinct (map cw_id (db_chunks db))" and "mode_parse mode = Some m" "uses_vector m"
    and "embed_fn q = Inr v" and "length (filter (\<lambda>c. cw_namespace c = ns) (db_chunks db)) \<le> 50"
    and "int (length (filter (\<lambda>c. cw_namespace c = ns) (db_chunks db))) \<le> sint top_k"
  shows "\<exists>out. pgrg_query J Y embed_fn render q None top_k ns hops weights mode db = Inr out
    \<and> (\<forall>c \<in> set (db_chunks db). cw_namespace c = ns
         \<longrightarrow> (\<exists>r \<in> set out. qr_chunk_id r = cw_id c \<and> qr_document_id r = cw_document_id c \<and> qr_text r = cw_text c))"
proof -
  define u where "u = union_lanes Y m q v None ns hops (query_weights J weights) db"
  let ?cs = "filter (\<lambda>c. cw_namespace c = ns) (db_chunks db)"
  let ?le = "\<lambda>a b. sql_float_le (qr_score b) (qr_score a)"
  note facts = fused_rows_facts[OF assms(1,2) u_def]
  have "fst ` set u \<subseteq> cw_id ` set ?cs" using union_facts(1)[OF assms(1,2) u_def] by auto
  then have "card (fst ` set u) \<le> length ?cs"
    by (metis List.finite_set card_image_le card_length card_mono finite_imageI le_trans)
  then have "take (nat (sint top_k)) (stable_sort ?le (fused_rows Y u db)) = stable_sort ?le (fused_rows Y u db)"
    using facts(3) assms(7) by simp
  then have "pgrg_query J Y embed_fn render q None top_k ns hops weights mode db = Inr (stable_sort ?le (fused_rows Y u db))"
    using assms(3,5,7) by (simp add: pgrg_query_def run_query_def u_def)
  moreover have "fused_row u c \<in> set (fused_rows Y u db)" if "c \<in> set (db_chunks db)" "cw_namespace c = ns" for c
  proof -
    have "cw_id c \<in> fst ` set u"
      using vec_lane_all[OF that assms(4,6), of Y v] by (simp add: u_def union_lanes_def image_Un)
    with that(1) show ?thesis unfolding facts(2) by blast
  qed
  moreover have "qr_chunk_id (fused_row u c) = cw_id c \<and> qr_document_id (fused_row u c) = cw_document_id c
      \<and> qr_text (fused_row u c) = cw_text c" for c
    by (simp add: fused_row_def Let_def)
  ultimately show ?thesis by (intro exI[of _ "stable_sort ?le (fused_rows Y u db)"]) (auto intro!: bexI)
qed

section \<open>From the text to the answer of a query\<close>

text \<open>The poll that takes a text from an idle queue stores it.\<close>

lemma poll_stores_text:
  assumes db: "db_ok db" and idle: "list_all (\<lambda>j. jb_status j \<noteq> Queued) (db_jobs db)"
    and enq: "ingest_text t0 job name txt ns strategy db = Inr (job, db0)" and utf8: "is_utf8 txt"
    and ns: "ns \<in> nr_name ` set (db_namespaces db)"
    and new: "content_hash (ie_sha env) txt \<notin> dr_content_hash ` set (db_documents db)"
    and chunks: "chunker_chunk (ie_chunkshop env)
        (chunker_new (unwrap_or chunk_strategy_default (chunk_strategy_parse strategy))) txt = Inr chunks"
      "chunks \<noteq> []" "distinct (map ch_ord chunks)"
    and vs: "em_embed_batch emb (map ch_text chunks) w = (Inr vs, w1)" "length vs = length chunks"
      "\<forall>v \<in> set vs. px_vector_in X (vector_literal v) = Inr v \<and> length v = db_dim db"
    and ids: "draws (ie_new_v4 env) (length chunks) w1 = (ids, w2)" "ie_new_v4 env w2 = (i, w3)"
      "distinct ids" "set ids \<inter> cw_id ` set (db_chunks db) = {}" "i \<notin> dr_id ` set (db_documents db)"
    and d: "d = \<lparr>dr_id = i, dr_namespace = ns, dr_source = name,
      dr_content_hash = content_hash (ie_sha env) txt, dr_title = None\<rparr>"
    and cs: "cs = map (chunk_row_of ns i) (zip ids (zip chunks vs))"
  shows "process_one X env dbg no_faults [] t1 t2 emb (db0, w)
      = (Inr (POCompleted job), with_document d cs db\<lparr>db_jobs := db_jobs db
          @ [completed_row t1 t2 (queued_row t0 job name ns strategy (Some txt))]\<rparr>, w3)"
    and "distinct (map cw_id (db_chunks db @ cs))" and "length ids = length chunks"
proof -
  show len: "length ids = length chunks" using ids(1) by (metis draws_length)
  have fit: "chunks_fit X (with_document d [] db) cs"
    using chunks_fitI[OF db len vs(2) ids(3,4) chunks(3), of d] ids(5) vs(3) by (simp add: cs d)
  then show "distinct (map cw_id (db_chunks db @ cs))" by (simp add: chunks_fit_def)
  have run: "run_job (tokio_client X) env \<lparr>rq_source = row_to_ingest_source name (Some txt), rq_namespace = ns,
        rq_chunk_strategy = strategy\<rparr> emb (mock_llm mock_new) (tx_begin [] db1, w)
      = (Inr (Completed i (length chunks)), (open_tx db1 (with_document d cs db1), w3))"
    if "data_of db1 = data_of db" "db_namespaces db1 = db_namespaces db" "db_dim db1 = db_dim db" for db1
  proof (rule run_job_completes[OF _ utf8 _ chunks(2) vs(1,2) ids(1,2) _ _ _ _ _ _])
    show "read_source env (rq_source \<lparr>rq_source = row_to_ingest_source name (Some txt), rq_namespace = ns,
        rq_chunk_strategy = strategy\<rparr>) w = (Inr (name, txt), w)"
      using utf8 by (simp add: row_to_ingest_source_def)
    show "chunks_fit X (with_document d [] db1) cs"
      using fit that by (simp add: chunks_fit_def data_of_def)
  qed (use chunks(1) ids(5) ns new that in \<open>simp_all add: d cs data_of_def\<close>)
  show "process_one X env dbg no_faults [] t1 t2 emb (db0, w)
      = (Inr (POCompleted job), with_document d cs db\<lparr>db_jobs := db_jobs db
          @ [completed_row t1 t2 (queued_row t0 job name ns strategy (Some txt))]\<rparr>, w3)"
    by (rule process_one_completes[OF idle enq run])
qed

text \<open>
  C4 (ingest, then query): a text enqueued with \<open>ingest_text\<close> on an idle queue is completed by the next
  poll, whatever the worker, when its namespace exists, its hash is new, the chunker gives chunks with
  distinct positions, the embedder gives vectors of the column's dimension that \<open>pgvector\<close> reads back,
  and the identifiers drawn are new. The database then differs from the one before in exactly the
  document, its chunks and the completed job, and a query in a mode with the vector lane returns every
  chunk of the text, as long as the namespace has at most 50 chunks and no more than \<open>top_k\<close>.
\<close>

theorem ingest_then_query:
  assumes db: "db_ok db" and idle: "list_all (\<lambda>j. jb_status j \<noteq> Queued) (db_jobs db)"
    and enq: "ingest_text t0 job name txt ns strategy db = Inr (job, db0)" and utf8: "is_utf8 txt"
    and ns: "ns \<in> nr_name ` set (db_namespaces db)"
    and new: "content_hash (ie_sha env) txt \<notin> dr_content_hash ` set (db_documents db)"
    and chunks: "chunker_chunk (ie_chunkshop env)
        (chunker_new (unwrap_or chunk_strategy_default (chunk_strategy_parse strategy))) txt = Inr chunks"
      "chunks \<noteq> []" "distinct (map ch_ord chunks)"
    and vs: "em_embed_batch emb (map ch_text chunks) w = (Inr vs, w1)" "length vs = length chunks"
      "\<forall>v \<in> set vs. px_vector_in X (vector_literal v) = Inr v \<and> length v = db_dim db"
    and ids: "draws (ie_new_v4 env) (length chunks) w1 = (ids, w2)" "ie_new_v4 env w2 = (i, w3)"
      "distinct ids" "set ids \<inter> cw_id ` set (db_chunks db) = {}" "i \<notin> dr_id ` set (db_documents db)"
    and query: "retr_ok Y" "mode_parse mode = Some m" "uses_vector m" "embed_fn q = Inr qv"
    and few: "length (filter (\<lambda>c. cw_namespace c = ns) (db_chunks db)) + length chunks \<le> 50"
      "int (length (filter (\<lambda>c. cw_namespace c = ns) (db_chunks db)) + length chunks) \<le> sint top_k"
  shows "\<exists>db' out cs.
      process_one X env dbg no_faults [] t1 t2 emb (db0, w) = (Inr (POCompleted job), db', w3)
    \<and> map cw_text cs = map ch_text chunks \<and> map cw_embedding cs = vs \<and> map cw_ord cs = map ch_ord chunks
    \<and> db' = db\<lparr>db_documents := db_documents db @ [\<lparr>dr_id = i, dr_namespace = ns, dr_source = name,
                 dr_content_hash = content_hash (ie_sha env) txt, dr_title = None\<rparr>],
               db_chunks := db_chunks db @ cs,
               db_jobs := db_jobs db
                 @ [completed_row t1 t2 (queued_row t0 job name ns strategy (Some txt))]\<rparr>
    \<and> pgrg_query J Y embed_fn render q None top_k ns hops weights mode db' = Inr out
    \<and> (\<forall>c \<in> set cs. \<exists>r \<in> set out. qr_chunk_id r = cw_id c \<and> qr_document_id r = i \<and> qr_text r = cw_text c)"
proof -
  define d where "d = \<lparr>dr_id = i, dr_namespace = ns, dr_source = name,
    dr_content_hash = content_hash (ie_sha env) txt, dr_title = None\<rparr>"
  define cs where "cs = map (chunk_row_of ns i) (zip ids (zip chunks vs))"
  define db' where "db' = with_document d cs db\<lparr>db_jobs := db_jobs db
    @ [completed_row t1 t2 (queued_row t0 job name ns strategy (Some txt))]\<rparr>"
  note poll = poll_stores_text[OF db idle enq utf8 ns new chunks vs ids d_def cs_def]
  have texts: "map cw_text cs = map ch_text chunks" "map cw_embedding cs = vs" "map cw_ord cs = map ch_ord chunks"
    unfolding cs_def using poll(3) vs(2) by (simp_all only: chunk_rows_columns)
  have cs: "cw_namespace c = ns \<and> cw_document_id c = i" if "c \<in> set cs" for c
    using that by (auto simp: cs_def chunk_row_of_def)
  have rows: "db_chunks db' = db_chunks db @ cs" by (simp add: db'_def)
  have count: "length (filter (\<lambda>c. cw_namespace c = ns) (db_chunks db'))
      = length (filter (\<lambda>c. cw_namespace c = ns) (db_chunks db)) + length chunks"
    using cs poll(3) vs(2) by (simp add: rows cs_def)
  from query_returns[where embed_fn = embed_fn and q = q and ns = ns and top_k = top_k and J = J
      and render = render and hops = hops and weights = weights, OF query(1) poll(2)[folded rows] query(2-4)] few
  obtain out where out: "pgrg_query J Y embed_fn render q None top_k ns hops weights mode db' = Inr out"
    "\<forall>c \<in> set (db_chunks db'). cw_namespace c = ns
       \<longrightarrow> (\<exists>r \<in> set out. qr_chunk_id r = cw_id c \<and> qr_document_id r = cw_document_id c \<and> qr_text r = cw_text c)"
    unfolding count by blast
  then have "\<exists>r \<in> set out. qr_chunk_id r = cw_id c \<and> qr_document_id r = i \<and> qr_text r = cw_text c"
    if "c \<in> set cs" for c
    using that cs[OF that] by (metis rows Un_iff set_append)
  with out(1) show ?thesis
    using poll(1) texts
    by (intro exI[of _ db'] exI[of _ out] exI[of _ cs]) (simp add: db'_def with_document_def d_def)
qed

theorem ingest_then_query_witness:
  "\<exists>db0 db' out. ingest_text 0 (Uuid 77) ''a.txt'' ''hi'' ''ns'' ''auto'' demo_db = Inr (Uuid 77, db0)
    \<and> process_one demo_ext demo_env (\<lambda>_. []) no_faults [] 5 6 demo_embedder (db0, 0)
        = (Inr (POCompleted (Uuid 77)), db', 2)
    \<and> pgrg_query (jv_api []) demo_retr (\<lambda>_. Inr [Fin 1]) (\<lambda>_. []) ''q'' None 10 ''ns'' 0 None ''hybrid'' db' = Inr out
    \<and> out \<noteq> []"
proof -
  let ?db0 = "demo_db\<lparr>db_jobs := [queued_row 0 (Uuid 77) ''a.txt'' ''ns'' ''auto'' (Some ''hi'')]\<rparr>"
  have enq: "ingest_text 0 (Uuid 77) ''a.txt'' ''hi'' ''ns'' ''auto'' demo_db = Inr (Uuid 77, ?db0)"
    by (simp add: ingest_text_def enqueue_payload_def sql_enqueue_def demo_db_def)
  have "\<exists>db' out cs. process_one demo_ext demo_env (\<lambda>_. []) no_faults [] 5 6 demo_embedder (?db0, 0)
      = (Inr (POCompleted (Uuid 77)), db', 2)
    \<and> map cw_text cs = map ch_text [\<lparr>ch_ord = 0, ch_text = ''hi'', ch_token_count = 1\<rparr>] \<and> map cw_embedding cs = [[Fin 1]]
    \<and> map cw_ord cs = map ch_ord [\<lparr>ch_ord = 0, ch_text = ''hi'', ch_token_count = 1\<rparr>]
    \<and> db' = demo_db\<lparr>db_documents := db_documents demo_db @ [\<lparr>dr_id = Uuid 1, dr_namespace = ''ns'', dr_source = ''a.txt'',
                 dr_content_hash = content_hash (ie_sha demo_env) ''hi'', dr_title = None\<rparr>],
               db_chunks := db_chunks demo_db @ cs,
               db_jobs := db_jobs demo_db
                 @ [completed_row 5 6 (queued_row 0 (Uuid 77) ''a.txt'' ''ns'' ''auto'' (Some ''hi''))]\<rparr>
    \<and> pgrg_query (jv_api []) demo_retr (\<lambda>_. Inr [Fin 1]) (\<lambda>_. []) ''q'' None 10 ''ns'' 0 None ''hybrid'' db' = Inr out
    \<and> (\<forall>c \<in> set cs. \<exists>r \<in> set out. qr_chunk_id r = cw_id c \<and> qr_document_id r = Uuid 1 \<and> qr_text r = cw_text c)"
    by (rule ingest_then_query[OF demo_db_ok _ enq, where ids = "[Uuid 0]" and ?w1.0 = 0 and ?w2.0 = 1 and m = Hybrid
        and qv = "[Fin 1]"])
      (simp_all add: demo_db_def demo_env_def demo_embedder_def demo_chunk is_utf8_ascii demo_ext_def sr_bind_def
        sr_apply chunk_strategy_parse_def demo_retr_ok mode_parse_def uses_vector_def)
  then obtain db' out and cs :: "chunk_row list" where run: "process_one demo_ext demo_env (\<lambda>_. []) no_faults [] 5 6 demo_embedder (?db0, 0)
      = (Inr (POCompleted (Uuid 77)), db', 2)"
    "pgrg_query (jv_api []) demo_retr (\<lambda>_. Inr [Fin 1]) (\<lambda>_. []) ''q'' None 10 ''ns'' 0 None ''hybrid'' db' = Inr out"
    and texts: "map cw_text cs = map ch_text [\<lparr>ch_ord = 0, ch_text = ''hi'', ch_token_count = 1\<rparr>]"
    and found: "\<forall>c \<in> set cs. \<exists>r \<in> set out. qr_chunk_id r = cw_id c \<and> qr_document_id r = Uuid 1 \<and> qr_text r = cw_text c"
    by blast
  from texts obtain c where "c \<in> set cs" by (cases cs) auto
  with found have "out \<noteq> []" by auto
  with enq run show ?thesis by blast
qed

end
