(* ===== verification/PgTests.thy ===== *)
theory PgTests
  imports Admin Fixture Startup EndToEnd Worker
begin

text \<open>
  The tests of the extension (\<^verbatim>\<open>pg_raggraph/src/lib.rs\<close>, module \<open>tests\<close>), replayed on the model. A test
  is a definition under its own name, with its statements as operations of the model and its assertions
  as conjuncts; a lemma shows that it holds. What a test asserts of the server rather than of the program
  (catalog columns, index plans, elapsed time) is left out, and so are the tests that assert nothing else.
  A session starts from the tables \<open>CREATE EXTENSION\<close> leaves, and \<open>now()\<close> is the same throughout.
\<close>

section \<open>The harness\<close>

text \<open>\<open>Spi::run(...).unwrap()\<close> before the rest of a test, and a call under \<open>catch_unwind\<close>.\<close>

definition runs :: "'e + 'a \<Rightarrow> ('a \<Rightarrow> bool) \<Rightarrow> bool" where
  "runs r k = (case r of Inl _ \<Rightarrow> False | Inr a \<Rightarrow> k a)"

definition raises :: "'e + 'a \<Rightarrow> bool" where
  "raises r = (case r of Inl _ \<Rightarrow> True | Inr _ \<Rightarrow> False)"

lemma runs_simps [simp]: "runs (Inr a) k = k a" "raises (Inl e)" "\<not> raises (Inr a)"
  by (simp_all add: runs_def raises_def)

definition installed_db :: database where
  "installed_db = \<lparr>db_dim = 384,
     db_namespaces = [\<lparr>nr_name = ''default'', nr_embedding_model = ''bge-small-en-v1.5'', nr_llm_provider = None,
       nr_settings = JObj []\<rparr>],
     db_documents = [], db_chunks = [], db_entities = [], db_relationships = [], db_chunk_entities = [],
     db_jobs = [], db_providers = []\<rparr>"

text \<open>\<open>SELECT pgrg.namespace_create('...')\<close> with its defaults, outside parity mode.\<close>

definition create_namespace :: "string \<Rightarrow> database \<Rightarrow> database" where
  "create_namespace name db =
     fst (namespace_create (Some False) name ''bge-small-en-v1.5'' None (JObj []) (db, Hnsw))"

text \<open>A job inserted by hand, and one that is running since ten minutes before \<open>now\<close>.\<close>

definition inserted_job :: "int \<Rightarrow> uuid \<Rightarrow> string \<Rightarrow> string \<Rightarrow> job_row" where
  "inserted_job now i source ns = queued_row now i source ns ''auto'' None"

definition stuck_job :: "int \<Rightarrow> uuid \<Rightarrow> string \<Rightarrow> i32 \<Rightarrow> job_row" where
  "stuck_job now i ns attempts = (inserted_job (now - 600 * 1000000) i ''s.md'' ns)
     \<lparr>jb_status := Running, jb_attempt_count := attempts, jb_started_at := Some (now - 600 * 1000000)\<rparr>"

definition job_with :: "uuid \<Rightarrow> database \<Rightarrow> job_row option" where
  "job_with i db = find (\<lambda>j. jb_id j = i) (db_jobs db)"

definition count_namespaces :: "string \<Rightarrow> database \<Rightarrow> nat" where
  "count_namespaces name db = length (filter (\<lambda>n. nr_name n = name) (db_namespaces db))"

section \<open>Namespaces, documents, status\<close>

definition namespace_create_inserts_row :: bool where
  "namespace_create_inserts_row \<longleftrightarrow> count_namespaces ''test_ns'' (create_namespace ''test_ns'' installed_db) = 1"

definition namespace_drop_removes_row :: bool where
  "namespace_drop_removes_row \<longleftrightarrow>
     runs (namespace_drop ''drop_me'' False (create_namespace ''drop_me'' installed_db))
       (\<lambda>db. count_namespaces ''drop_me'' db = 0)"

definition default_namespace_present :: bool where
  "default_namespace_present \<longleftrightarrow> count_namespaces ''default'' installed_db = 1"

definition health_returns_expected_keys :: "string \<Rightarrow> int list \<Rightarrow> bool" where
  "health_returns_expected_keys version versions \<longleftrightarrow>
     (case health version 2 versions installed_db of
        JObj kvs \<Rightarrow> list_all (\<lambda>k. k \<in> fst ` set kvs) [''version'', ''schema_version'', ''queue_depth'', ''bgw_workers'']
          \<and> map_of kvs ''bgw_workers'' = Some (JInt 2) \<and> map_of kvs ''queue_depth'' = Some (JInt 0)
          \<and> (\<exists>v. map_of kvs ''version'' = Some (JStr v) \<and> take 5 v = ''0.1.0'')
      | _ \<Rightarrow> False)"

definition status_summary_has_zero_jobs :: "(uuid \<Rightarrow> string) \<Rightarrow> bool" where
  "status_summary_has_zero_jobs show_uuid \<longleftrightarrow>
     runs (status show_uuid None None installed_db)
       (\<lambda>json. case json of
          Some (JObj kvs) \<Rightarrow> list_all (\<lambda>k. map_of kvs k = Some (JInt 0)) [''queued'', ''running'', ''completed'', ''failed'']
        | _ \<Rightarrow> False)"

definition status_unknown_job_returns_null :: "(uuid \<Rightarrow> string) \<Rightarrow> bool" where
  "status_unknown_job_returns_null show_uuid \<longleftrightarrow>
     runs (status show_uuid None (Some (Uuid 0)) installed_db) (\<lambda>json. json = None)"

definition status_propagates_non_invalid_position_errors :: "(uuid \<Rightarrow> string) \<Rightarrow> int \<Rightarrow> bool" where
  "status_propagates_non_invalid_position_errors show_uuid now \<longleftrightarrow>
     runs (status show_uuid None (Some (Uuid 0)) installed_db) (\<lambda>null_result. null_result = None \<and>
     runs (sql_enqueue (inserted_job now (Uuid 4) ''test.md'' ''status_test_ns'')
         (create_namespace ''status_test_ns'' installed_db)) (\<lambda>db.
     runs (status show_uuid None (Some (Uuid 4)) db) (\<lambda>found.
       case found of Some (JObj kvs) \<Rightarrow> map_of kvs ''status'' = Some (JStr ''queued'') | _ \<Rightarrow> False)))"

text \<open>The chunk of this test has no embedding; the column is nullable, the model's row holds a vector.\<close>

definition delete_document_removes_chunks_via_cascade :: "pg_ext \<Rightarrow> f32 list \<Rightarrow> uuid \<Rightarrow> bool" where
  "delete_document_removes_chunks_via_cascade X v chunk_id \<longleftrightarrow>
     runs (sql_insert_document \<lparr>dr_id = Uuid 1, dr_namespace = ''del_doc_ns'', dr_source = ''a.md'',
         dr_content_hash = ''hash1'', dr_title = None\<rparr> (create_namespace ''del_doc_ns'' installed_db)) (\<lambda>db1.
     runs (sql_insert_chunk X \<lparr>cw_id = chunk_id, cw_document_id = Uuid 1, cw_namespace = ''del_doc_ns'', cw_ord = 0,
         cw_text = ''hi'', cw_token_count = 1, cw_embedding = v\<rparr> (vector_literal v) db1) (\<lambda>db2.
       let db3 = snd (delete_document (Uuid 1) db2)
       in filter (\<lambda>d. dr_id d = Uuid 1) (db_documents db3) = []
          \<and> filter (\<lambda>c. cw_namespace c = ''del_doc_ns'') (db_chunks db3) = []))"

definition delete_namespace_without_cascade_blocks_when_docs_exist :: "uuid \<Rightarrow> bool" where
  "delete_namespace_without_cascade_blocks_when_docs_exist i \<longleftrightarrow>
     runs (sql_insert_document \<lparr>dr_id = i, dr_namespace = ''blocked_ns'', dr_source = ''b.md'',
         dr_content_hash = ''hashB'', dr_title = None\<rparr> (create_namespace ''blocked_ns'' installed_db)) (\<lambda>db.
       raises (namespace_drop ''blocked_ns'' False db))"

definition parity_mode_creates_ivfflat_indexes :: bool where
  "parity_mode_creates_ivfflat_indexes \<longleftrightarrow>
     snd (namespace_create (Some True) ''parity_ns'' ''bge-small-en-v1.5'' None (JObj []) (installed_db, Hnsw)) = IvfFlat"

lemmas session_defs = create_namespace_def namespace_create_def sql_upsert_namespace_def installed_db_def
  count_namespaces_def inserted_job_def queued_row_def sql_enqueue_def Let_def

lemma namespace_tests:
  "namespace_create_inserts_row" "namespace_drop_removes_row" "default_namespace_present"
  "delete_namespace_without_cascade_blocks_when_docs_exist i" "parity_mode_creates_ivfflat_indexes"
  by (simp_all add: namespace_create_inserts_row_def namespace_drop_removes_row_def default_namespace_present_def
      delete_namespace_without_cascade_blocks_when_docs_exist_def parity_mode_creates_ivfflat_indexes_def
      session_defs namespace_drop_def sql_delete_namespace_def sql_insert_document_def maybe_apply_parity_indexes_def)

lemma status_tests:
  "take 5 version = ''0.1.0'' \<Longrightarrow> health_returns_expected_keys version versions"
  "status_summary_has_zero_jobs show_uuid" "status_unknown_job_returns_null show_uuid"
  "status_propagates_non_invalid_position_errors show_uuid now"
  by (simp_all add: health_returns_expected_keys_def status_summary_has_zero_jobs_def
      status_unknown_job_returns_null_def status_propagates_non_invalid_position_errors_def health_def
      status_def status_summary_def status_counts_def queue_depth_def session_defs)

lemma delete_test:
  "px_vector_in X (vector_literal v) = Inr v \<Longrightarrow> length v = 384
     \<Longrightarrow> delete_document_removes_chunks_via_cascade X v chunk_id"
  by (simp add: delete_document_removes_chunks_via_cascade_def session_defs sql_insert_document_def
      sql_insert_chunk_def sql_vector_def delete_document_def cascade_documents_def Collect_conv_if)

section \<open>Settings\<close>

definition gucs_have_expected_defaults :: bool where
  "gucs_have_expected_defaults \<longleftrightarrow> guc_int boot_settings ''pg_raggraph.bgw_workers'' = 2
     \<and> guc_int boot_settings ''pg_raggraph.embed_dim'' = 384
     \<and> guc_int boot_settings ''pg_raggraph.extract_concurrency'' = 4"

text \<open>The context, and a \<open>SET\<close> by a role that is not a superuser, which fails.\<close>

definition sc012_parity_mode_guc_is_suset :: bool where
  "sc012_parity_mode_guc_is_suset \<longleftrightarrow>
     map_option gu_context (guc_named ''pg_raggraph.parity_mode'') = Some Suset
     \<and> guc_assign boot_settings (SessionSet False, ''pg_raggraph.parity_mode'', GBool True) = boot_settings"

definition master_key_path_guc_is_suset_not_sighup :: bool where
  "master_key_path_guc_is_suset_not_sighup \<longleftrightarrow>
     map_option gu_context (guc_named ''pg_raggraph.master_key_path'') = Some Suset"

definition master_key_path_unset_fires_startup_warning :: bool where
  "master_key_path_unset_fires_startup_warning \<longleftrightarrow> InitWarning master_key_warning \<in> set (pg_init boot_settings True)"

text \<open>The server of the tests preloads the library and asks for two workers.\<close>

definition postgresql_conf_options :: settings where
  "postgresql_conf_options = guc_assign boot_settings (ServerStart, ''pg_raggraph.bgw_workers'', GInt 2)"

definition bgw_workers_registered_under_preload :: bool where
  "bgw_workers_registered_under_preload \<longleftrightarrow>
     length (filter (\<lambda>e. case e of RegisterWorker b \<Rightarrow> take 13 (bw_name b) = ''pg_raggraph w'' | _ \<Rightarrow> False)
       (pg_init postgresql_conf_options True)) = 2"

lemma guc_tests:
  "gucs_have_expected_defaults" "sc012_parity_mode_guc_is_suset" "master_key_path_guc_is_suset_not_sighup"
  "master_key_path_unset_fires_startup_warning" "bgw_workers_registered_under_preload"
  by (simp_all add: gucs_have_expected_defaults_def sc012_parity_mode_guc_is_suset_def
      master_key_path_guc_is_suset_not_sighup_def master_key_path_unset_fires_startup_warning_def
      bgw_workers_registered_under_preload_def postgresql_conf_options_def guc_assign_def guc_int_def
      boot_settings_def guc_named_def register_def define_int_guc_def define_guc_def pg_init_def guc_accepts_def
      register_launcher_def register_workers_def upt_rec fun_eq_iff)

section \<open>Embedding\<close>

text \<open>\<open>pgrg.embed\<close> in a test build: the deterministic backend of the session.\<close>

definition embed_returns_correct_dim_vector :: "(bytes \<Rightarrow> bytes) \<Rightarrow> bool" where
  "embed_returns_correct_dim_vector sha \<longleftrightarrow>
     runs (fst (em_embed (build_backend sha boot_settings) ''hello world'' ())) (\<lambda>v. length v = 384)"

definition embed_is_deterministic :: "(bytes \<Rightarrow> bytes) \<Rightarrow> bool" where
  "embed_is_deterministic sha \<longleftrightarrow>
     runs (fst (em_embed (build_backend sha boot_settings) ''hello world'' ())) (\<lambda>a.
     runs (fst (em_embed (build_backend sha boot_settings) ''hello world'' ())) (\<lambda>b.
       vector_literal a = vector_literal b))"

lemma embed_tests:
  assumes "\<And>x. length (sha x) = 32"
  shows "embed_returns_correct_dim_vector sha" "embed_is_deterministic sha"
proof -
  have dim: "embed_dims (word_of_int (guc_int boot_settings ''pg_raggraph.embed_dim'')) = 384"
    by (simp add: boot_settings_def guc_named_def register_def define_int_guc_def guc_int_def embed_dims_def)
  obtain v where "deterministic_embed sha ''hello world'' 384 = Some v" "length v = 384"
    using deterministic_embed_total[of sha "''hello world''" 384, OF assms] by blast
  then show "embed_returns_correct_dim_vector sha" "embed_is_deterministic sha"
    by (simp_all add: embed_returns_correct_dim_vector_def embed_is_deterministic_def build_backend_def dim
        deterministic_backend_def Let_def sr_apply)
qed

section \<open>Providers\<close>

definition provider_create_then_list ::
  "('k, unit) crypto_api \<Rightarrow> ('h, unit) file_api \<Rightarrow> (string \<Rightarrow> string \<Rightarrow> bool) \<Rightarrow> bool" where
  "provider_create_then_list C F name_le \<longleftrightarrow>
     runs (fst (provider_create C F None ''p1'' ''llm'' ''openai'' (Some ''https://api.openai.com'')
         (Some ''gpt-4o-mini'') (Some ''sk-test-secret-1234567890'') (JObj []) installed_db ())) (\<lambda>db.
       case provider_list name_le db of
         JArr [JObj obj] \<Rightarrow>
           map_of obj ''name'' = Some (JStr ''p1'') \<and> map_of obj ''kind'' = Some (JStr ''llm'')
           \<and> map_of obj ''provider'' = Some (JStr ''openai'')
           \<and> (case map_of obj ''credential'' of
                Some (JStr cred) \<Rightarrow> starts_with ''sk-'' cred \<and> str_contains ''***'' cred \<and> \<not> str_contains ''1234567890'' cred
              | _ \<Rightarrow> False)
       | _ \<Rightarrow> False)"

definition provider_drop_removes_row :: "('k, unit) crypto_api \<Rightarrow> ('h, unit) file_api \<Rightarrow> bool" where
  "provider_drop_removes_row C F \<longleftrightarrow>
     runs (fst (provider_create C F None ''p2'' ''embedding'' ''openai'' (Some ''https://api.openai.com'')
         (Some ''text-embedding-3-small'') (Some ''sk-also-secret'') (JObj []) installed_db ())) (\<lambda>db.
       filter (\<lambda>p. pv_name p = ''p2'') (db_providers (provider_drop ''p2'' db)) = [])"

definition provider_list_redacts_encrypted_and_plaintext_uniformly ::
  "('k, unit) crypto_api \<Rightarrow> ('h, unit) file_api \<Rightarrow> (string \<Rightarrow> string \<Rightarrow> bool) \<Rightarrow> bool" where
  "provider_list_redacts_encrypted_and_plaintext_uniformly C F name_le \<longleftrightarrow>
     runs (fst (provider_create C F None ''plain-p'' ''llm'' ''openai'' None (Some ''gpt-4o'')
         (Some ''sk-plain-secret-AAA'') (JObj []) installed_db ())) (\<lambda>db.
       case provider_list name_le db of
         JArr arr \<Rightarrow>
           (case find (\<lambda>o'. case o' of JObj kvs \<Rightarrow> map_of kvs ''name'' = Some (JStr ''plain-p'') | _ \<Rightarrow> False) arr of
              Some (JObj obj) \<Rightarrow>
                (case map_of obj ''credential'' of
                   Some (JStr cred) \<Rightarrow> starts_with ''sk-'' cred \<and> str_contains ''***'' cred \<and> \<not> str_contains ''secret'' cred
                 | _ \<Rightarrow> False)
            | _ \<Rightarrow> False)
       | _ \<Rightarrow> False)"

text \<open>The key file of these tests: its mode and its bytes.\<close>

definition write_master_key_file :: "32 word \<Rightarrow> bytes \<Rightarrow> (unit, unit) file_api" where
  "write_master_key_file mode bs =
     \<lparr>fi_mode = (\<lambda>_ w. (Inr mode, w)), fi_open = (\<lambda>_ w. (Inr (), w)), fi_read_to_end = (\<lambda>_ w. (Inr bs, w))\<rparr>"

definition master_key_path_with_0644_perms_fails_provider_create :: "('k, unit) crypto_api \<Rightarrow> bool" where
  "master_key_path_with_0644_perms_fails_provider_create C \<longleftrightarrow>
     raises (fst (provider_create C (write_master_key_file 0x1A4 (replicate 32 (CHR 0x00))) (Some ''key'') ''badperm-p''
       ''llm'' ''openai'' None (Some ''gpt-4o'') (Some ''sk-x'') (JObj []) installed_db ()))"

definition master_key_path_with_0600_perms_succeeds :: "('k, unit) crypto_api \<Rightarrow> bool" where
  "master_key_path_with_0600_perms_succeeds C \<longleftrightarrow>
     runs (fst (provider_create C (write_master_key_file 0x180 (replicate 32 (CHR 0xAA))) (Some ''key'') ''goodperm-p''
       ''llm'' ''openai'' None (Some ''gpt-4o'') (Some ''sk-x'') (JObj []) installed_db ())) (\<lambda>db.
       length (filter (\<lambda>p. pv_name p = ''goodperm-p'') (db_providers db)) = 1)"

lemma provider_tests:
  "provider_create_then_list C F name_le" "provider_drop_removes_row C F"
  "provider_list_redacts_encrypted_and_plaintext_uniformly C F name_le"
  by (simp_all add: provider_create_then_list_def provider_drop_removes_row_def
      provider_list_redacts_encrypted_and_plaintext_uniformly_def provider_create_def stored_credential_def
      load_master_key_def sql_upsert_provider_def provider_drop_def installed_db_def provider_list_def
      provider_json_def json_opt_def is_encrypted_def starts_with_def ENV_PREFIX_def redact_def chars_def
      char_indices_def uchars_ascii str_contains_def Let_def)

lemma key_file_tests:
  "master_key_path_with_0644_perms_fails_provider_create C"
  by (simp add: master_key_path_with_0644_perms_fails_provider_create_def provider_create_def stored_credential_def
      load_master_key_def load_from_path_def write_master_key_file_def group_world_bits_def file_step_def sr_bind_def
      sr_apply is_encrypted_def starts_with_def ENV_PREFIX_def installed_db_def)

lemma readable_key_file_test:
  assumes "fst (encrypt_v1 C ''sk-x'' (replicate 32 (CHR 0xAA)) ()) = Inr s"
  shows "master_key_path_with_0600_perms_succeeds C"
proof -
  have enc: "encrypt_v1 C ''sk-x'' (replicate 32 (CHR 0xAA)) () = (Inr s, ())"
    using assms by (cases "encrypt_v1 C ''sk-x'' (replicate 32 (CHR 0xAA)) ()") simp
  show ?thesis
    by (simp add: master_key_path_with_0600_perms_succeeds_def provider_create_def stored_credential_def
        load_master_key_def load_from_path_def write_master_key_file_def group_world_bits_def file_step_def sr_bind_def
        sr_return_def sr_apply is_encrypted_def starts_with_def ENV_PREFIX_def installed_db_def MASTER_KEY_LEN_def enc
        sql_upsert_provider_def)
qed

section \<open>The queue\<close>

text \<open>A claim and what the caller does with the job.\<close>

definition claims :: "int \<Rightarrow> database \<Rightarrow> (claimed_job \<Rightarrow> database \<Rightarrow> bool) \<Rightarrow> bool" where
  "claims now db k =
     (case spi_claim_next_job (Some True) [] now db of (Some job, db') \<Rightarrow> k job db' | (None, _) \<Rightarrow> False)"

definition queue_claim_marks_one_job_running :: "int \<Rightarrow> bool" where
  "queue_claim_marks_one_job_running now \<longleftrightarrow>
     runs (sql_enqueue (inserted_job now (Uuid 7) ''t.md'' ''q_claim_ns'') (create_namespace ''q_claim_ns'' installed_db))
       (\<lambda>db. claims now db (\<lambda>claimed db1.
          cj_id claimed = Uuid 7 \<and> cj_namespace claimed = ''q_claim_ns'' \<and> cj_attempt_count claimed = 1
          \<and> map_option jb_status (job_with (Uuid 7) db1) = Some Running
          \<and> map_option jb_status (job_with (Uuid 7) (complete_job now (cj_id claimed) db1)) = Some JobCompleted))"

text \<open>The ten inserts, and the ten claims, each followed by its completion.\<close>

fun enqueue_all :: "job_row list \<Rightarrow> database \<Rightarrow> sql_error + database" where
  "enqueue_all [] db = Inr db"
| "enqueue_all (j # js) db = res_bind (sql_enqueue j db) (enqueue_all js)"

fun claim_and_complete :: "int \<Rightarrow> nat \<Rightarrow> uuid list \<Rightarrow> database \<Rightarrow> (uuid list \<Rightarrow> database \<Rightarrow> bool) \<Rightarrow> bool" where
  "claim_and_complete now 0 claimed_ids db k = k claimed_ids db"
| "claim_and_complete now (Suc n) claimed_ids db k =
     claims now db (\<lambda>job db1.
       cj_id job \<notin> set claimed_ids
       \<and> claim_and_complete now n (cj_id job # claimed_ids) (complete_job now (cj_id job) db1) k)"

definition queue_skip_locked_no_double_processing :: "int \<Rightarrow> (nat \<Rightarrow> uuid) \<Rightarrow> (nat \<Rightarrow> string) \<Rightarrow> bool" where
  "queue_skip_locked_no_double_processing now ids sources \<longleftrightarrow>
     runs (enqueue_all (map (\<lambda>i. inserted_job now (ids i) (sources i) ''skip_locked_ns'') [0..<10])
         (create_namespace ''skip_locked_ns'' installed_db)) (\<lambda>db.
       claim_and_complete now 10 [] db (\<lambda>claimed_ids db1.
         length (remdups claimed_ids) = 10
         \<and> fst (spi_claim_next_job (Some True) [] now db1) = None
         \<and> list_all (\<lambda>j. jb_namespace j = ''skip_locked_ns'' \<longrightarrow> sint (jb_attempt_count j) \<le> 1) (db_jobs db1)))"

text \<open>The elapsed time is not a matter of the model.\<close>

definition ingest_returns_uuid_under_50ms_and_enqueues_job :: "int \<Rightarrow> uuid \<Rightarrow> bool" where
  "ingest_returns_uuid_under_50ms_and_enqueues_job now new_id \<longleftrightarrow>
     runs (ingest now new_id ''/tmp/pgrg_ingest_speed.md'' ''ingest_speed_ns'' ''auto''
         (create_namespace ''ingest_speed_ns'' installed_db)) (\<lambda>(id, db).
       length (filter (\<lambda>j. jb_namespace j = ''ingest_speed_ns'') (db_jobs db)) = 1)"

definition reaper_requeues_stuck_running_job_under_attempt_cap :: "int \<Rightarrow> bool" where
  "reaper_requeues_stuck_running_job_under_attempt_cap now \<longleftrightarrow>
     runs (sql_enqueue (stuck_job now (Uuid 1) ''reaper_ns'' 1) (create_namespace ''reaper_ns'' installed_db)) (\<lambda>db.
       map_option jb_status (job_with (Uuid 1) (run_reaper_sweep now 300 db)) = Some Queued)"

definition reaper_fails_job_at_attempt_cap :: "int \<Rightarrow> bool" where
  "reaper_fails_job_at_attempt_cap now \<longleftrightarrow>
     runs (sql_enqueue (stuck_job now (Uuid 2) ''reaper_cap_ns'' 3) (create_namespace ''reaper_cap_ns'' installed_db)) (\<lambda>db.
       case job_with (Uuid 2) (run_reaper_sweep now 300 db) of
         Some j \<Rightarrow> jb_status j = JobFailed \<and> str_contains ''reaper'' (unwrap_or [] (jb_error j))
       | None \<Rightarrow> False)"

definition set_ingest_profile_persists_in_namespace_settings :: bool where
  "set_ingest_profile_persists_in_namespace_settings \<longleftrightarrow>
     runs (set_ingest_profile ''profile_ns'' ''aggressive'' (create_namespace ''profile_ns'' installed_db)) (\<lambda>db.
       case find (\<lambda>n. nr_name n = ''profile_ns'') (db_namespaces db) of
         Some n \<Rightarrow> jsonb_get_text (\<lambda>_. []) (nr_settings n) ''ingest_profile'' = Some ''aggressive''
       | None \<Rightarrow> False)"

definition set_ingest_profile_rejects_unknown_value :: bool where
  "set_ingest_profile_rejects_unknown_value \<longleftrightarrow>
     raises (set_ingest_profile ''profile_bad_ns'' ''turbo'' (create_namespace ''profile_bad_ns'' installed_db))"

lemma claims_first:
  "sql_claim [] now db = Inr (Some j, db') \<Longrightarrow> claims now db k = k (claimed_of j) db'"
  by (simp add: claims_def spi_claim_next_job_def)

lemma queue_tests:
  "queue_claim_marks_one_job_running now" "ingest_returns_uuid_under_50ms_and_enqueues_job now new_id"
  by (simp_all add: queue_claim_marks_one_job_running_def ingest_returns_uuid_under_50ms_and_enqueues_job_def
      session_defs claims_def spi_claim_next_job_def sql_claim_def i32_max_def claimed_of_def job_with_def
      complete_job_def update_job_def ingest_def enqueue_path_def)

lemma reaper_tests:
  "reaper_requeues_stuck_running_job_under_attempt_cap now" "reaper_fails_job_at_attempt_cap now"
  by (simp_all add: reaper_requeues_stuck_running_job_under_attempt_cap_def reaper_fails_job_at_attempt_cap_def
      stuck_job_def session_defs run_reaper_sweep_def sql_requeue_def sql_fail_cap_def is_stale_def job_with_def
      str_contains_def starts_with_def unwrap_or_def)

lemma profile_tests:
  "set_ingest_profile_persists_in_namespace_settings" "set_ingest_profile_rejects_unknown_value"
  by (simp_all add: set_ingest_profile_persists_in_namespace_settings_def set_ingest_profile_rejects_unknown_value_def
      session_defs set_ingest_profile_def ingest_profile_parse_def jsonb_concat_def jsonb_get_text_def)

text \<open>Ten claims in a row: with equal ages the queue is drained in table order.\<close>

lemma stable_sort_equal:
  "(\<And>x y. x \<in> set xs \<Longrightarrow> y \<in> set xs \<Longrightarrow> le x y) \<Longrightarrow> stable_sort le xs = xs"
proof (induction xs)
  case (Cons x xs)
  then have "stable_sort le xs = xs" by simp
  with Cons.prems show ?case by (cases xs) simp_all
qed simp

lemma claims_in_order:
  assumes "list_all (\<lambda>j. jb_status j \<noteq> Queued) ds" and "j # js = map (\<lambda>i. inserted_job now (ids i) (src i) ns) is"
    and "distinct (map jb_id (ds @ j # js))"
  shows "claims now (db\<lparr>db_jobs := ds @ j # js\<rparr>) k = k (claimed_of (claimed_row now j)) (db\<lparr>db_jobs := ds @ claimed_row now j # js\<rparr>)"
    and "complete_job now (jb_id j) (db\<lparr>db_jobs := ds @ claimed_row now j # js\<rparr>)
      = db\<lparr>db_jobs := (ds @ [completed_row now now j]) @ js\<rparr>"
proof -
  have row: "\<exists>i s. x = inserted_job now i s ns" if "x \<in> set (j # js)" for x
    using that unfolding assms(2) by auto
  then have fields: "jb_status x = Queued \<and> jb_enqueued_at x = now \<and> jb_attempt_count x = 0 \<and> jb_started_at x = None"
    if "x \<in> set (j # js)" for x
    using that by (fastforce simp: inserted_job_def queued_row_def)
  have queued: "filter (\<lambda>j. jb_status j = Queued \<and> jb_id j \<notin> set []) (ds @ j # js) = j # js"
    using assms(1) fields by (simp add: filter_empty_conv list_all_iff)
  have sorted: "stable_sort (\<lambda>a b. jb_enqueued_at a \<le> jb_enqueued_at b) (j # js) = j # js"
    by (rule stable_sort_equal) (use fields in simp)
  have other: "map (\<lambda>x. if jb_id x = jb_id j then f x else x) ds = ds"
    "map (\<lambda>x. if jb_id x = jb_id j then f x else x) js = js" for f
    using assms(3) by (auto intro!: map_idI) (metis image_eqI)+
  have "sql_claim [] now (db\<lparr>db_jobs := ds @ j # js\<rparr>)
      = Inr (Some (claimed_row now j), db\<lparr>db_jobs := ds @ claimed_row now j # js\<rparr>)"
    using fields[of j] other queued sorted by (simp add: sql_claim_def Let_def i32_max_def claimed_row_def)
  then show "claims now (db\<lparr>db_jobs := ds @ j # js\<rparr>) k = k (claimed_of (claimed_row now j)) (db\<lparr>db_jobs := ds @ claimed_row now j # js\<rparr>)"
    by (rule claims_first)
  show "complete_job now (jb_id j) (db\<lparr>db_jobs := ds @ claimed_row now j # js\<rparr>)
      = db\<lparr>db_jobs := (ds @ [completed_row now now j]) @ js\<rparr>"
    using other by (simp add: complete_job_def update_job_def) (simp add: claimed_row_def completed_row_def)
qed

lemma claim_and_complete_all:
  assumes "list_all (\<lambda>j. jb_status j \<noteq> Queued) ds" and "js = map (\<lambda>i. inserted_job now (ids i) (src i) ns) is"
    and "distinct (map jb_id (ds @ js))" and "set seen \<subseteq> jb_id ` set ds"
  shows "claim_and_complete now (length js) seen (db\<lparr>db_jobs := ds @ js\<rparr>) k
    = k (rev (map jb_id js) @ seen) (db\<lparr>db_jobs := ds @ map (completed_row now now) js\<rparr>)"
  using assms
proof (induction js arbitrary: ds seen "is")
  case (Cons j js)
  then obtain i is' where is': "is = i # is'" "js = map (\<lambda>i. inserted_job now (ids i) (src i) ns) is'" by (cases "is") auto
  note step = claims_in_order[OF Cons.prems(1,2,3)]
  have new: "jb_id j \<notin> set seen" using Cons.prems(3,4) by auto
  have "list_all (\<lambda>j. jb_status j \<noteq> Queued) (ds @ [completed_row now now j])"
    using Cons.prems(1) by (simp add: completed_row_def)
  moreover have "distinct (map jb_id ((ds @ [completed_row now now j]) @ js))"
    using Cons.prems(3) by (simp add: completed_row_def)
  moreover have "set (jb_id j # seen) \<subseteq> jb_id ` set (ds @ [completed_row now now j])"
    using Cons.prems(4) by (auto simp: completed_row_def)
  moreover have "cj_id (claimed_of (claimed_row now j)) = jb_id j" by (simp add: claimed_of_def claimed_row_def)
  ultimately show ?case
    using Cons.IH[OF _ is'(2)] new by (simp add: step del: append_assoc) simp
qed simp

lemma enqueue_all_new:
  "distinct (map jb_id (db_jobs db @ js)) \<Longrightarrow> enqueue_all js db = Inr (db\<lparr>db_jobs := db_jobs db @ js\<rparr>)"
proof (induction js arbitrary: db)
  case (Cons j js)
  then have "\<not> list_ex (\<lambda>x. jb_id x = jb_id j) (db_jobs db)" by (auto simp: list_ex_iff image_iff)
  with Cons show ?case by (simp add: sql_enqueue_def)
qed simp

lemma skip_locked_test:
  assumes "inj ids"
  shows "queue_skip_locked_no_double_processing now ids sources"
proof -
  let ?db = "create_namespace ''skip_locked_ns'' installed_db"
  let ?js = "map (\<lambda>i. inserted_job now (ids i) (sources i) ''skip_locked_ns'') [0..<10]"
  have empty: "db_jobs ?db = []" by (simp add: session_defs)
  have ids: "map jb_id ?js = map ids [0..<10]" by (simp add: inserted_job_def queued_row_def del: upt_Suc)
  then have dist: "distinct (map jb_id ?js)" using assms by (simp add: distinct_map inj_on_def inj_def del: upt_Suc)
  have all: "claim_and_complete now 10 [] (?db\<lparr>db_jobs := ?js\<rparr>) k
      = k (rev (map jb_id ?js)) (?db\<lparr>db_jobs := map (completed_row now now) ?js\<rparr>)" for k
    using claim_and_complete_all[of "[]" ?js now ids sources "''skip_locked_ns''" "[0..<10]" "[]" ?db k] dist
    by (simp del: upt_Suc map_map)
  have "sint (jb_attempt_count (completed_row now now (inserted_job now i src ns))) = 1" for i src ns
    by (simp add: completed_row_def inserted_job_def queued_row_def)
  moreover have "jb_status (completed_row now now j) \<noteq> Queued" for j by (simp add: completed_row_def)
  ultimately show ?thesis
    unfolding queue_skip_locked_no_double_processing_def
    using dist enqueue_all_new[of ?db ?js]
    by (simp add: all empty distinct_remdups_id spi_claim_next_job_def sql_claim_def list_all_iff o_def
        del: upt_Suc map_map)
qed

end
