(* ===== verification/PgQueryTests.thy ===== *)
theory PgQueryTests
  imports PgTests
begin

text \<open>
  The tests of \<open>pgrg.query\<close> and of the pipeline in \<^verbatim>\<open>pg_raggraph/src/lib.rs\<close>, replayed as in \<open>PgTests\<close>.
  Where a test depends on a library (the text search, the distance of \<open>pgvector\<close>, the JSON parser of a
  fixture), the library is an argument of the test, and what the test needs of it a premise of its lemma.
\<close>

section \<open>Identifiers of the fixtures\<close>

text \<open>\<open>test_helpers::ns_uuid\<close>: the hash of the namespace and a byte, as the text of a UUID.\<close>

definition ns_uuid :: "(bytes \<Rightarrow> bytes) \<Rightarrow> string \<Rightarrow> char \<Rightarrow> string" where
  "ns_uuid sha ns seed =
     (let bs = take 16 (sha (ns @ [seed]));
          b1 = bs[6 := char_of (or (and (of_char (bs ! 6)) 0x0F) 0x40 :: nat)];
          b = b1[8 := char_of (or (and (of_char (b1 ! 8)) 0x3F) 0x80 :: nat)];
          part = (\<lambda>i n. concat (map hex_byte (take n (drop i b))))
      in part 0 4 @ ''-'' @ part 4 2 @ ''-'' @ part 6 2 @ ''-'' @ part 8 2 @ ''-'' @ part 10 6)"

lemma low_bits: "and n 0x0F < (16 :: nat)" "and n 0x3F < (64 :: nat)"
proof -
  have "and n (mask 4) < (16 :: nat)" "and n (mask 6) < (64 :: nat)"
    unfolding take_bit_eq_mask[symmetric] by (simp_all add: take_bit_eq_mod)
  then show "and n 0x0F < (16 :: nat)" "and n 0x3F < (64 :: nat)" by (simp_all add: mask_eq_exp_minus_1)
qed

lemma set_bits:
  "list_all (\<lambda>n. or n 0x40 < 256 \<and> or n 0x40 div 16 = (4::nat)) [0..<16]"
  "list_all (\<lambda>n. or n 0x80 < 256 \<and> or n 0x80 div 16 \<in> {8, 9, 10, 11 :: nat}) [0..<64]"
  by code_simp+

lemma hex_chars:
  "(char_of (52 :: nat) :: char) = CHR ''4''" "(char_of (56 :: nat) :: char) = CHR ''8''"
  "(char_of (57 :: nat) :: char) = CHR ''9''" "(char_of (97 :: nat) :: char) = CHR ''a''"
  "(char_of (98 :: nat) :: char) = CHR ''b''"
  by code_simp+

lemma nibbles:
  "or (and n 0x0F) 0x40 < 256 \<and> or (and n 0x0F) 0x40 div 16 = (4::nat)"
  "or (and n 0x3F) 0x80 < 256 \<and> or (and n 0x3F) 0x80 div 16 \<in> {8, 9, 10, 11 :: nat}"
  using set_bits low_bits[of n] by (auto simp: list_all_iff)

lemma ns_uuid_shape:
  assumes "length (sha (ns @ [seed])) = 32"
  shows "length (ns_uuid sha ns seed) = 36" and "ns_uuid sha ns seed ! 14 = CHR ''4''"
    and "ns_uuid sha ns seed ! 19 \<in> set ''89ab''"
proof -
  obtain a0 a1 a2 a3 a4 a5 a6 a7 a8 a9 a10 a11 a12 a13 a14 a15 where
    bs: "take 16 (sha (ns @ [seed])) = [a0, a1, a2, a3, a4, a5, a6, a7, a8, a9, a10, a11, a12, a13, a14, a15]"
  proof -
    have "length (take 16 (sha (ns @ [seed]))) = Suc (Suc (Suc (Suc (Suc (Suc (Suc (Suc (Suc (Suc (Suc (Suc (Suc (Suc
        (Suc (Suc 0)))))))))))))))"
      using assms by simp
    then show thesis unfolding length_Suc_conv using that by (elim exE conjE) simp
  qed
  let ?v = "or (and (of_char a6) 0x0F) 0x40 :: nat" and ?x = "or (and (of_char a8) 0x3F) 0x80 :: nat"
  have v: "?v < 256" "?v div 16 = 4" and x: "?x < 256" "?x div 16 \<in> {8, 9, 10, 11}"
    using nibbles by blast+
  have uuid: "ns_uuid sha ns seed = concat (map hex_byte [a0, a1, a2, a3]) @ ''-'' @ concat (map hex_byte [a4, a5]) @ ''-''
      @ hex_byte (char_of ?v) @ hex_byte a7 @ ''-'' @ hex_byte (char_of ?x) @ hex_byte a9 @ ''-''
      @ concat (map hex_byte [a10, a11, a12, a13, a14, a15])"
    by (simp add: ns_uuid_def bs Let_def)
  show "length (ns_uuid sha ns seed) = 36" unfolding uuid by (simp add: hex_byte_def)
  show "ns_uuid sha ns seed ! 14 = CHR ''4''" using v unfolding uuid by (simp add: hex_byte_def hex_char_def hex_chars nth_append)
  show "ns_uuid sha ns seed ! 19 \<in> set ''89ab''" using x unfolding uuid by (auto simp: hex_byte_def hex_char_def hex_chars nth_append)
qed

section \<open>Queries\<close>

text \<open>The rows a query returns in full, as the texts of the chunks a single lane found.\<close>

lemma query_in_full:
  assumes "retr_ok Y" and "distinct (map cw_id (db_chunks db))" and "mode_parse mode = Some m" and "embed_fn q = Inr v"
    and "u = union_lanes Y m q v fil ns hops (query_weights J weights) db"
    and "int (length (db_chunks db)) \<le> sint top_k"
  shows "\<exists>out. pgrg_query J Y embed_fn render q fil top_k ns hops weights mode db = Inr out
    \<and> mset out = mset (fused_rows Y u db)"
proof -
  have "fst ` set u \<subseteq> cw_id ` set (db_chunks db)" using union_facts(1)[OF assms(1,2,5)] by auto
  then have "card (fst ` set u) \<le> card (set (db_chunks db))" by (rule surj_card_le[OF List.finite_set])
  then have "length (fused_rows Y u db) \<le> nat (sint top_k)"
    using fused_rows_facts(3)[OF assms(1,2,5)] card_length[of "db_chunks db"] assms(6) by linarith
  moreover have "0 \<le> sint top_k" using assms(6) by linarith
  ultimately show ?thesis using assms(3-5) by (simp add: pgrg_query_def run_query_def Let_def)
qed

text \<open>Chunks that hang on an entity the walk reached.\<close>

definition graph_texts :: "database \<Rightarrow> string \<Rightarrow> uuid set \<Rightarrow> string set" where
  "graph_texts db ns reached = cw_text ` {c \<in> set (db_chunks db). cw_namespace c = ns
     \<and> (\<exists>l \<in> set (db_chunk_entities db). ce_chunk_id l = cw_id c \<and> ce_entity_id l \<in> reached)}"

lemma mem_graph_texts:
  "t \<in> graph_texts db ns reached \<longleftrightarrow> (\<exists>c \<in> set (db_chunks db). cw_text c = t \<and> cw_namespace c = ns
     \<and> (\<exists>l \<in> set (db_chunk_entities db). ce_chunk_id l = cw_id c \<and> ce_entity_id l \<in> reached))"
  by (auto simp: graph_texts_def)

lemma walk_count_pos:
  "0 < walk_count links walked i \<longleftrightarrow> (\<exists>l \<in> set links. ce_chunk_id l = i \<and> ce_entity_id l \<in> fst ` set walked)"
  unfolding walk_count_def zero_less_iff_neq_zero sum_list_eq_0_iff by (force simp: filter_empty_conv image_iff)

lemma graph_query_texts:
  assumes "retr_ok Y" and "distinct (map cw_id (db_chunks db))" and "length (db_chunks db) \<le> 50"
    and "embed_fn q = Inr v" and "int (length (db_chunks db)) \<le> sint top_k" and "1 \<le> sint hops"
    and "reached = fst ` set (walk (db_relationships db) (sint hops) (map (\<lambda>i. (i, 0)) (seed_entities Y v ns db)))"
  shows "\<exists>out. pgrg_query J Y embed_fn render q None top_k ns hops weights ''graph'' db = Inr out
    \<and> set (map qr_text out) = graph_texts db ns reached"
proof -
  let ?w = "query_weights J weights"
  let ?u = "union_lanes Y Graph q v None ns hops ?w db"
  let ?walked = "walk (db_relationships db) (sint hops) (map (\<lambda>i. (i, 0)) (seed_entities Y v ns db))"
  let ?cnt = "\<lambda>c. walk_count (db_chunk_entities db) ?walked (cw_id c)"
  let ?hit = "\<lambda>c. cw_namespace c = ns \<and> 0 < ?cnt c"
  let ?rows = "numbered (map cw_id (stable_sort (\<lambda>a b. ?cnt b \<le> ?cnt a) (filter ?hit (db_chunks db))))"
  have mode: "mode_parse ''graph'' = Some Graph" by (simp add: mode_parse_def)
  obtain out where out: "pgrg_query J Y embed_fn render q None top_k ns hops weights ''graph'' db = Inr out"
      "mset out = mset (fused_rows Y ?u db)"
    using query_in_full[where embed_fn = embed_fn and q = q and ns = ns and hops = hops and J = J and weights = weights
      and render = render and fil = None and top_k = top_k, OF assms(1,2) mode assms(4) refl assms(5)]
    by (elim exE conjE)
  have perm: "mset (rx_graph_rows Y ?rows) = mset ?rows" using assms(1) by (simp add: retr_ok_def)
  have "set (rx_graph_rows Y ?rows) = set ?rows" by (rule mset_eq_setD[OF perm])
  moreover have "set (map fst ?rows) = cw_id ` {c \<in> set (db_chunks db). ?hit c}" unfolding numbered_fst by auto
  ultimately have ids: "fst ` set (rx_graph_rows Y ?rows) = cw_id ` {c \<in> set (db_chunks db). ?hit c}"
    by (simp only: list.set_map)
  have "length (rx_graph_rows Y ?rows) = length (filter ?hit (db_chunks db))" using mset_eq_length[OF perm] by simp
  also have "\<dots> \<le> 50" by (rule order_trans[OF length_filter_le assms(3)])
  finally have short: "length (rx_graph_rows Y ?rows) \<le> 50" .
  then have "graph_lane Y Graph v None ns hops db = rx_graph_rows Y ?rows"
    using assms(6) short by (simp add: graph_lane_def Let_def uses_graph_def passes_def)
  then have lane: "fst ` set ?u = cw_id ` {c \<in> set (db_chunks db). ?hit c}"
    using lanes_off(1,2)[OF assms(1)]
    by (simp add: union_lanes_def uses_vector_def uses_bm25_def image_Un ids del: set_map)
  have "set (map qr_text out) = qr_text ` set (fused_rows Y ?u db)" using mset_eq_setD[OF out(2)] by simp
  also have "\<dots> = cw_text ` {c \<in> set (db_chunks db). cw_id c \<in> fst ` set ?u}"
    unfolding fused_rows_facts(2)[OF assms(1,2) refl] by (force simp: fused_row_def Let_def)
  also have "\<dots> = graph_texts db ns reached"
  proof -
    have "cw_id c \<in> fst ` set ?u \<longleftrightarrow> ?hit c" if "c \<in> set (db_chunks db)" for c
      using that assms(2) unfolding lane by (auto simp: distinct_map dest: inj_onD)
    then have "{c \<in> set (db_chunks db). cw_id c \<in> fst ` set ?u} = {c \<in> set (db_chunks db). ?hit c}" by blast
    then show ?thesis by (simp only: graph_texts_def assms(7) walk_count_pos)
  qed
  finally show ?thesis using out(1) by blast
qed

text \<open>
  The fixture of the walk tests: a chain AAA, BBB, CCC of entities, each on one chunk. \<open>uid\<close> is
  \<open>ns_uuid\<close> on the namespace and a byte, \<open>emb\<close> the embedder of the session and \<open>ea\<close>, \<open>eb\<close>, \<open>ec\<close> the
  embeddings of the chunks; the file is given by the records its lines are read as.
\<close>

definition chain_records ::
  "(nat \<Rightarrow> uuid) \<Rightarrow> (string \<Rightarrow> f32 list) \<Rightarrow> f32 list \<Rightarrow> f32 list \<Rightarrow> f32 list \<Rightarrow> 'v \<Rightarrow> string \<Rightarrow> 'v fixture_record list" where
  "chain_records uid emb ea eb ec md ns =
     (let chunk = (\<lambda>i ord txt e. FChunk \<lparr>fc_id = uid i, fc_namespace = ns, fc_document_id = uid 0x50, fc_ord = ord,
            fc_text = txt, fc_token_count = 1, fc_embedding = e, fc_metadata = md\<rparr>);
          entity = (\<lambda>i name. FEntity \<lparr>fe_id = uid i, fe_namespace = ns, fe_name = name, fe_kind_label = Some ''node'',
            fe_name_emb = emb name, fe_description = None\<rparr>);
          rel = (\<lambda>i src dst. FRelationship \<lparr>fr_id = uid i, fr_namespace = ns, fr_src_id = uid src, fr_dst_id = uid dst,
            fr_kind = ''next'', fr_weight = Fin 1\<rparr>);
          link = (\<lambda>c e. FChunkEntity \<lparr>fx_chunk_id = uid c, fx_entity_id = uid e, fx_confidence = Fin 1,
            fx_classification = ''extracted''\<rparr>)
      in [FDocument \<lparr>fd_id = uid 0x50, fd_namespace = ns, fd_source = ''d.md'', fd_content_hash = ''h-chain-'' @ ns,
            fd_title = None, fd_metadata = md\<rparr>,
          chunk 0x51 0 ''chunk-a'' ea, chunk 0x52 1 ''chunk-b'' eb, chunk 0x53 2 ''chunk-c'' ec,
          entity 0x61 ''AAA'', entity 0x62 ''BBB'', entity 0x63 ''CCC'',
          rel 0x71 0x61 0x62, rel 0x72 0x62 0x63,
          link 0x51 0x61, link 0x52 0x62, link 0x53 0x63])"

text \<open>The texts a query of the chain in graph mode gives.\<close>

definition chain_query ::
  "'v json_api \<Rightarrow> 'v fixture_api \<Rightarrow> pg_ext \<Rightarrow> 'v retr_ext \<Rightarrow> (string \<Rightarrow> f32 list) \<Rightarrow> string \<Rightarrow> (string + string) list
     \<Rightarrow> string \<Rightarrow> i32 \<Rightarrow> (string list \<Rightarrow> bool) \<Rightarrow> bool" where
  "chain_query J D X Y emb ns file q hops k \<longleftrightarrow>
     (case ingest_extracted J D X (''/tmp/pgrg_chain_'' @ ns @ ''.jsonl'') (Inr file) ns (create_namespace ns installed_db) of
        (Inl _, _) \<Rightarrow> False
      | (Inr _, db) \<Rightarrow>
          runs (pgrg_query J Y (\<lambda>t. Inr (emb t)) (px_render X) q None 10 ns hops None ''graph'' db)
            (\<lambda>out. k (map qr_text out)))"

definition hops_zero_excludes_graph_lane where
  "hops_zero_excludes_graph_lane J D X Y emb file \<longleftrightarrow>
     chain_query J D X Y emb ''hops0_ns'' file ''AAA'' 0 (\<lambda>texts. length texts = 0)"

definition hops_one_includes_direct_neighbors_only where
  "hops_one_includes_direct_neighbors_only J D X Y emb file \<longleftrightarrow>
     chain_query J D X Y emb ''hops1_ns'' file ''AAA'' 1 (\<lambda>texts.
       ''chunk-a'' \<in> set texts \<and> ''chunk-b'' \<in> set texts \<and> ''chunk-c'' \<notin> set texts)"

definition hops_two_includes_friends_of_friends where
  "hops_two_includes_friends_of_friends J D X Y emb file \<longleftrightarrow>
     chain_query J D X Y emb ''hops2_ns'' file ''AAA'' 2 (\<lambda>texts. ''chunk-c'' \<in> set texts)"

definition undirected_walk_reaches_a_from_b_seed where
  "undirected_walk_reaches_a_from_b_seed J D X Y emb file \<longleftrightarrow>
     chain_query J D X Y emb ''undir_ns'' file ''BBB'' 1 (\<lambda>texts. ''chunk-a'' \<in> set texts)"

text \<open>The tables after the fixture was loaded.\<close>

definition chain_db :: "(nat \<Rightarrow> uuid) \<Rightarrow> (string \<Rightarrow> f32 list) \<Rightarrow> f32 list \<Rightarrow> f32 list \<Rightarrow> f32 list \<Rightarrow> string \<Rightarrow> database" where
  "chain_db uid emb ea eb ec ns =
     (let chunk = (\<lambda>i ord t e. \<lparr>cw_id = uid i, cw_document_id = uid 0x50, cw_namespace = ns, cw_ord = ord, cw_text = t,
            cw_token_count = 1, cw_embedding = e\<rparr>);
          entity = (\<lambda>i name. \<lparr>en_id = uid i, en_namespace = ns, en_name = name, en_kind = Some ''node'',
            en_name_emb = Some (emb name), en_description = None\<rparr>);
          rel = (\<lambda>i src dst. \<lparr>rr_id = uid i, rr_namespace = ns, rr_src_id = uid src, rr_dst_id = uid dst,
            rr_kind = ''next'', rr_weight = Fin 1, rr_description = None\<rparr>);
          link = (\<lambda>c e. \<lparr>ce_chunk_id = uid c, ce_entity_id = uid e, ce_confidence = Fin 1\<rparr>)
      in (create_namespace ns installed_db)\<lparr>
          db_documents := [\<lparr>dr_id = uid 0x50, dr_namespace = ns, dr_source = ''d.md'',
            dr_content_hash = ''h-chain-'' @ ns, dr_title = None\<rparr>],
          db_chunks := [chunk 0x51 0 ''chunk-a'' ea, chunk 0x52 1 ''chunk-b'' eb, chunk 0x53 2 ''chunk-c'' ec],
          db_entities := [entity 0x61 ''AAA'', entity 0x62 ''BBB'', entity 0x63 ''CCC''],
          db_relationships := [rel 0x71 0x61 0x62, rel 0x72 0x62 0x63],
          db_chunk_entities := [link 0x51 0x61, link 0x52 0x62, link 0x53 0x63]\<rparr>)"

lemma create_namespace_sel [simp]:
  "db_documents (create_namespace ns db) = db_documents db" "db_chunks (create_namespace ns db) = db_chunks db"
  "db_entities (create_namespace ns db) = db_entities db" "db_dim (create_namespace ns db) = db_dim db"
  "db_relationships (create_namespace ns db) = db_relationships db"
  "db_chunk_entities (create_namespace ns db) = db_chunk_entities db"
  "db_jobs (create_namespace ns db) = db_jobs db"
  by (simp_all add: create_namespace_def namespace_create_def sql_upsert_namespace_def Let_def)

lemma create_namespace_there: "list_ex (\<lambda>n. nr_name n = ns) (db_namespaces (create_namespace ns db))"
proof -
  let ?n = "\<lparr>nr_name = ns, nr_embedding_model = ''bge-small-en-v1.5'', nr_llm_provider = None, nr_settings = JObj []\<rparr>"
  have "?n \<in> set (db_namespaces (create_namespace ns db))"
    by (auto simp: create_namespace_def namespace_create_def sql_upsert_namespace_def Let_def list_ex_iff image_iff)
  moreover have "nr_name ?n = ns" by simp
  ultimately show ?thesis unfolding list_ex_iff by blast
qed

lemma installed_empty [simp]:
  "db_documents installed_db = []" "db_chunks installed_db = []" "db_entities installed_db = []"
  "db_relationships installed_db = []" "db_chunk_entities installed_db = []" "db_dim installed_db = 384"
  "db_jobs installed_db = []"
  by (simp_all add: installed_db_def)

lemma insert_records_append:
  "insert_records X ns rs db = Inr db1 \<Longrightarrow> insert_records X ns (rs @ rs') db = insert_records X ns rs' db1"
  by (induction rs arbitrary: db) (auto split: sum.splits)

lemma load_chain:
  assumes "inj uid" and "\<And>v. v \<in> {ea, eb, ec} \<union> range emb \<Longrightarrow> px_vector_in X (vector_literal v) = Inr v \<and> length v = 384"
  shows "insert_records X ns (chain_records uid emb ea eb ec md ns) (create_namespace ns installed_db)
    = Inr (chain_db uid emb ea eb ec ns)"
proof -
  have uid: "uid i = uid j \<longleftrightarrow> i = j" for i j using assms(1) by (auto simp: inj_def)
  have vec: "px_vector_in X (vector_literal ea) = Inr ea" "px_vector_in X (vector_literal eb) = Inr eb"
    "px_vector_in X (vector_literal ec) = Inr ec" "\<And>t. px_vector_in X (vector_literal (emb t)) = Inr (emb t)"
    "length ea = 384" "length eb = 384" "length ec = 384" "\<And>t. length (emb t) = 384"
    using assms(2) by auto
  let ?db = "create_namespace ns installed_db" and ?r = "chain_records uid emb ea eb ec md ns"
  let ?full = "chain_db uid emb ea eb ec ns"
  let ?db1 = "?db\<lparr>db_documents := db_documents ?full\<rparr>"
  let ?db2 = "?db1\<lparr>db_chunks := db_chunks ?full\<rparr>"
  let ?db3 = "?db2\<lparr>db_entities := db_entities ?full\<rparr>"
  let ?db4 = "?db3\<lparr>db_relationships := db_relationships ?full\<rparr>"
  note defs = chain_records_def chain_db_def Let_def
  have split: "?r = take 1 ?r @ take 3 (drop 1 ?r) @ take 3 (drop 4 ?r) @ take 2 (drop 7 ?r) @ drop 9 ?r"
    by (simp add: chain_records_def Let_def)
  have 1: "insert_records X ns (take 1 ?r) ?db = Inr ?db1"
    by (simp add: defs sql_insert_document_def create_namespace_there)
  have 2: "insert_records X ns (take 3 (drop 1 ?r)) ?db1 = Inr ?db2"
    by (simp add: defs sql_insert_chunk_def sql_vector_def vec uid)
  have 3: "insert_records X ns (take 3 (drop 4 ?r)) ?db2 = Inr ?db3"
    by (simp add: defs sql_insert_entity_def sql_vector_def vec uid)
  have 4: "insert_records X ns (take 2 (drop 7 ?r)) ?db3 = Inr ?db4"
    by (simp add: defs sql_insert_relationship_def entity_exists_def uid)
  have 5: "insert_records X ns (drop 9 ?r) ?db4 = Inr ?full"
    by (simp add: defs sql_insert_chunk_entity_def entity_exists_def uid)
  show ?thesis
    by (subst split) (simp only: insert_records_append[OF 1] insert_records_append[OF 2] insert_records_append[OF 3]
        insert_records_append[OF 4] 5)
qed

text \<open>
  What the tests need of the libraries: the file is read as the records, the vectors survive their
  literals, and within the names of the chain only equal names are close.
\<close>

definition chain_setup where
  "chain_setup J D X Y emb file ns \<longleftrightarrow> retr_ok Y
     \<and> (\<exists>uid ea eb ec md. inj uid \<and> file_records J D file = Some (chain_records uid emb ea eb ec md ns)
          \<and> (\<forall>v \<in> {ea, eb, ec} \<union> range emb. px_vector_in X (vector_literal v) = Inr v \<and> length v = 384))
     \<and> (\<forall>a \<in> {''AAA'', ''BBB'', ''CCC''}. \<forall>b \<in> {''AAA'', ''BBB'', ''CCC''}.
          flt (rx_distance Y (emb a) (emb b)) (rnd binary64 (35 / 100)) \<longleftrightarrow> a = b)"

lemma chain_query_db:
  assumes "chain_setup J D X Y emb file ns"
  obtains uid ea eb ec where "inj uid"
    "\<And>q hops k. chain_query J D X Y emb ns file q hops k \<longleftrightarrow>
       runs (pgrg_query J Y (\<lambda>t. Inr (emb t)) (px_render X) q None 10 ns hops None ''graph'' (chain_db uid emb ea eb ec ns))
         (\<lambda>out. k (map qr_text out))"
proof -
  from assms obtain uid ea eb ec md where c: "inj uid"
      "file_records J D file = Some (chain_records uid emb ea eb ec md ns)"
      "\<forall>v \<in> {ea, eb, ec} \<union> range emb. px_vector_in X (vector_literal v) = Inr v \<and> length v = 384"
    unfolding chain_setup_def by blast
  have "insert_records X ns (chain_records uid emb ea eb ec md ns) (create_namespace ns installed_db)
      = Inr (chain_db uid emb ea eb ec ns)"
    by (rule load_chain[OF c(1)]) (use c(3) in blast)
  with c(2) obtain n where "load_lines J D X ns 0 file 0 (create_namespace ns installed_db)
      = Inr (n, chain_db uid emb ea eb ec ns)"
    using load_lines_Inr_iff[where J = J and D = D and X = X and ns = ns and ls = "file"] by blast
  then show thesis by (intro that[OF c(1)]) (simp add: chain_query_def ingest_extracted_def)
qed

text \<open>The walk from the seed of the query.\<close>

lemma chain_seed:
  assumes "chain_setup J D X Y emb file ns"
  shows "seed_entities Y (emb ''AAA'') ns (chain_db uid emb ea eb ec ns) = [uid 0x61]"
    and "seed_entities Y (emb ''BBB'') ns (chain_db uid emb ea eb ec ns) = [uid 0x62]"
proof -
  define near where "near = rnd binary64 (35 / 100)"
  have close: "flt (rx_distance Y (emb a) (emb b)) near \<longleftrightarrow> a = b"
    if "a \<in> {''AAA'', ''BBB'', ''CCC''}" "b \<in> {''AAA'', ''BBB'', ''CCC''}" for a b
    by (rule bspec[OF bspec[OF assms[unfolded chain_setup_def, THEN conjunct2, THEN conjunct2, folded near_def] that(1)] that(2)])
  show "seed_entities Y (emb ''AAA'') ns (chain_db uid emb ea eb ec ns) = [uid 0x61]"
    "seed_entities Y (emb ''BBB'') ns (chain_db uid emb ea eb ec ns) = [uid 0x62]"
    unfolding seed_entities_def near_def[symmetric] by (simp_all add: chain_db_def Let_def close)
qed

lemma chain_walk:
  assumes "inj uid"
  shows "fst ` set (walk (db_relationships (chain_db uid emb ea eb ec ns)) 1 [(uid 0x61, 0)]) = {uid 0x61, uid 0x62}"
    and "uid 0x63 \<in> fst ` set (walk (db_relationships (chain_db uid emb ea eb ec ns)) 2 [(uid 0x61, 0)])"
    and "uid 0x61 \<in> fst ` set (walk (db_relationships (chain_db uid emb ea eb ec ns)) 1 [(uid 0x62, 0)])"
proof -
  have uid: "uid i = uid j \<longleftrightarrow> i = j" for i j using assms by (auto simp: inj_def)
  have rels: "db_relationships (chain_db uid emb ea eb ec ns) =
      [\<lparr>rr_id = uid 0x71, rr_namespace = ns, rr_src_id = uid 0x61, rr_dst_id = uid 0x62, rr_kind = ''next'',
        rr_weight = Fin 1, rr_description = None\<rparr>,
       \<lparr>rr_id = uid 0x72, rr_namespace = ns, rr_src_id = uid 0x62, rr_dst_id = uid 0x63, rr_kind = ''next'',
        rr_weight = Fin 1, rr_description = None\<rparr>]"
    by (simp add: chain_db_def Let_def)
  show "fst ` set (walk (db_relationships (chain_db uid emb ea eb ec ns)) 1 [(uid 0x61, 0)]) = {uid 0x61, uid 0x62}"
    "uid 0x63 \<in> fst ` set (walk (db_relationships (chain_db uid emb ea eb ec ns)) 2 [(uid 0x61, 0)])"
    "uid 0x61 \<in> fst ` set (walk (db_relationships (chain_db uid emb ea eb ec ns)) 1 [(uid 0x62, 0)])"
    unfolding rels by (simp_all add: walk.simps walk_step_def uid)
qed

lemma chain_texts:
  assumes "chain_setup J D X Y emb file ns" and "inj uid" and "1 \<le> sint hops"
  shows "\<exists>out. pgrg_query J Y (\<lambda>t. Inr (emb t)) (px_render X) q None 10 ns hops None ''graph'' (chain_db uid emb ea eb ec ns)
        = Inr out
    \<and> set (map qr_text out) = graph_texts (chain_db uid emb ea eb ec ns) ns
        (fst ` set (walk (db_relationships (chain_db uid emb ea eb ec ns)) (sint hops)
           (map (\<lambda>i. (i, 0)) (seed_entities Y (emb q) ns (chain_db uid emb ea eb ec ns)))))"
proof (rule graph_query_texts)
  show "retr_ok Y" using assms(1) by (simp add: chain_setup_def)
  show "distinct (map cw_id (db_chunks (chain_db uid emb ea eb ec ns)))"
    by (simp add: chain_db_def Let_def inj_eq[OF assms(2)])
qed (use assms(3) in \<open>simp_all add: chain_db_def Let_def\<close>)

lemma chain_graph_texts:
  assumes "inj uid"
  shows "''chunk-a'' \<in> graph_texts (chain_db uid emb ea eb ec ns) ns R \<longleftrightarrow> uid 0x61 \<in> R"
    and "''chunk-b'' \<in> graph_texts (chain_db uid emb ea eb ec ns) ns R \<longleftrightarrow> uid 0x62 \<in> R"
    and "''chunk-c'' \<in> graph_texts (chain_db uid emb ea eb ec ns) ns R \<longleftrightarrow> uid 0x63 \<in> R"
proof -
  have uid: "uid i = uid j \<longleftrightarrow> i = j" for i j using assms by (auto simp: inj_def)
  show "''chunk-a'' \<in> graph_texts (chain_db uid emb ea eb ec ns) ns R \<longleftrightarrow> uid 0x61 \<in> R"
    "''chunk-b'' \<in> graph_texts (chain_db uid emb ea eb ec ns) ns R \<longleftrightarrow> uid 0x62 \<in> R"
    "''chunk-c'' \<in> graph_texts (chain_db uid emb ea eb ec ns) ns R \<longleftrightarrow> uid 0x63 \<in> R"
    by (simp_all add: mem_graph_texts chain_db_def Let_def uid)
qed

lemma hop_tests:
  "chain_setup J D X Y emb file ''hops1_ns'' \<Longrightarrow> hops_one_includes_direct_neighbors_only J D X Y emb file"
  "chain_setup J D X Y emb file ''hops2_ns'' \<Longrightarrow> hops_two_includes_friends_of_friends J D X Y emb file"
  "chain_setup J D X Y emb file ''undir_ns'' \<Longrightarrow> undirected_walk_reaches_a_from_b_seed J D X Y emb file"
proof -
  have hop: "sint (1 :: i32) = 1" "sint (2 :: i32) = 2" by simp_all
  show "hops_one_includes_direct_neighbors_only J D X Y emb file" if s: "chain_setup J D X Y emb file ''hops1_ns''"
  proof -
    obtain uid ea eb ec where c: "inj uid" "\<And>q hops k. chain_query J D X Y emb ''hops1_ns'' file q hops k \<longleftrightarrow>
        runs (pgrg_query J Y (\<lambda>t. Inr (emb t)) (px_render X) q None 10 ''hops1_ns'' hops None ''graph''
          (chain_db uid emb ea eb ec ''hops1_ns'')) (\<lambda>out. k (map qr_text out))"
      using chain_query_db[OF s] by blast
    have "uid 0x63 \<notin> {uid 0x61, uid 0x62}" using c(1) by (simp add: inj_eq)
    with chain_texts[OF s c(1), where hops = 1 and ea = ea and eb = eb and ec = ec and q = "''AAA''"] show ?thesis
      unfolding hops_one_includes_direct_neighbors_only_def c(2) chain_seed[OF s] hop
      by (auto simp: chain_walk(1)[OF c(1)] chain_graph_texts[OF c(1)] simp del: set_map)
  qed
  show "hops_two_includes_friends_of_friends J D X Y emb file" if s: "chain_setup J D X Y emb file ''hops2_ns''"
  proof -
    obtain uid ea eb ec where c: "inj uid" "\<And>q hops k. chain_query J D X Y emb ''hops2_ns'' file q hops k \<longleftrightarrow>
        runs (pgrg_query J Y (\<lambda>t. Inr (emb t)) (px_render X) q None 10 ''hops2_ns'' hops None ''graph''
          (chain_db uid emb ea eb ec ''hops2_ns'')) (\<lambda>out. k (map qr_text out))"
      using chain_query_db[OF s] by blast
    from chain_texts[OF s c(1), where hops = 2 and ea = ea and eb = eb and ec = ec and q = "''AAA''"] show ?thesis
      unfolding hops_two_includes_friends_of_friends_def c(2) chain_seed[OF s] hop
      by (auto simp: chain_walk(2)[OF c(1)] chain_graph_texts[OF c(1)] simp del: set_map)
  qed
  show "undirected_walk_reaches_a_from_b_seed J D X Y emb file" if s: "chain_setup J D X Y emb file ''undir_ns''"
  proof -
    obtain uid ea eb ec where c: "inj uid" "\<And>q hops k. chain_query J D X Y emb ''undir_ns'' file q hops k \<longleftrightarrow>
        runs (pgrg_query J Y (\<lambda>t. Inr (emb t)) (px_render X) q None 10 ''undir_ns'' hops None ''graph''
          (chain_db uid emb ea eb ec ''undir_ns'')) (\<lambda>out. k (map qr_text out))"
      using chain_query_db[OF s] by blast
    from chain_texts[OF s c(1), where hops = 1 and ea = ea and eb = eb and ec = ec and q = "''BBB''"] show ?thesis
      unfolding undirected_walk_reaches_a_from_b_seed_def c(2) chain_seed[OF s] hop
      by (auto simp: chain_walk(3)[OF c(1)] chain_graph_texts[OF c(1)] simp del: set_map)
  qed
qed

lemma hop_zero_test:
  assumes s: "chain_setup J D X Y emb file ''hops0_ns''"
  shows "hops_zero_excludes_graph_lane J D X Y emb file"
proof -
  obtain uid ea eb ec where c: "inj uid" "\<And>q hops k. chain_query J D X Y emb ''hops0_ns'' file q hops k \<longleftrightarrow>
      runs (pgrg_query J Y (\<lambda>t. Inr (emb t)) (px_render X) q None 10 ''hops0_ns'' hops None ''graph''
        (chain_db uid emb ea eb ec ''hops0_ns'')) (\<lambda>out. k (map qr_text out))"
    using chain_query_db[OF s] by blast
  have Y: "retr_ok Y" using s by (simp add: chain_setup_def)
  then have "rx_fused_rows Y [] = []" by (auto simp: retr_ok_def dest: spec[of _ "[]"])
  then have "fused_rows Y (union_lanes Y Graph q v None ns 0 w db) db = []" for q v ns w db
    using lanes_off[OF Y] by (simp add: union_lanes_def uses_vector_def uses_bm25_def lane_rows_def fused_rows_def)
  then have "pgrg_query J Y (\<lambda>t. Inr (emb t)) (px_render X) q None 10 ns 0 None ''graph'' db = Inr []" for q ns db
    by (simp add: pgrg_query_def mode_parse_def run_query_def Let_def)
  then show ?thesis unfolding hops_zero_excludes_graph_lane_def c(2) by simp
qed

section \<open>The lanes of a mode\<close>

text \<open>The fixture of the other query tests: two chunks, and an entity on the first.\<close>

definition minimal_records ::
  "(nat \<Rightarrow> uuid) \<Rightarrow> f32 list \<Rightarrow> f32 list \<Rightarrow> f32 list \<Rightarrow> 'v \<Rightarrow> string \<Rightarrow> 'v fixture_record list" where
  "minimal_records uid e1 e2 e3 md ns =
     [FDocument \<lparr>fd_id = uid 0x10, fd_namespace = ns, fd_source = ''d.md'', fd_content_hash = ''h-q-'' @ ns,
        fd_title = None, fd_metadata = md\<rparr>,
      FChunk \<lparr>fc_id = uid 0x11, fc_namespace = ns, fc_document_id = uid 0x10, fc_ord = 0, fc_text = ''alpha auth module'',
        fc_token_count = 3, fc_embedding = e1, fc_metadata = md\<rparr>,
      FChunk \<lparr>fc_id = uid 0x12, fc_namespace = ns, fc_document_id = uid 0x10, fc_ord = 1, fc_text = ''beta gamma'',
        fc_token_count = 2, fc_embedding = e2, fc_metadata = md\<rparr>,
      FEntity \<lparr>fe_id = uid 0x20, fe_namespace = ns, fe_name = ''alpha'', fe_kind_label = Some ''module'',
        fe_name_emb = e3, fe_description = None\<rparr>,
      FChunkEntity \<lparr>fx_chunk_id = uid 0x11, fx_entity_id = uid 0x20, fx_confidence = rnd binary64 (9 / 10),
        fx_classification = ''extracted''\<rparr>]"

definition minimal_query ::
  "'v json_api \<Rightarrow> 'v fixture_api \<Rightarrow> pg_ext \<Rightarrow> 'v retr_ext \<Rightarrow> (string \<Rightarrow> f32 list) \<Rightarrow> string \<Rightarrow> (string + string) list
     \<Rightarrow> (database \<Rightarrow> bool) \<Rightarrow> bool" where
  "minimal_query J D X Y emb ns file k \<longleftrightarrow>
     (case ingest_extracted J D X (''/tmp/pgrg_q_'' @ ns @ ''.jsonl'') (Inr file) ns (create_namespace ns installed_db) of
        (Inl _, _) \<Rightarrow> False
      | (Inr _, db) \<Rightarrow> k db)"

definition only_lane :: "string \<Rightarrow> query_row list \<Rightarrow> bool" where
  "only_lane lane out = (case out of [] \<Rightarrow> False | r # _ \<Rightarrow> list_all (\<lambda>(l, rk, w). l = lane) (qr_signals r))"

definition query_vector_mode_only_vec_lane_in_signals where
  "query_vector_mode_only_vec_lane_in_signals J D X Y emb file \<longleftrightarrow>
     minimal_query J D X Y emb ''q_vec_only_ns'' file (\<lambda>db.
       runs (pgrg_query J Y (\<lambda>t. Inr (emb t)) (px_render X) ''alpha'' None 5 ''q_vec_only_ns'' 1 None ''vector'' db)
         (only_lane ''vec''))"

definition query_bm25_mode_only_bm25_lane_in_signals where
  "query_bm25_mode_only_bm25_lane_in_signals J D X Y emb file \<longleftrightarrow>
     minimal_query J D X Y emb ''q_bm25_only_ns'' file (\<lambda>db.
       runs (pgrg_query J Y (\<lambda>t. Inr (emb t)) (px_render X) ''alpha'' None 5 ''q_bm25_only_ns'' 1 None ''bm25'' db)
         (only_lane ''bm25''))"

definition query_graph_mode_only_graph_lane_in_signals where
  "query_graph_mode_only_graph_lane_in_signals J D X Y emb file \<longleftrightarrow>
     minimal_query J D X Y emb ''q_graph_only_ns'' file (\<lambda>db.
       runs (pgrg_query J Y (\<lambda>t. Inr (emb t)) (px_render X) ''alpha'' None 5 ''q_graph_only_ns'' 1 None ''graph'' db)
         (only_lane ''graph''))"

definition query_unknown_mode_errors where
  "query_unknown_mode_errors J D X Y emb file \<longleftrightarrow>
     minimal_query J D X Y emb ''q_unknown_ns'' file (\<lambda>db.
       raises (pgrg_query J Y (\<lambda>t. Inr (emb t)) (px_render X) ''q'' None 5 ''q_unknown_ns'' 1 None ''smart'' db))"

text \<open>\<open>zero_w\<close> and \<open>neg_w\<close> are the two objects of weights, parsed.\<close>

definition weights_negative_input_clamped_to_zero where
  "weights_negative_input_clamped_to_zero J D X Y emb file zero_w neg_w \<longleftrightarrow>
     minimal_query J D X Y emb ''neg_w_ns'' file (\<lambda>db.
       let score = (\<lambda>w. map_sum id (\<lambda>out. map qr_score (take 1 out))
             (pgrg_query J Y (\<lambda>t. Inr (emb t)) (px_render X) ''alpha'' None 5 ''neg_w_ns'' 1 (Some w) ''hybrid'' db))
       in score zero_w = score neg_w)"

definition query_hybrid_descending_score_order where
  "query_hybrid_descending_score_order J D X Y emb file \<longleftrightarrow>
     minimal_query J D X Y emb ''q_order_ns'' file (\<lambda>db.
       runs (pgrg_query J Y (\<lambda>t. Inr (emb t)) (px_render X) ''alpha auth'' None 5 ''q_order_ns'' 1 None ''hybrid'' db)
         (\<lambda>out. sorted_wrt (\<lambda>a b. fle b a) (map qr_score out)))"

definition minimal_db :: "(nat \<Rightarrow> uuid) \<Rightarrow> f32 list \<Rightarrow> f32 list \<Rightarrow> f32 list \<Rightarrow> string \<Rightarrow> database" where
  "minimal_db uid e1 e2 e3 ns = (create_namespace ns installed_db)\<lparr>
     db_documents := [\<lparr>dr_id = uid 0x10, dr_namespace = ns, dr_source = ''d.md'', dr_content_hash = ''h-q-'' @ ns,
       dr_title = None\<rparr>],
     db_chunks := [\<lparr>cw_id = uid 0x11, cw_document_id = uid 0x10, cw_namespace = ns, cw_ord = 0,
         cw_text = ''alpha auth module'', cw_token_count = 3, cw_embedding = e1\<rparr>,
       \<lparr>cw_id = uid 0x12, cw_document_id = uid 0x10, cw_namespace = ns, cw_ord = 1, cw_text = ''beta gamma'',
         cw_token_count = 2, cw_embedding = e2\<rparr>],
     db_entities := [\<lparr>en_id = uid 0x20, en_namespace = ns, en_name = ''alpha'', en_kind = Some ''module'',
       en_name_emb = Some e3, en_description = None\<rparr>],
     db_chunk_entities := [\<lparr>ce_chunk_id = uid 0x11, ce_entity_id = uid 0x20, ce_confidence = rnd binary64 (9 / 10)\<rparr>]\<rparr>"

lemma load_minimal:
  assumes "inj uid" and "\<And>v. v \<in> {e1, e2, e3} \<Longrightarrow> px_vector_in X (vector_literal v) = Inr v \<and> length v = 384"
  shows "insert_records X ns (minimal_records uid e1 e2 e3 md ns) (create_namespace ns installed_db)
    = Inr (minimal_db uid e1 e2 e3 ns)"
  by (simp add: minimal_records_def minimal_db_def sql_insert_document_def create_namespace_there
      sql_insert_chunk_def sql_vector_def assms(2) inj_eq[OF assms(1)] sql_insert_entity_def
      sql_insert_chunk_entity_def entity_exists_def)

definition minimal_setup where
  "minimal_setup J D X Y emb file ns \<longleftrightarrow> retr_ok Y \<and> rx_matches Y ''alpha'' ''alpha auth module''
     \<and> flt (rx_distance Y (emb ''alpha'') (emb ''alpha'')) (rnd binary64 (35 / 100))
     \<and> (\<exists>uid e1 e2 md. inj uid \<and> file_records J D file = Some (minimal_records uid e1 e2 (emb ''alpha'') md ns)
          \<and> (\<forall>v \<in> {e1, e2, emb ''alpha''}. px_vector_in X (vector_literal v) = Inr v \<and> length v = 384))"

lemma minimal_query_db:
  assumes "minimal_setup J D X Y emb file ns"
  obtains uid e1 e2 where "inj uid"
    "\<And>k. minimal_query J D X Y emb ns file k \<longleftrightarrow> k (minimal_db uid e1 e2 (emb ''alpha'') ns)"
proof -
  from assms obtain uid e1 e2 md where c: "inj uid"
      "file_records J D file = Some (minimal_records uid e1 e2 (emb ''alpha'') md ns)"
      "\<forall>v \<in> {e1, e2, emb ''alpha''}. px_vector_in X (vector_literal v) = Inr v \<and> length v = 384"
    unfolding minimal_setup_def by blast
  have "insert_records X ns (minimal_records uid e1 e2 (emb ''alpha'') md ns) (create_namespace ns installed_db)
      = Inr (minimal_db uid e1 e2 (emb ''alpha'') ns)"
    by (rule load_minimal[OF c(1)]) (use c(3) in blast)
  with c(2) obtain n where "load_lines J D X ns 0 file 0 (create_namespace ns installed_db)
      = Inr (n, minimal_db uid e1 e2 (emb ''alpha'') ns)"
    using load_lines_Inr_iff[where J = J and D = D and X = X and ns = ns and ls = "file"] by blast
  then show thesis by (intro that[OF c(1)]) (simp add: minimal_query_def ingest_extracted_def)
qed

text \<open>A signal names a lane of the mode, and a mode whose lane found something returns a row.\<close>

lemma query_signals:
  assumes "retr_ok Y" and "distinct (map cw_id (db_chunks db))" and "mode_parse mode = Some m" and "embed_fn q = Inr v"
    and "pgrg_query J Y embed_fn render q fil top_k ns hops weights mode db = Inr out"
    and "r \<in> set out" and "(lane, rk, w) \<in> set (qr_signals r)"
  shows "lane_on m hops lane"
proof -
  let ?u = "union_lanes Y m q v fil ns hops (query_weights J weights) db"
  have "r \<in> set (fused_rows Y ?u db)"
    using assms(3-6) by (auto simp: pgrg_query_def run_query_def Let_def map_sum_id_Inr split: if_splits dest: in_set_takeD)
  then obtain c where "r = fused_row ?u c" unfolding fused_rows_facts(2)[OF assms(1,2) refl] by blast
  with assms(7) obtain i where "(i, rk, lane, w) \<in> set ?u" by (auto simp: fused_row_def Let_def)
  then show ?thesis using union_facts(2)[OF assms(1,2) refl] by blast
qed

lemma only_laneI:
  assumes "retr_ok Y" and "distinct (map cw_id (db_chunks db))" and "mode_parse mode = Some m" and "embed_fn q = Inr v"
    and "int (length (db_chunks db)) \<le> sint top_k" and "union_lanes Y m q v fil ns hops (query_weights J weights) db \<noteq> []"
    and "\<And>l. lane_on m hops l \<Longrightarrow> l = lane"
  shows "runs (pgrg_query J Y embed_fn render q fil top_k ns hops weights mode db) (only_lane lane)"
proof -
  let ?u = "union_lanes Y m q v fil ns hops (query_weights J weights) db"
  obtain out where out: "pgrg_query J Y embed_fn render q fil top_k ns hops weights mode db = Inr out"
      "mset out = mset (fused_rows Y ?u db)"
    using query_in_full[where embed_fn = embed_fn and q = q and ns = ns and hops = hops and J = J and weights = weights
      and render = render and fil = fil and top_k = top_k, OF assms(1-4) refl assms(5)]
    by (elim exE conjE)
  have "length out = card (fst ` set ?u)"
    using mset_eq_length[OF out(2)] fused_rows_facts(3)[OF assms(1,2) refl] by simp
  then obtain r rs where r: "out = r # rs" using assms(6) by (cases out) (auto simp: card_eq_0_iff)
  have "l = lane" if "(l, rk, w) \<in> set (qr_signals r)" for l rk w
    by (rule assms(7), rule query_signals[OF assms(1-4) out(1) _ that]) (simp add: r)
  then show ?thesis unfolding out(1) by (auto simp: only_lane_def r list_all_iff)
qed

lemma minimal_db_sel:
  "inj uid \<Longrightarrow> distinct (map cw_id (db_chunks (minimal_db uid e1 e2 e3 ns)))"
  "length (db_chunks (minimal_db uid e1 e2 e3 ns)) = 2"
  by (simp_all add: minimal_db_def inj_eq)

lemma take_numbered_empty: "take 50 (numbered xs) = [] \<longleftrightarrow> xs = []"
  by (metis length_0_conv numbered_length take_eq_Nil zero_neq_numeral)

lemma stable_sort_empty: "stable_sort le xs = [] \<longleftrightarrow> xs = []"
  by (metis length_0_conv length_stable_sort)

lemma lane_only:
  "lane_on Vector hops l \<Longrightarrow> l = ''vec''" "lane_on Bm25 hops l \<Longrightarrow> l = ''bm25''" "lane_on Graph hops l \<Longrightarrow> l = ''graph''"
  by (auto simp: lane_on_def)

lemma modes: "mode_parse ''vector'' = Some Vector" "mode_parse ''bm25'' = Some Bm25" "mode_parse ''graph'' = Some Graph"
  by (simp_all add: mode_parse_def)

lemma union_found:
  "vec_lane Y m v fil ns db \<noteq> [] \<or> bm_lane Y m q fil ns db \<noteq> [] \<or> graph_lane Y m v fil ns hops db \<noteq> []
     \<Longrightarrow> union_lanes Y m q v fil ns hops w db \<noteq> []"
  by (auto simp: union_lanes_def lane_rows_def)

lemma lane_tests:
  "minimal_setup J D X Y emb file ''q_vec_only_ns'' \<Longrightarrow> query_vector_mode_only_vec_lane_in_signals J D X Y emb file"
  "minimal_setup J D X Y emb file ''q_bm25_only_ns'' \<Longrightarrow> query_bm25_mode_only_bm25_lane_in_signals J D X Y emb file"
proof -
  have five: "int (length (db_chunks (minimal_db uid e1 e2 e3 ns))) \<le> sint (5 :: i32)" for uid e1 e2 e3 ns
    by (simp add: minimal_db_sel)
  show "query_vector_mode_only_vec_lane_in_signals J D X Y emb file" if s: "minimal_setup J D X Y emb file ''q_vec_only_ns''"
  proof -
    obtain uid e1 e2 where c: "inj uid" "\<And>k. minimal_query J D X Y emb ''q_vec_only_ns'' file k
        \<longleftrightarrow> k (minimal_db uid e1 e2 (emb ''alpha'') ''q_vec_only_ns'')"
      using minimal_query_db[OF s] by blast
    have "vec_lane Y Vector (emb ''alpha'') None ''q_vec_only_ns'' (minimal_db uid e1 e2 (emb ''alpha'') ''q_vec_only_ns'') \<noteq> []"
      unfolding vec_lane_def take_numbered_empty
      by (simp add: minimal_db_def passes_def uses_vector_def stable_sort_empty)
    note found = union_found[OF disjI1, OF this]
    show ?thesis unfolding query_vector_mode_only_vec_lane_in_signals_def c(2)
      by (rule only_laneI[where m = Vector and v = "emb ''alpha''", OF _ minimal_db_sel(1)[OF c(1)] modes(1)])
        (use s found five in \<open>auto simp: minimal_setup_def dest: lane_only\<close>)
  qed
  show "query_bm25_mode_only_bm25_lane_in_signals J D X Y emb file" if s: "minimal_setup J D X Y emb file ''q_bm25_only_ns''"
  proof -
    obtain uid e1 e2 where c: "inj uid" "\<And>k. minimal_query J D X Y emb ''q_bm25_only_ns'' file k
        \<longleftrightarrow> k (minimal_db uid e1 e2 (emb ''alpha'') ''q_bm25_only_ns'')"
      using minimal_query_db[OF s] by blast
    have "rx_matches Y ''alpha'' ''alpha auth module''" using s by (simp add: minimal_setup_def)
    then have "bm_lane Y Bm25 ''alpha'' None ''q_bm25_only_ns'' (minimal_db uid e1 e2 (emb ''alpha'') ''q_bm25_only_ns'') \<noteq> []"
      unfolding bm_lane_def take_numbered_empty
      by (simp add: minimal_db_def passes_def uses_bm25_def stable_sort_empty)
    note found = union_found[OF disjI2, OF disjI1, OF this]
    show ?thesis unfolding query_bm25_mode_only_bm25_lane_in_signals_def c(2)
      by (rule only_laneI[where m = Bm25 and v = "emb ''alpha''", OF _ minimal_db_sel(1)[OF c(1)] modes(2)])
        (use s found five in \<open>auto simp: minimal_setup_def dest: lane_only\<close>)
  qed
qed

lemma query_unknown_mode_raises: "raises (pgrg_query J Y embed_fn render q fil k ns hops weights ''smart'' db)"
  by (simp add: pgrg_query_def mode_parse_def Let_def)

lemma clamped_weights:
  assumes "js_as_f64 J (js_key J a ''vec'') = js_as_f64 J (js_key J b ''vec'')"
    and "js_as_f64 J (js_key J a ''graph'') = js_as_f64 J (js_key J b ''graph'')"
    and "js_as_f64 J (js_key J a ''bm25'') = Some (Fin 0)" "js_as_f64 J (js_key J b ''bm25'') = Some (Fin (- 1))"
  shows "query_weights J (Some a) = query_weights J (Some b)"
  using assms by (simp add: query_weights_def weight_of_json_def fmax_def flt_def)

lemma query_by_weights:
  "query_weights J a = query_weights J b
     \<Longrightarrow> pgrg_query J Y embed_fn render q fil k ns hops a mode db = pgrg_query J Y embed_fn render q fil k ns hops b mode db"
  by (simp add: pgrg_query_def)

lemma graph_lane_test:
  assumes s: "minimal_setup J D X Y emb file ''q_graph_only_ns''"
  shows "query_graph_mode_only_graph_lane_in_signals J D X Y emb file"
proof -
  let ?ns = "''q_graph_only_ns''"
  obtain uid e1 e2 where c: "inj uid"
      "\<And>k. minimal_query J D X Y emb ?ns file k \<longleftrightarrow> k (minimal_db uid e1 e2 (emb ''alpha'') ?ns)"
    using minimal_query_db[OF s] by blast
  let ?db = "minimal_db uid e1 e2 (emb ''alpha'') ?ns"
  have Y: "retr_ok Y" using s by (simp add: minimal_setup_def)
  have "seed_entities Y (emb ''alpha'') ?ns ?db = [uid 0x20]"
    unfolding seed_entities_def using s by (simp add: minimal_setup_def minimal_db_def Let_def)
  then have walked: "fst ` set (walk (db_relationships ?db) (sint (1 :: i32)) (map (\<lambda>i. (i, 0))
      (seed_entities Y (emb ''alpha'') ?ns ?db))) = {uid 0x20}"
    by (simp add: walk.simps walk_step_def minimal_db_def)
  have "\<exists>out. pgrg_query J Y (\<lambda>t. Inr (emb t)) (px_render X) ''alpha'' None 5 ?ns 1 None ''graph'' ?db = Inr out
      \<and> set (map qr_text out) = graph_texts ?db ?ns {uid 0x20}"
    by (rule graph_query_texts[OF Y minimal_db_sel(1)[OF c(1)] _ _ _ _ walked[symmetric]])
      (simp_all add: minimal_db_sel)
  then obtain out where out: "pgrg_query J Y (\<lambda>t. Inr (emb t)) (px_render X) ''alpha'' None 5 ?ns 1 None ''graph'' ?db = Inr out"
      "set (map qr_text out) = graph_texts ?db ?ns {uid 0x20}"
    by blast
  have "''alpha auth module'' \<in> graph_texts ?db ?ns {uid 0x20}"
    by (simp add: mem_graph_texts minimal_db_def)
  with out(2) obtain r rs where r: "out = r # rs" by (cases out) auto
  have "l = ''graph''" if "(l, rk, w) \<in> set (qr_signals r)" for l rk w
    using query_signals[where embed_fn = "\<lambda>t. Inr (emb t)", OF Y minimal_db_sel(1)[OF c(1)] modes(3) refl out(1) _ that]
    by (auto simp: r dest: lane_only)
  then show ?thesis
    unfolding query_graph_mode_only_graph_lane_in_signals_def c(2) out(1) by (auto simp: only_lane_def r list_all_iff)
qed

lemma mode_test:
  "minimal_setup J D X Y emb file ''q_unknown_ns'' \<Longrightarrow> query_unknown_mode_errors J D X Y emb file"
  by (elim minimal_query_db) (simp add: query_unknown_mode_errors_def query_unknown_mode_raises)

lemma weights_test:
  "minimal_setup J D X Y emb file ''neg_w_ns''
     \<Longrightarrow> js_as_f64 J (js_key J zero_w ''vec'') = js_as_f64 J (js_key J neg_w ''vec'')
     \<Longrightarrow> js_as_f64 J (js_key J zero_w ''graph'') = js_as_f64 J (js_key J neg_w ''graph'')
     \<Longrightarrow> js_as_f64 J (js_key J zero_w ''bm25'') = Some (Fin 0) \<Longrightarrow> js_as_f64 J (js_key J neg_w ''bm25'') = Some (Fin (- 1))
     \<Longrightarrow> weights_negative_input_clamped_to_zero J D X Y emb file zero_w neg_w"
  by (elim minimal_query_db)
    (simp add: weights_negative_input_clamped_to_zero_def Let_def
      query_by_weights[OF clamped_weights[of J zero_w neg_w]])

lemma order_test:
  assumes s: "minimal_setup J D X Y emb file ''q_order_ns''"
  shows "query_hybrid_descending_score_order J D X Y emb file"
proof -
  let ?ns = "''q_order_ns''"
  obtain uid e1 e2 where c: "inj uid"
      "\<And>k. minimal_query J D X Y emb ?ns file k \<longleftrightarrow> k (minimal_db uid e1 e2 (emb ''alpha'') ?ns)"
    using minimal_query_db[OF s] by blast
  let ?db = "minimal_db uid e1 e2 (emb ''alpha'') ?ns"
  let ?q = "''alpha auth''"
  let ?u = "union_lanes Y Hybrid ?q (emb ?q) None ?ns 1 (query_weights J None) ?db"
  have Y: "retr_ok Y" and d: "distinct (map cw_id (db_chunks ?db))"
    using s minimal_db_sel(1)[OF c(1)] by (simp_all add: minimal_setup_def)
  define all where "all = stable_sort (\<lambda>a b. sql_float_le (qr_score b) (qr_score a)) (fused_rows Y ?u ?db)"
  have out: "pgrg_query J Y (\<lambda>t. Inr (emb t)) (px_render X) ?q None 5 ?ns 1 None ''hybrid'' ?db = Inr (take 5 all)"
    by (simp add: pgrg_query_def mode_parse_def run_query_def all_def Let_def)
  have "sorted_wrt (\<lambda>a b. sql_float_le (qr_score b) (qr_score a)) all"
    unfolding all_def by (rule by_score.sorted_stable_sort) simp
  note sorted = this
  have "qr_score r \<noteq> NaN" if "r \<in> set all" for r
  proof -
    from that obtain ch where "cw_id ch \<in> fst ` set ?u" "r = fused_row ?u ch"
      unfolding all_def set_stable_sort fused_rows_facts(2)[OF Y d refl] by blast
    then have "fnonneg (qr_score r)"
      using fused_score_fnonneg[OF Y d _ query_weights_ok refl, where i = "cw_id ch"]
      by (simp add: fused_row_def Let_def minimal_db_sel)
    then show ?thesis by (rule fnonneg_not_NaN)
  qed
  then have "sorted_wrt (\<lambda>a b. fle (qr_score b) (qr_score a)) all"
    by (intro sorted_wrt_mono_rel[OF _ sorted]) (simp add: sql_float_le_def)
  then show ?thesis
    unfolding query_hybrid_descending_score_order_def c(2) out by (simp add: sorted_wrt_map sorted_wrt_take)
qed

section \<open>The pipeline over SPI\<close>

text \<open>
  The tests drive \<open>run_job\<close> in their own transaction, with the provider that finds nothing, and count
  the rows that transaction sees.
\<close>

definition job_of :: "ingest_source \<Rightarrow> string \<Rightarrow> ingest_request" where
  "job_of src ns = \<lparr>rq_source = src, rq_namespace = ns, rq_chunk_strategy = ''auto''\<rparr>"

definition run_in_test where
  "run_in_test X env emb src ns k sw =
     (case run_job (spi_client X) env (job_of src ns) emb (mock_llm mock_new) sw of
        (Inl _, _) \<Rightarrow> False
      | (Inr outcome, sw') \<Rightarrow> k outcome sw')"

definition docs_in :: "string \<Rightarrow> pg_tx \<times> 'w \<Rightarrow> nat" where
  "docs_in ns sw = length (filter (\<lambda>d. dr_namespace d = ns) (db_documents (tx_work (fst sw))))"

definition chunks_in :: "string \<Rightarrow> pg_tx \<times> 'w \<Rightarrow> nat" where
  "chunks_in ns sw = length (filter (\<lambda>c. cw_namespace c = ns) (db_chunks (tx_work (fst sw))))"

text \<open>The model's rows always carry an embedding.\<close>

definition spi_pg_client_drives_run_job_to_chunks_with_embeddings where
  "spi_pg_client_drives_run_job_to_chunks_with_embeddings X env emb w \<longleftrightarrow>
     run_in_test X env emb (Text ''doc.md'' ''the quick brown fox jumps over the lazy dog'') ''spi_drain_ns''
       (\<lambda>outcome sw. (\<exists>d n. outcome = Completed d n) \<and> docs_in ''spi_drain_ns'' sw = 1 \<and> 1 \<le> chunks_in ''spi_drain_ns'' sw)
       (tx_begin [] (create_namespace ''spi_drain_ns'' installed_db), w)"

definition ingest_text_enqueues_payload_and_pipeline_writes_document where
  "ingest_text_enqueues_payload_and_pipeline_writes_document J X Y env emb embed_fn now new_id w \<longleftrightarrow>
     runs (ingest_text now new_id ''doc1'' ''hello world from ingest_text'' ''ingest_text_ns'' ''auto''
         (create_namespace ''ingest_text_ns'' installed_db)) (\<lambda>(i, db).
       Option.bind (job_with i db) jb_payload = Some ''hello world from ingest_text''
       \<and> map_option jb_source (job_with i db) = Some ''doc1''
       \<and> run_in_test X env emb (Text ''doc1'' ''hello world from ingest_text'') ''ingest_text_ns''
           (\<lambda>_ sw. docs_in ''ingest_text_ns'' sw = 1
              \<and> runs (pgrg_query J Y embed_fn (px_render X) ''hello world'' None 5 ''ingest_text_ns'' 1 None ''hybrid''
                   (tx_work (fst sw))) (\<lambda>out. 1 \<le> length out))
           (tx_begin [] db, w))"

definition ingest_bytes_enqueues_payload_and_pipeline_writes_document where
  "ingest_bytes_enqueues_payload_and_pipeline_writes_document X env emb now new_id w \<longleftrightarrow>
     runs (ingest_bytes now new_id ''doc1.bin'' ''hello world'' ''ingest_bytes_ns'' ''auto''
         (create_namespace ''ingest_bytes_ns'' installed_db)) (\<lambda>(i, db).
       Option.bind (job_with i db) jb_payload = Some ''hello world''
       \<and> run_in_test X env emb (Bytes ''doc1.bin'' ''hello world'') ''ingest_bytes_ns''
           (\<lambda>_ sw. docs_in ''ingest_bytes_ns'' sw = 1) (tx_begin [] db, w))"

definition duplicate_ingest_via_run_job_yields_skipped_no_op where
  "duplicate_ingest_via_run_job_yields_skipped_no_op X env emb w \<longleftrightarrow>
     run_in_test X env emb (Text ''d'' ''identical content body'') ''dup_ns''
       (\<lambda>first sw1. (\<exists>d n. first = Completed d n)
          \<and> run_in_test X env emb (Text ''d'' ''identical content body'') ''dup_ns''
              (\<lambda>second sw2. (\<exists>h. second = SkippedDuplicate h) \<and> docs_in ''dup_ns'' sw2 = 1) sw1)
       (tx_begin [] (create_namespace ''dup_ns'' installed_db), w)"

text \<open>What a test needs of the chunker, the embedder, \<open>pgvector\<close> and the identifiers drawn.\<close>

definition pipeline_setup where
  "pipeline_setup X env emb body w \<longleftrightarrow> (\<exists>chunks vs w1 ids w2 i w3.
     chunker_chunk (ie_chunkshop env) (chunker_new Auto) body = Inr chunks \<and> chunks \<noteq> [] \<and> distinct (map ch_ord chunks)
     \<and> em_embed_batch emb (map ch_text chunks) w = (Inr vs, w1) \<and> length vs = length chunks
     \<and> (\<forall>v \<in> set vs. px_vector_in X (vector_literal v) = Inr v \<and> length v = 384)
     \<and> draws (ie_new_v4 env) (length chunks) w1 = (ids, w2) \<and> ie_new_v4 env w2 = (i, w3) \<and> distinct ids)"

lemma pipeline_runs:
  assumes "pipeline_setup X env emb body w" and "is_utf8 body" and "read_source env src w = (Inr (name, body), w)"
    and "db_documents db = []" "db_chunks db = []" "db_dim db = 384" "ns \<in> nr_name ` set (db_namespaces db)" "db_ok db"
  shows "\<exists>d cs i n w'. run_job (spi_client X) env (job_of src ns) emb (mock_llm mock_new) (tx_begin [] db, w)
      = (Inr (Completed i n), (open_tx db (with_document d cs db), w'))
    \<and> dr_namespace d = ns \<and> dr_content_hash d = content_hash (ie_sha env) body \<and> cs \<noteq> []
    \<and> list_all (\<lambda>c. cw_namespace c = ns) cs \<and> distinct (map cw_id cs)"
proof -
  from assms(1) obtain chunks vs w1 ids w2 i w3 where p:
      "chunker_chunk (ie_chunkshop env) (chunker_new Auto) body = Inr chunks" "chunks \<noteq> []" "distinct (map ch_ord chunks)"
      "em_embed_batch emb (map ch_text chunks) w = (Inr vs, w1)" "length vs = length chunks"
      "\<forall>v \<in> set vs. px_vector_in X (vector_literal v) = Inr v \<and> length v = 384"
      "draws (ie_new_v4 env) (length chunks) w1 = (ids, w2)" "ie_new_v4 env w2 = (i, w3)" "distinct ids"
    unfolding pipeline_setup_def by (elim exE conjE)
  define d where "d = \<lparr>dr_id = i, dr_namespace = ns, dr_source = name, dr_content_hash = content_hash (ie_sha env) body,
    dr_title = None\<rparr>"
  define cs where "cs = map (chunk_row_of ns i) (zip ids (zip chunks vs))"
  have len: "length ids = length chunks" using p(7) by (rule draws_length)
  have cols: "map cw_id cs = ids" "map cw_text cs = map ch_text chunks"
    unfolding cs_def using len p(5) by (simp_all only: chunk_rows_columns)
  have fit: "chunks_fit X (with_document d [] db) cs"
    using chunks_fitI[OF assms(8) len p(5) p(9) _ p(3), of d X ns] p(6) assms(4-6) by (simp add: cs_def d_def)
  have auto: "unwrap_or chunk_strategy_default (chunk_strategy_parse ''auto'') = Auto"
    by (simp add: chunk_strategy_parse_def)
  have "run_job (tokio_client X) env (job_of src ns) emb (mock_llm mock_new) (tx_begin [] db, w)
      = (Inr (Completed i (length chunks)), (open_tx db (with_document d cs db), w3))"
    by (rule run_job_completes[OF _ assms(2) _ p(2,4,5,7,8)])
      (use assms(3,4,7) p(1) fit in \<open>simp_all add: job_of_def auto d_def cs_def\<close>)
  moreover have "cs \<noteq> []" using cols(2) p(2) by auto
  moreover have "list_all (\<lambda>c. cw_namespace c = ns) cs" by (auto simp: list_all_iff cs_def chunk_row_of_def)
  ultimately show ?thesis
    unfolding spi_tokio_agree using p(9) cols(1) by (intro exI conjI) (auto simp: d_def)
qed

text \<open>The session's tables before the job, with or without a queued row.\<close>

lemma session_ready:
  "ns \<in> nr_name ` set (db_namespaces (create_namespace ns installed_db\<lparr>db_jobs := js\<rparr>))"
  "db_ok (create_namespace ns installed_db\<lparr>db_jobs := js\<rparr>)"
proof -
  have "ns \<in> nr_name ` set (db_namespaces (create_namespace ns installed_db))"
    using create_namespace_there[of ns installed_db] by (auto simp: list_ex_iff)
  then show "ns \<in> nr_name ` set (db_namespaces (create_namespace ns installed_db\<lparr>db_jobs := js\<rparr>))" by simp
  show "db_ok (create_namespace ns installed_db\<lparr>db_jobs := js\<rparr>)" by (simp add: db_ok_def)
qed

lemma pipeline_in_test:
  assumes "pipeline_setup X env emb body w" and "is_utf8 body" and "src = Text name body \<or> src = Bytes name body"
    and "db = create_namespace ns installed_db\<lparr>db_jobs := js\<rparr>"
    and "\<And>d cs i n w'. run_job (spi_client X) env (job_of src ns) emb (mock_llm mock_new) (tx_begin [] db, w)
        = (Inr (Completed i n), (open_tx db (with_document d cs db), w'))
      \<Longrightarrow> dr_namespace d = ns \<Longrightarrow> dr_content_hash d = content_hash (ie_sha env) body \<Longrightarrow> cs \<noteq> []
      \<Longrightarrow> list_all (\<lambda>c. cw_namespace c = ns) cs \<Longrightarrow> distinct (map cw_id cs)
      \<Longrightarrow> k (Completed i n) (open_tx db (with_document d cs db), w')"
  shows "run_in_test X env emb src ns k (tx_begin [] db, w)"
proof -
  have src: "read_source env src w = (Inr (name, body), w)" using assms(3) by auto
  have "db_documents db = []" "db_chunks db = []" "db_dim db = 384" unfolding assms(4) by simp_all
  from pipeline_runs[OF assms(1,2) src this session_ready[where ns = ns and js = js, folded assms(4)]]
  obtain d cs i n w' where r: "run_job (spi_client X) env (job_of src ns) emb (mock_llm mock_new) (tx_begin [] db, w)
        = (Inr (Completed i n), (open_tx db (with_document d cs db), w'))"
      "dr_namespace d = ns" "dr_content_hash d = content_hash (ie_sha env) body" "cs \<noteq> []"
      "list_all (\<lambda>c. cw_namespace c = ns) cs" "distinct (map cw_id cs)"
    by (elim exE conjE)
  from assms(5)[OF this] show ?thesis by (simp add: run_in_test_def r(1))
qed

lemma namespace_with_jobs: "create_namespace ns installed_db\<lparr>db_jobs := []\<rparr> = create_namespace ns installed_db"
  by (simp add: create_namespace_def namespace_create_def sql_upsert_namespace_def installed_db_def Let_def)

lemma counts_of_run:
  assumes "db = create_namespace ns installed_db\<lparr>db_jobs := js\<rparr>" and "dr_namespace d = ns"
    and "list_all (\<lambda>c. cw_namespace c = ns) cs"
  shows "docs_in ns (open_tx db (with_document d cs db), w) = 1"
    and "chunks_in ns (open_tx db (with_document d cs db), w) = length cs"
  using assms by (simp_all add: docs_in_def chunks_in_def filter_id_conv list_all_iff)

lemma spi_test:
  assumes "pipeline_setup X env emb ''the quick brown fox jumps over the lazy dog'' w"
  shows "spi_pg_client_drives_run_job_to_chunks_with_embeddings X env emb w"
  unfolding spi_pg_client_drives_run_job_to_chunks_with_embeddings_def
  by (rule pipeline_in_test[OF assms _ disjI1[OF refl] namespace_with_jobs[symmetric]])
    (simp_all add: is_utf8_ascii counts_of_run[OF namespace_with_jobs[symmetric]] Suc_le_eq)

lemma bytes_test:
  assumes "pipeline_setup X env emb ''hello world'' w"
  shows "ingest_bytes_enqueues_payload_and_pipeline_writes_document X env emb now new_id w"
proof -
  let ?ns = "''ingest_bytes_ns''" and ?j = "queued_row now new_id ''doc1.bin'' ''ingest_bytes_ns'' ''auto'' (Some ''hello world'')"
  let ?db = "create_namespace ?ns installed_db\<lparr>db_jobs := [?j]\<rparr>"
  have enq: "ingest_bytes now new_id ''doc1.bin'' ''hello world'' ?ns ''auto'' (create_namespace ?ns installed_db) = Inr (new_id, ?db)"
    by (simp add: ingest_bytes_def enqueue_payload_def sql_enqueue_def)
  have "run_in_test X env emb (Bytes ''doc1.bin'' ''hello world'') ?ns (\<lambda>_ sw. docs_in ?ns sw = 1) (tx_begin [] ?db, w)"
    by (rule pipeline_in_test[OF assms _ disjI2[OF refl] refl]) (simp_all add: is_utf8_ascii counts_of_run[OF refl])
  then show ?thesis
    unfolding ingest_bytes_enqueues_payload_and_pipeline_writes_document_def enq
    by (simp add: job_with_def queued_row_def)
qed

lemma duplicate_test:
  fixes w :: 'w
  assumes "pipeline_setup X env emb ''identical content body'' w"
  shows "duplicate_ingest_via_run_job_yields_skipped_no_op X env emb w"
  unfolding duplicate_ingest_via_run_job_yields_skipped_no_op_def
proof (rule pipeline_in_test[OF assms _ disjI1[OF refl] namespace_with_jobs[symmetric]])
  fix d :: doc_row and cs :: "chunk_row list" and i n and w' :: 'w
  let ?ns = "''dup_ns''" let ?db = "create_namespace ?ns installed_db" let ?sw = "(open_tx ?db (with_document d cs ?db), w')"
  assume "run_job (spi_client X) env (job_of (Text ''d'' ''identical content body'') ?ns) emb (mock_llm mock_new)
      (tx_begin [] ?db, w) = (Inr (Completed i n), ?sw)"
  assume d: "dr_namespace d = ?ns" "dr_content_hash d = content_hash (ie_sha env) ''identical content body''"
    and cs: "list_all (\<lambda>c. cw_namespace c = ?ns) cs"
  have "sql_document_exists ?ns (content_hash (ie_sha env) ''identical content body'') (with_document d cs ?db)"
    using d by (simp add: sql_document_exists_def)
  then have "run_job (spi_client X) env (job_of (Text ''d'' ''identical content body'') ?ns) emb (mock_llm mock_new) ?sw
      = (Inr (SkippedDuplicate (content_hash (ie_sha env) ''identical content body'')), ?sw)"
    unfolding spi_tokio_agree
    by (simp add: run_job_def job_of_def sr_bind_def on_world_def on_client_def tokio_ops open_query sr_apply Let_def)
  then show "(\<exists>d' n'. Completed i n = Completed d' n') \<and> run_in_test X env emb (Text ''d'' ''identical content body'') ?ns
      (\<lambda>second sw2. (\<exists>h. second = SkippedDuplicate h) \<and> docs_in ?ns sw2 = 1) ?sw"
    using counts_of_run(1)[OF namespace_with_jobs[symmetric] d(1) cs] by (simp add: run_in_test_def)
qed (simp add: is_utf8_ascii)

text \<open>With the query: the vector lane has the chunks, so at least one row comes back.\<close>

lemma query_some:
  assumes "retr_ok Y" and "distinct (map cw_id (db_chunks db))" and "mode_parse mode = Some m" "uses_vector m"
    and "embed_fn q = Inr v" and "c \<in> set (db_chunks db)" "cw_namespace c = ns" and "1 \<le> sint top_k"
  shows "runs (pgrg_query J Y embed_fn render q None top_k ns hops weights mode db) (\<lambda>out. 1 \<le> length out)"
proof -
  let ?u = "union_lanes Y m q v None ns hops (query_weights J weights) db"
  have "filter (\<lambda>c. cw_namespace c = ns) (db_chunks db) \<noteq> []"
    using assms(6,7) by (metis (mono_tags, lifting) filter_empty_conv)
  then have "vec_lane Y m v None ns db \<noteq> []"
    unfolding vec_lane_def take_numbered_empty using assms(4) by (simp add: passes_def stable_sort_empty)
  then have "?u \<noteq> []" by (auto intro!: union_found)
  then have "fst ` set ?u \<noteq> {}" by simp
  then have "0 < card (fst ` set ?u)" by (simp add: card_gt_0_iff)
  then have "0 < length (fused_rows Y ?u db)" using fused_rows_facts(3)[OF assms(1,2) refl] by metis
  then show ?thesis
    using assms(3,5,8) by (simp add: pgrg_query_def run_query_def Let_def Suc_le_eq stable_sort_empty)
qed

lemma text_test:
  fixes w :: 'w
  assumes "pipeline_setup X env emb ''hello world from ingest_text'' w" and "retr_ok Y" and "embed_fn ''hello world'' = Inr v"
  shows "ingest_text_enqueues_payload_and_pipeline_writes_document J X Y env emb embed_fn now new_id w"
proof -
  let ?body = "''hello world from ingest_text''" and ?ns = "''ingest_text_ns''"
  let ?db = "create_namespace ?ns installed_db\<lparr>db_jobs := [queued_row now new_id ''doc1'' ?ns ''auto'' (Some ?body)]\<rparr>"
  have enq: "ingest_text now new_id ''doc1'' ?body ?ns ''auto'' (create_namespace ?ns installed_db) = Inr (new_id, ?db)"
    by (simp add: ingest_text_def enqueue_payload_def sql_enqueue_def)
  have "run_in_test X env emb (Text ''doc1'' ?body) ?ns (\<lambda>_ sw. docs_in ?ns sw = 1
      \<and> runs (pgrg_query J Y embed_fn (px_render X) ''hello world'' None 5 ?ns 1 None ''hybrid'' (tx_work (fst sw)))
          (\<lambda>out. 1 \<le> length out)) (tx_begin [] ?db, w)"
  proof (rule pipeline_in_test[OF assms(1) _ disjI1[OF refl] refl])
    fix d :: doc_row and cs :: "chunk_row list" and i n and w' :: 'w
    let ?sw = "(open_tx ?db (with_document d cs ?db), w')"
    assume "run_job (spi_client X) env (job_of (Text ''doc1'' ?body) ?ns) emb (mock_llm mock_new)
        (tx_begin [] ?db, w) = (Inr (Completed i n), ?sw)"
    assume d: "dr_namespace d = ?ns" and cs: "cs \<noteq> []" "list_all (\<lambda>c. cw_namespace c = ?ns) cs" "distinct (map cw_id cs)"
    from cs(1) obtain c where c: "c \<in> set cs" by (cases cs) auto
    have "runs (pgrg_query J Y embed_fn (px_render X) ''hello world'' None 5 ?ns 1 None ''hybrid'' (with_document d cs ?db))
        (\<lambda>out. 1 \<le> length out)"
      by (rule query_some[where m = Hybrid and c = c and v = v])
        (use assms(2,3) c cs(2,3) in \<open>simp_all add: mode_parse_def uses_vector_def list_all_iff\<close>)
    then show "docs_in ?ns ?sw = 1 \<and> runs (pgrg_query J Y embed_fn (px_render X) ''hello world'' None 5 ?ns 1 None ''hybrid''
        (tx_work (fst ?sw))) (\<lambda>out. 1 \<le> length out)"
      using counts_of_run(1)[OF refl d cs(2)] by simp
  qed (simp add: is_utf8_ascii)
  then show ?thesis
    unfolding ingest_text_enqueues_payload_and_pipeline_writes_document_def enq
    by (simp add: job_with_def queued_row_def)
qed

section \<open>More of the fixtures\<close>

definition query_hybrid_returns_documented_columns where
  "query_hybrid_returns_documented_columns J D X Y emb file \<longleftrightarrow>
     minimal_query J D X Y emb ''q_hybrid_ns'' file (\<lambda>db.
       runs (pgrg_query J Y (\<lambda>t. Inr (emb t)) (px_render X) ''alpha'' None 5 ''q_hybrid_ns'' 1 None ''hybrid'' db)
         (\<lambda>out. case out of [] \<Rightarrow> False | r # _ \<Rightarrow> qr_signals r \<noteq> []))"

text \<open>The setting is accepted, and the query does not read it.\<close>

definition debug_retrieval_guc_does_not_break_query where
  "debug_retrieval_guc_does_not_break_query J D X Y emb file \<longleftrightarrow>
     minimal_query J D X Y emb ''debug_guc_ns'' file (\<lambda>db.
       guc_assign boot_settings (SessionSet True, ''pg_raggraph.debug_retrieval'', GBool True) ''pg_raggraph.debug_retrieval''
         = Some (GBool True)
       \<and> runs (pgrg_query J Y (\<lambda>t. Inr (emb t)) (px_render X) ''alpha'' None 5 ''debug_guc_ns'' 1 None ''hybrid'' db)
           (\<lambda>out. 0 < length out))"

definition parity_mode_swap_skipped_when_data_exists where
  "parity_mode_swap_skipped_when_data_exists J D X Y emb file \<longleftrightarrow>
     minimal_query J D X Y emb ''dc004_pre'' file (\<lambda>db.
       snd (namespace_create (Some True) ''dc004_post'' ''bge-small-en-v1.5'' None (JObj []) (db, Hnsw)) = Hnsw)"

definition ingest_extracted_loads_fixture_into_tables where
  "ingest_extracted_loads_fixture_into_tables J D X file \<longleftrightarrow>
     (case ingest_extracted J D X ''/tmp/pgrg_fix_test.jsonl'' (Inr file) ''fix_ns'' (create_namespace ''fix_ns'' installed_db) of
        (Inl _, _) \<Rightarrow> False
      | (Inr _, db) \<Rightarrow> length (filter (\<lambda>d. dr_namespace d = ''fix_ns'') (db_documents db)) = 1
          \<and> length (filter (\<lambda>c. cw_namespace c = ''fix_ns'') (db_chunks db)) = 1
          \<and> filter (\<lambda>j. jb_namespace j = ''fix_ns'') (db_jobs db) = [])"

lemma minimal_chunk:
  "\<exists>c \<in> set (db_chunks (minimal_db uid e1 e2 e3 ns)). cw_namespace c = ns"
  by (simp add: minimal_db_def)

lemma hybrid: "mode_parse ''hybrid'' = Some Hybrid" "uses_vector Hybrid"
  by (simp_all add: mode_parse_def uses_vector_def)

lemma minimal_query_rows:
  assumes s: "minimal_setup J D X Y emb file ns" and "inj uid"
  shows "\<exists>r rs. pgrg_query J Y (\<lambda>t. Inr (emb t)) (px_render X) q None 5 ns 1 weights ''hybrid''
      (minimal_db uid e1 e2 (emb ''alpha'') ns) = Inr (r # rs) \<and> qr_signals r \<noteq> []"
proof -
  let ?db = "minimal_db uid e1 e2 (emb ''alpha'') ns"
  have Y: "retr_ok Y" using s by (simp add: minimal_setup_def)
  note d = minimal_db_sel(1)[OF assms(2)]
  obtain c where "c \<in> set (db_chunks ?db)" "cw_namespace c = ns" using minimal_chunk by blast
  from query_some[where embed_fn = "\<lambda>t. Inr (emb t)" and J = J and render = "px_render X" and q = q and top_k = 5
      and hops = 1 and weights = weights, OF Y d hybrid refl this]
  have "runs (pgrg_query J Y (\<lambda>t. Inr (emb t)) (px_render X) q None 5 ns 1 weights ''hybrid'' ?db) (\<lambda>out. 1 \<le> length out)"
    by simp
  then obtain r rs where out: "pgrg_query J Y (\<lambda>t. Inr (emb t)) (px_render X) q None 5 ns 1 weights ''hybrid'' ?db = Inr (r # rs)"
    by (cases "pgrg_query J Y (\<lambda>t. Inr (emb t)) (px_render X) q None 5 ns 1 weights ''hybrid'' ?db")
      (auto simp: runs_def Suc_le_length_iff)
  let ?u = "union_lanes Y Hybrid q (emb q) None ns 1 (query_weights J weights) ?db"
  have "r # rs = take 5 (stable_sort (\<lambda>a b. sql_float_le (qr_score b) (qr_score a)) (fused_rows Y ?u ?db))"
    using out by (simp add: pgrg_query_def hybrid run_query_def Let_def)
  then have "r \<in> set (take 5 (stable_sort (\<lambda>a b. sql_float_le (qr_score b) (qr_score a)) (fused_rows Y ?u ?db)))"
    by (metis list.set_intros(1))
  then have "r \<in> set (fused_rows Y ?u ?db)" by (auto dest: in_set_takeD)
  then obtain c where "r = fused_row ?u c" "filter (\<lambda>x. fst x = cw_id c) ?u \<noteq> []"
    by (rule fused_row_visible[OF Y d refl]) blast
  then have "qr_signals r \<noteq> []" by (simp add: fused_row_def Let_def)
  with out show ?thesis by blast
qed

lemma more_tests:
  "minimal_setup J D X Y emb file ''q_hybrid_ns'' \<Longrightarrow> query_hybrid_returns_documented_columns J D X Y emb file"
  "minimal_setup J D X Y emb file ''debug_guc_ns'' \<Longrightarrow> debug_retrieval_guc_does_not_break_query J D X Y emb file"
  "minimal_setup J D X Y emb file ''dc004_pre'' \<Longrightarrow> parity_mode_swap_skipped_when_data_exists J D X Y emb file"
proof -
  show "query_hybrid_returns_documented_columns J D X Y emb file" if s: "minimal_setup J D X Y emb file ''q_hybrid_ns''"
  proof -
    obtain uid e1 e2 where c: "inj uid" "\<And>k. minimal_query J D X Y emb ''q_hybrid_ns'' file k
        \<longleftrightarrow> k (minimal_db uid e1 e2 (emb ''alpha'') ''q_hybrid_ns'')"
      using minimal_query_db[OF s] by blast
    show ?thesis unfolding query_hybrid_returns_documented_columns_def c(2)
      using minimal_query_rows[OF s c(1), where q = "''alpha''" and weights = None
        and ?e1.0 = e1 and ?e2.0 = e2] by auto
  qed
  have set_debug: "guc_assign boot_settings (SessionSet True, ''pg_raggraph.debug_retrieval'', GBool True)
      ''pg_raggraph.debug_retrieval'' = Some (GBool True)"
    by (simp add: guc_assign_def guc_named_def register_def define_int_guc_def define_guc_def guc_accepts_def)
  show "debug_retrieval_guc_does_not_break_query J D X Y emb file" if s: "minimal_setup J D X Y emb file ''debug_guc_ns''"
  proof -
    obtain uid e1 e2 where c: "inj uid" "\<And>k. minimal_query J D X Y emb ''debug_guc_ns'' file k
        \<longleftrightarrow> k (minimal_db uid e1 e2 (emb ''alpha'') ''debug_guc_ns'')"
      using minimal_query_db[OF s] by blast
    show ?thesis unfolding debug_retrieval_guc_does_not_break_query_def c(2)
      using minimal_query_rows[OF s c(1), where q = "''alpha''" and weights = None
        and ?e1.0 = e1 and ?e2.0 = e2] set_debug by auto
  qed
  show "parity_mode_swap_skipped_when_data_exists J D X Y emb file" if s: "minimal_setup J D X Y emb file ''dc004_pre''"
    using s by (elim minimal_query_db)
      (simp add: parity_mode_swap_skipped_when_data_exists_def namespace_create_def maybe_apply_parity_indexes_def
        minimal_db_def sql_upsert_namespace_def Let_def)
qed

lemma fixture_test:
  assumes "file_records J D file = Some
      [FDocument \<lparr>fd_id = i, fd_namespace = ''fix_ns'', fd_source = ''d.md'', fd_content_hash = ''h-fix-1'', fd_title = None,
         fd_metadata = md\<rparr>,
       FChunk \<lparr>fc_id = c, fc_namespace = ''fix_ns'', fc_document_id = i, fc_ord = 2, fc_text = ''epsilon zeta'',
         fc_token_count = 2, fc_embedding = e, fc_metadata = md\<rparr>]"
    and "px_vector_in X (vector_literal e) = Inr e" and "length e = 384"
  shows "ingest_extracted_loads_fixture_into_tables J D X file"
proof -
  obtain n db where "load_lines J D X ''fix_ns'' 0 file 0 (create_namespace ''fix_ns'' installed_db) = Inr (n, db)"
    "length (filter (\<lambda>d. dr_namespace d = ''fix_ns'') (db_documents db)) = 1"
    "length (filter (\<lambda>c. cw_namespace c = ''fix_ns'') (db_chunks db)) = 1" "db_jobs db = []"
    using assms by (auto simp: load_lines_Inr_iff sql_insert_document_def create_namespace_there sql_insert_chunk_def
        sql_vector_def intro!: that)
  then show ?thesis by (simp add: ingest_extracted_loads_fixture_into_tables_def ingest_extracted_def)
qed

section \<open>The premises can hold\<close>

text \<open>
  A vector type that reads back what is printed, a parser given by a table of lines, distances of 0 and 1:
  with these the setups of the tests hold.
\<close>

definition table_fields :: "jv fixture_api" where
  "table_fields = \<lparr>
     ba_field = (\<lambda>v k. case v of JObj kvs \<Rightarrow> map_of kvs k | _ \<Rightarrow> None),
     ba_string = (\<lambda>v. case v of JStr s \<Rightarrow> Some s | _ \<Rightarrow> None),
     ba_i32 = (\<lambda>v. case v of JInt i \<Rightarrow> Some (word_of_int i) | _ \<Rightarrow> None), ba_is_null = (\<lambda>v. v = JNull),
     fa_uuid = (\<lambda>v. case v of JInt i \<Rightarrow> Some (Uuid i) | _ \<Rightarrow> None),
     fa_f64 = (\<lambda>v. case v of JFloat x \<Rightarrow> Some x | _ \<Rightarrow> None),
     fa_f32s = (\<lambda>v. case v of JInt i \<Rightarrow> Some (replicate 384 (Fin (of_int i))) | _ \<Rightarrow> None), fa_error = (\<lambda>_. [])\<rparr>"

definition table_ext :: pg_ext where
  "table_ext = \<lparr>px_vector_in = (\<lambda>l. case parse_vector_literal l of Some v \<Rightarrow> Inr v | None \<Rightarrow> Inl []),
     px_vector_out = vector_literal, px_similarity = (\<lambda>_ _. Fin 0), px_scan = id, px_render = (\<lambda>_. [])\<rparr>"

definition table_retr :: "jv retr_ext" where
  "table_retr = \<lparr>rx_distance = (\<lambda>a b. if a = b then Fin 0 else Fin 1), rx_matches = (\<lambda>_ _. True), rx_ts_rank = (\<lambda>_ _. Fin 0),
     rx_contains = (\<lambda>_ _. True), rx_graph_rows = id, rx_fused_rows = id\<rparr>"

definition table_embed :: "string \<Rightarrow> f32 list" where
  "table_embed t = replicate 384 (Fin (of_int (case t of [] \<Rightarrow> 0 | c # _ \<Rightarrow> of_char c)))"

lemma table_vector:
  assumes "v = replicate 384 (Fin (of_int n))" and "\<bar>n\<bar> < 256"
  shows "px_vector_in table_ext (vector_literal v) = Inr v \<and> length v = 384"
proof -
  have "is_fl binary32 (Fin (of_int n))" using assms(2) rnd_small_int[of n binary32] by (simp add: is_fl_def binary32_def)
  then have "parse_vector_literal (vector_literal v) = Some v"
    unfolding parse_printed_vector by (intro parse_parts_fmt) (simp add: assms(1))
  then show ?thesis using assms(1) by (simp add: table_ext_def)
qed

lemma near_far: "flt (Fin 0) (rnd binary64 (35 / 100))" "\<not> flt (Fin 1) (rnd binary64 (35 / 100))"
proof -
  have "fle (rnd binary64 (1 / 4)) (rnd binary64 (35 / 100))" "fle (rnd binary64 (35 / 100)) (rnd binary64 1)"
    by (rule rnd_mono; simp)+
  moreover have "rnd binary64 1 = Fin 1" using rnd_small_int[of 1 binary64] by (simp add: binary64_def)
  moreover have "rnd binary64 (1 / 4) = Fin (1 / 4)"
    by (rule rnd_exact[of _ 1 "-2", simplified]) (simp_all add: binary64_def)
  ultimately show "flt (Fin 0) (rnd binary64 (35 / 100))" "\<not> flt (Fin 1) (rnd binary64 (35 / 100))"
    by (cases "rnd binary64 (35 / 100)"; simp add: flt_def)+
qed

definition table_chunk :: "int \<Rightarrow> int \<Rightarrow> int \<Rightarrow> string \<Rightarrow> int \<Rightarrow> int \<Rightarrow> string \<Rightarrow> jv" where
  "table_chunk i d ord txt tc e ns = JObj [(''kind'', JStr ''chunk''), (''id'', JInt i), (''namespace'', JStr ns), (''document_id'', JInt d),
     (''ord'', JInt ord), (''text'', JStr txt), (''token_count'', JInt tc), (''embedding'', JInt e)]"

definition table_entity :: "int \<Rightarrow> string \<Rightarrow> string \<Rightarrow> int \<Rightarrow> string \<Rightarrow> jv" where
  "table_entity i name label e ns = JObj [(''kind'', JStr ''entity''), (''id'', JInt i), (''namespace'', JStr ns),
     (''name'', JStr name), (''kind_label'', JStr label), (''name_emb'', JInt e)]"

definition table_link :: "int \<Rightarrow> int \<Rightarrow> f64 \<Rightarrow> jv" where
  "table_link c e x = JObj [(''kind'', JStr ''chunk_entity''), (''chunk_id'', JInt c), (''entity_id'', JInt e),
     (''confidence'', JFloat x), (''classification'', JStr ''extracted'')]"

definition table_document :: "int \<Rightarrow> string \<Rightarrow> string \<Rightarrow> jv" where
  "table_document i h ns = JObj [(''kind'', JStr ''document''), (''id'', JInt i), (''namespace'', JStr ns), (''source'', JStr ''d.md''),
     (''content_hash'', JStr h)]"

definition minimal_lines :: "string \<Rightarrow> (string \<times> jv) list" where
  "minimal_lines ns =
     [(''a'', table_document 0x10 (''h-q-'' @ ns) ns),
      (''b'', table_chunk 0x11 0x10 0 ''alpha auth module'' 3 1 ns), (''c'', table_chunk 0x12 0x10 1 ''beta gamma'' 2 2 ns),
      (''d'', table_entity 0x20 ''alpha'' ''module'' 97 ns), (''e'', table_link 0x11 0x20 (rnd binary64 (9 / 10)))]"

lemma trim_letter: "trim [c] = [c]" if "(of_char c :: nat) < 128" "\<not> is_whitespace (of_char c)"
  using that by (simp add: trim_def trim_by_def uchars_ascii_Cons)

lemma letters: "trim ''a'' = ''a''" "trim ''b'' = ''b''" "trim ''c'' = ''c''" "trim ''d'' = ''d''" "trim ''e'' = ''e''"
  by (rule trim_letter; simp add: is_whitespace_def)+

lemma table_parse:
  assumes "trim l = l" "l \<noteq> []" "map_of tab l = Some v"
  shows "v = table_document i h ns \<Longrightarrow> parse_jsonl_line (jv_api tab) table_fields l = Inr (FDocument \<lparr>fd_id = Uuid i,
      fd_namespace = ns, fd_source = ''d.md'', fd_content_hash = h, fd_title = None, fd_metadata = JObj []\<rparr>)"
    and "v = table_chunk i d ord txt tc e ns \<Longrightarrow> parse_jsonl_line (jv_api tab) table_fields l = Inr (FChunk \<lparr>fc_id = Uuid i,
      fc_namespace = ns, fc_document_id = Uuid d, fc_ord = word_of_int ord, fc_text = txt, fc_token_count = word_of_int tc,
      fc_embedding = replicate 384 (Fin (of_int e)), fc_metadata = JObj []\<rparr>)"
    and "v = table_entity i name label e ns \<Longrightarrow> parse_jsonl_line (jv_api tab) table_fields l = Inr (FEntity \<lparr>fe_id = Uuid i,
      fe_namespace = ns, fe_name = name, fe_kind_label = Some label, fe_name_emb = replicate 384 (Fin (of_int e)),
      fe_description = None\<rparr>)"
    and "v = table_link i d x \<Longrightarrow> parse_jsonl_line (jv_api tab) table_fields l = Inr (FChunkEntity \<lparr>fx_chunk_id = Uuid i,
      fx_entity_id = Uuid d, fx_confidence = x, fx_classification = ''extracted''\<rparr>)"
  using assms
  by (simp_all add: parse_jsonl_line_def Let_def jv_api_def table_document_def table_chunk_def table_entity_def
      table_link_def table_fields_def from_value_def de_document_def de_chunk_def de_entity_def de_chunk_entity_def
      required_def field_or_def optional_def body_api.defs)

lemma minimal_setup_possible:
  "minimal_setup (jv_api (minimal_lines ns)) table_fields table_ext table_retr table_embed
     (map (\<lambda>l. Inr (fst l)) (minimal_lines ns)) ns"
proof -
  have records: "file_records (jv_api (minimal_lines ns)) table_fields (map (\<lambda>l. Inr (fst l)) (minimal_lines ns))
      = Some (minimal_records (\<lambda>i. Uuid (int i)) (replicate 384 (Fin (of_int 1))) (replicate 384 (Fin (of_int 2)))
          (table_embed ''alpha'') (JObj []) ns)"
  proof -
    have lines: "map_of (minimal_lines ns) ''a'' = Some (table_document 0x10 (''h-q-'' @ ns) ns)"
      "map_of (minimal_lines ns) ''b'' = Some (table_chunk 0x11 0x10 0 ''alpha auth module'' 3 1 ns)"
      "map_of (minimal_lines ns) ''c'' = Some (table_chunk 0x12 0x10 1 ''beta gamma'' 2 2 ns)"
      "map_of (minimal_lines ns) ''d'' = Some (table_entity 0x20 ''alpha'' ''module'' 97 ns)"
      "map_of (minimal_lines ns) ''e'' = Some (table_link 0x11 0x20 (rnd binary64 (9 / 10)))"
      by (simp_all add: minimal_lines_def)
    have keys: "map (\<lambda>l. Inr (fst l)) (minimal_lines ns) = [Inr ''a'', Inr ''b'', Inr ''c'', Inr ''d'', Inr ''e'']"
      by (simp add: minimal_lines_def)
    show ?thesis unfolding keys
      by (simp add: letters table_parse(1)[OF letters(1) _ lines(1) refl] table_parse(2)[OF letters(2) _ lines(2) refl]
          table_parse(2)[OF letters(3) _ lines(3) refl] table_parse(3)[OF letters(4) _ lines(4) refl]
          table_parse(4)[OF letters(5) _ lines(5) refl] minimal_records_def table_embed_def)
  qed
  have vectors: "px_vector_in table_ext (vector_literal v) = Inr v \<and> length v = 384"
    if "v \<in> {replicate 384 (Fin (of_int 1)), replicate 384 (Fin (of_int 2)), table_embed ''alpha''}" for v
  proof -
    from that obtain n :: int where "v = replicate 384 (Fin (of_int n))" "\<bar>n\<bar> < 256"
      unfolding table_embed_def by force
    then show ?thesis by (rule table_vector)
  qed
  have inj: "inj (\<lambda>i. Uuid (int i))" by (simp add: inj_def)
  show ?thesis
    unfolding minimal_setup_def
    by (intro conjI exI[of _ "\<lambda>i. Uuid (int i)"] exI[of _ "replicate 384 (Fin (of_int 1))"]
        exI[of _ "replicate 384 (Fin (of_int 2))"] exI[of _ "JObj []"] inj records ballI vectors[THEN conjunct1]
        vectors[THEN conjunct2])
      (use near_far(1) in \<open>simp_all add: table_retr_def retr_ok_def\<close>)
qed

definition table_relationship :: "int \<Rightarrow> int \<Rightarrow> int \<Rightarrow> string \<Rightarrow> jv" where
  "table_relationship i src dst ns = JObj [(''kind'', JStr ''relationship''), (''id'', JInt i), (''namespace'', JStr ns),
     (''src_id'', JInt src), (''dst_id'', JInt dst), (''kind_label'', JStr ''next''), (''weight'', JFloat (Fin 1))]"

definition chain_lines :: "string \<Rightarrow> (string \<times> jv) list" where
  "chain_lines ns =
     [(''a'', table_document 0x50 (''h-chain-'' @ ns) ns),
      (''b'', table_chunk 0x51 0x50 0 ''chunk-a'' 1 1 ns), (''c'', table_chunk 0x52 0x50 1 ''chunk-b'' 1 2 ns),
      (''d'', table_chunk 0x53 0x50 2 ''chunk-c'' 1 3 ns),
      (''e'', table_entity 0x61 ''AAA'' ''node'' 65 ns), (''f'', table_entity 0x62 ''BBB'' ''node'' 66 ns),
      (''g'', table_entity 0x63 ''CCC'' ''node'' 67 ns),
      (''h'', table_relationship 0x71 0x61 0x62 ns), (''i'', table_relationship 0x72 0x62 0x63 ns),
      (''j'', table_link 0x51 0x61 (Fin 1)), (''k'', table_link 0x52 0x62 (Fin 1)), (''l'', table_link 0x53 0x63 (Fin 1))]"

lemma more_letters: "trim ''f'' = ''f''" "trim ''g'' = ''g''" "trim ''h'' = ''h''" "trim ''i'' = ''i''" "trim ''j'' = ''j''"
  "trim ''k'' = ''k''" "trim ''l'' = ''l''"
  by (rule trim_letter; simp add: is_whitespace_def)+

lemma table_parse_relationship:
  assumes "trim l = l" "l \<noteq> []" "map_of tab l = Some (table_relationship i src dst ns)"
  shows "parse_jsonl_line (jv_api tab) table_fields l = Inr (FRelationship \<lparr>fr_id = Uuid i, fr_namespace = ns,
    fr_src_id = Uuid src, fr_dst_id = Uuid dst, fr_kind = ''next'', fr_weight = Fin 1\<rparr>)"
  using assms by (simp add: parse_jsonl_line_def Let_def jv_api_def table_relationship_def table_fields_def from_value_def
      de_relationship_def required_def field_or_def body_api.defs)

lemma table_embed_bound: "\<exists>n :: int. table_embed t = replicate 384 (Fin (of_int n)) \<and> \<bar>n\<bar> < 256"
proof -
  let ?n = "(case t of [] \<Rightarrow> 0 | c # _ \<Rightarrow> of_char c) :: int"
  have "\<bar>of_char c :: int\<bar> < 256" for c :: char
  proof -
    have "(of_char c :: int) = int (of_char c)" by (simp only: of_nat_of_char)
    then show ?thesis using nat_of_char_less_256[of c] by linarith
  qed
  then have "\<bar>?n\<bar> < 256" by (cases t) simp_all
  then show ?thesis unfolding table_embed_def by blast
qed

lemma chain_setup_possible:
  "chain_setup (jv_api (chain_lines ns)) table_fields table_ext table_retr table_embed
     (map (\<lambda>l. Inr (fst l)) (chain_lines ns)) ns"
proof -
  let ?e = "\<lambda>n. replicate 384 (Fin (of_int n))"
  have records: "file_records (jv_api (chain_lines ns)) table_fields (map (\<lambda>l. Inr (fst l)) (chain_lines ns))
      = Some (chain_records (\<lambda>i. Uuid (int i)) table_embed (?e 1) (?e 2) (?e 3) (JObj []) ns)"
  proof -
    have lines: "map_of (chain_lines ns) ''a'' = Some (table_document 0x50 (''h-chain-'' @ ns) ns)"
      "map_of (chain_lines ns) ''b'' = Some (table_chunk 0x51 0x50 0 ''chunk-a'' 1 1 ns)"
      "map_of (chain_lines ns) ''c'' = Some (table_chunk 0x52 0x50 1 ''chunk-b'' 1 2 ns)"
      "map_of (chain_lines ns) ''d'' = Some (table_chunk 0x53 0x50 2 ''chunk-c'' 1 3 ns)"
      "map_of (chain_lines ns) ''e'' = Some (table_entity 0x61 ''AAA'' ''node'' 65 ns)"
      "map_of (chain_lines ns) ''f'' = Some (table_entity 0x62 ''BBB'' ''node'' 66 ns)"
      "map_of (chain_lines ns) ''g'' = Some (table_entity 0x63 ''CCC'' ''node'' 67 ns)"
      "map_of (chain_lines ns) ''h'' = Some (table_relationship 0x71 0x61 0x62 ns)"
      "map_of (chain_lines ns) ''i'' = Some (table_relationship 0x72 0x62 0x63 ns)"
      "map_of (chain_lines ns) ''j'' = Some (table_link 0x51 0x61 (Fin 1))"
      "map_of (chain_lines ns) ''k'' = Some (table_link 0x52 0x62 (Fin 1))"
      "map_of (chain_lines ns) ''l'' = Some (table_link 0x53 0x63 (Fin 1))"
      by (simp_all add: chain_lines_def)
    have keys: "map (\<lambda>l. Inr (fst l)) (chain_lines ns) = [Inr ''a'', Inr ''b'', Inr ''c'', Inr ''d'', Inr ''e'', Inr ''f'',
        Inr ''g'', Inr ''h'', Inr ''i'', Inr ''j'', Inr ''k'', Inr ''l'']"
      by (simp add: chain_lines_def)
    show ?thesis unfolding keys
      by (simp add: letters more_letters table_parse(1)[OF letters(1) _ lines(1) refl]
          table_parse(2)[OF letters(2) _ lines(2) refl] table_parse(2)[OF letters(3) _ lines(3) refl]
          table_parse(2)[OF letters(4) _ lines(4) refl] table_parse(3)[OF letters(5) _ lines(5) refl]
          table_parse(3)[OF more_letters(1) _ lines(6) refl] table_parse(3)[OF more_letters(2) _ lines(7) refl]
          table_parse_relationship[OF more_letters(3) _ lines(8)] table_parse_relationship[OF more_letters(4) _ lines(9)]
          table_parse(4)[OF more_letters(5) _ lines(10) refl] table_parse(4)[OF more_letters(6) _ lines(11) refl]
          table_parse(4)[OF more_letters(7) _ lines(12) refl] chain_records_def Let_def table_embed_def)
  qed
  have vectors: "px_vector_in table_ext (vector_literal v) = Inr v \<and> length v = 384"
    if "v \<in> {?e 1, ?e 2, ?e 3} \<union> range table_embed" for v
  proof -
    from that consider "v = ?e 1" | "v = ?e 2" | "v = ?e 3" | t where "v = table_embed t" by blast
    then obtain n :: int where "v = ?e n" "\<bar>n\<bar> < 256"
      using table_embed_bound by cases force+
    then show ?thesis by (rule table_vector)
  qed
  have inj: "inj (\<lambda>i. Uuid (int i))" by (simp add: inj_def)
  have near: "flt (rx_distance table_retr (table_embed a) (table_embed b)) (rnd binary64 (35 / 100)) \<longleftrightarrow> a = b"
    if "a \<in> {''AAA'', ''BBB'', ''CCC''}" "b \<in> {''AAA'', ''BBB'', ''CCC''}" for a b
  proof -
    have "table_embed a = table_embed b \<longleftrightarrow> a = b" using that by (auto simp: table_embed_def)
    then show ?thesis using near_far by (auto simp: table_retr_def)
  qed
  show ?thesis
    unfolding chain_setup_def
    by (intro conjI exI[of _ "\<lambda>i. Uuid (int i)"] exI[of _ "?e 1"] exI[of _ "?e 2"] exI[of _ "?e 3"] exI[of _ "JObj []"]
        inj records ballI vectors[THEN conjunct1] vectors[THEN conjunct2] near)
      (simp_all add: table_retr_def retr_ok_def)
qed

definition table_embedder :: "int embedder" where
  "table_embedder = \<lparr>em_dim = 384, em_embed = (\<lambda>t. sr_return (table_embed t)),
     em_embed_batch = embed_batch_default (\<lambda>t. sr_return (table_embed t))\<rparr>"

lemma pipeline_setup_possible: "body \<noteq> [] \<Longrightarrow> pipeline_setup table_ext demo_env table_embedder body 0"
  unfolding pipeline_setup_def
  by (intro exI[of _ "[slim_chunk \<lparr>rc_seq_num = 0, rc_embedded_content = body\<rparr>]"] exI[of _ "[table_embed body]"]
      exI[of _ 0] exI[of _ "[Uuid 0]"] exI[of _ 1] exI[of _ "Uuid 1"] exI[of _ 2])
    (use table_embed_bound[of body] table_vector in \<open>auto simp: chunker_chunk_def select_chunker_def chunker_new_def demo_env_def
      demo_chunkshop_def table_embedder_def sr_bind_def sr_apply slim_chunk_def\<close>)

end
