(* ===== verification/AskTests.thy ===== *)
theory AskTests
  imports UnitTests
begin

text \<open>
  The tests of the whole way, from documents to answers (\<^verbatim>\<open>pg_raggraph/src/lib.rs\<close>): several documents
  ingested in one session, then a query or \<open>pgrg.ask\<close> with a stub provider. Replayed as in \<open>PgTests\<close>.
\<close>

section \<open>Several documents\<close>

text \<open>\<open>run_job\<close> on each document in turn, with \<open>expect\<close>.\<close>

fun run_all where
  "run_all X env emb ns [] k sw = k sw"
| "run_all X env emb ns ((name, body) # docs) k sw =
     run_in_test X env emb (Text name body) ns (\<lambda>_. run_all X env emb ns docs k) sw"

text \<open>
  What a run needs of the chunker, the embedder, \<open>pgvector\<close> and the identifiers drawn: \<open>used\<close> are the
  identifiers and \<open>hs\<close> the hashes that are taken.
\<close>

fun documents_setup where
  "documents_setup X env emb [] used hs w \<longleftrightarrow> True"
| "documents_setup X env emb (body # bodies) used hs w \<longleftrightarrow> is_utf8 body \<and> content_hash (ie_sha env) body \<notin> hs
     \<and> (\<exists>chunks vs w1 ids w2 i w3.
          chunker_chunk (ie_chunkshop env) (chunker_new Auto) body = Inr chunks \<and> chunks \<noteq> [] \<and> length chunks \<le> 2
        \<and> distinct (map ch_ord chunks) \<and> list_all (\<lambda>c. sint (ch_token_count c) \<le> 4000) chunks
        \<and> em_embed_batch emb (map ch_text chunks) w = (Inr vs, w1) \<and> length vs = length chunks
        \<and> (\<forall>v \<in> set vs. px_vector_in X (vector_literal v) = Inr v \<and> length v = 384)
        \<and> draws (ie_new_v4 env) (length chunks) w1 = (ids, w2) \<and> ie_new_v4 env w2 = (i, w3) \<and> distinct ids
        \<and> set ids \<inter> used = {} \<and> i \<notin> used
        \<and> documents_setup X env emb bodies (insert i (set ids) \<union> used) (insert (content_hash (ie_sha env) body) hs) w3)"

definition session_ok :: "uuid set \<Rightarrow> string set \<Rightarrow> string \<Rightarrow> database \<Rightarrow> bool" where
  "session_ok used hs ns db \<longleftrightarrow> db_ok db \<and> db_dim db = 384 \<and> ns \<in> nr_name ` set (db_namespaces db)
     \<and> dr_id ` set (db_documents db) \<subseteq> used \<and> cw_id ` set (db_chunks db) \<subseteq> used
     \<and> dr_content_hash ` set (db_documents db) \<subseteq> hs"

text \<open>The rows that the documents add.\<close>

definition added :: "string \<Rightarrow> (string \<times> string) list \<Rightarrow> doc_row list \<Rightarrow> chunk_row list \<Rightarrow> bool" where
  "added ns docs ds cs \<longleftrightarrow> map dr_source ds = map fst docs \<and> list_all (\<lambda>d. dr_namespace d = ns) ds
     \<and> list_all (\<lambda>c. cw_namespace c = ns \<and> sint (cw_token_count c) \<le> 4000) cs
     \<and> (docs \<noteq> [] \<longrightarrow> cs \<noteq> []) \<and> length cs \<le> 2 * length docs"

lemma run_one_document:
  assumes "documents_setup X env emb (body # bodies) used hs w" and "session_ok used hs ns db" and "db_ok db0"
  shows "\<exists>d cs i n w' used' hs'. run_job (spi_client X) env (job_of (Text name body) ns) emb (mock_llm mock_new) (open_tx db0 db, w)
      = (Inr (Completed i n), (open_tx db0 (with_document d cs db), w'))
    \<and> added ns [(name, body)] [d] cs \<and> documents_setup X env emb bodies used' hs' w'
    \<and> session_ok used' hs' ns (with_document d cs db)"
proof -
  from assms(1) obtain chunks vs w1 ids w2 i w3 where p: "is_utf8 body" "content_hash (ie_sha env) body \<notin> hs"
      "chunker_chunk (ie_chunkshop env) (chunker_new Auto) body = Inr chunks" "chunks \<noteq> []" "length chunks \<le> 2"
      "distinct (map ch_ord chunks)" "list_all (\<lambda>c. sint (ch_token_count c) \<le> 4000) chunks"
      "em_embed_batch emb (map ch_text chunks) w = (Inr vs, w1)" "length vs = length chunks"
      "\<forall>v \<in> set vs. px_vector_in X (vector_literal v) = Inr v \<and> length v = 384"
      "draws (ie_new_v4 env) (length chunks) w1 = (ids, w2)" "ie_new_v4 env w2 = (i, w3)" "distinct ids"
      "set ids \<inter> used = {}" "i \<notin> used"
      "documents_setup X env emb bodies (insert i (set ids) \<union> used) (insert (content_hash (ie_sha env) body) hs) w3"
    unfolding documents_setup.simps by (elim exE conjE)
  from assms(2) have ok: "db_ok db" "db_dim db = 384" "ns \<in> nr_name ` set (db_namespaces db)"
      "dr_id ` set (db_documents db) \<subseteq> used" "cw_id ` set (db_chunks db) \<subseteq> used"
      "dr_content_hash ` set (db_documents db) \<subseteq> hs"
    by (simp_all add: session_ok_def)
  define d where "d = \<lparr>dr_id = i, dr_namespace = ns, dr_source = name, dr_content_hash = content_hash (ie_sha env) body,
    dr_title = None\<rparr>"
  define cs where "cs = map (chunk_row_of ns i) (zip ids (zip chunks vs))"
  have len: "length ids = length chunks" using p(11) by (rule draws_length)
  have cols: "map cw_id cs = ids"
    unfolding cs_def using len p(9) by (simp_all only: chunk_rows_columns)
  have new: "i \<notin> dr_id ` set (db_documents db)" "set ids \<inter> cw_id ` set (db_chunks db) = {}"
      "dr_content_hash d \<notin> dr_content_hash ` set (db_documents db)"
    using p(2,14,15) ok(4-6) by (auto simp: d_def)
  have fit: "chunks_fit X (with_document d [] db) cs"
    using chunks_fitI[OF ok(1) len p(9,13) new(2) p(6), of d X ns] new(1) p(10) ok(2) by (simp add: cs_def d_def)
  have auto: "unwrap_or chunk_strategy_default (chunk_strategy_parse ''auto'') = Auto"
    by (simp add: chunk_strategy_parse_def)
  have run: "run_job (spi_client X) env (job_of (Text name body) ns) emb (mock_llm mock_new) (open_tx db0 db, w)
      = (Inr (Completed i (length chunks)), (open_tx db0 (with_document d cs db), w3))"
    unfolding spi_tokio_agree
    by (rule run_job_completes_open[OF _ p(1) _ p(4,8,9,11,12)])
      (use ok(3) p(3) new fit in \<open>simp_all add: job_of_def auto d_def cs_def\<close>)
  have "tx_ok (open_tx db0 (with_document d cs db))"
    using sr_keepsD[OF tokio_inv.run_job_inv run[unfolded spi_tokio_agree]] ok(1) assms(3) by (simp add: tx_ok_def)
  then have "session_ok (insert i (set ids) \<union> used) (insert (content_hash (ie_sha env) body) hs) ns (with_document d cs db)"
    using ok cols by (auto simp: session_ok_def tx_ok_def d_def with_document_def)
  moreover have "added ns [(name, body)] [d] cs"
  proof -
    have "cw_namespace c = ns \<and> sint (cw_token_count c) \<le> 4000" if "c \<in> set cs" for c
      using that p(7) by (auto simp: cs_def chunk_row_of_def list_all_iff elim!: in_set_zipE)
    moreover have "length cs = length chunks" using len p(9) by (simp add: cs_def)
    ultimately show ?thesis using p(4,5) by (auto simp: added_def d_def list_all_iff)
  qed
  ultimately show ?thesis using run p(16) by blast
qed

text \<open>All of them, with whatever the test does next.\<close>

lemma run_all_documents:
  assumes "documents_setup X env emb (map snd docs) used hs w" and "session_ok used hs ns db" and "db_ok db0"
    and "\<And>ds cs w' used' hs'. added ns docs ds cs
      \<Longrightarrow> session_ok used' hs' ns (db\<lparr>db_documents := db_documents db @ ds, db_chunks := db_chunks db @ cs\<rparr>)
      \<Longrightarrow> k (open_tx db0 (db\<lparr>db_documents := db_documents db @ ds, db_chunks := db_chunks db @ cs\<rparr>), w')"
  shows "run_all X env emb ns docs k (open_tx db0 db, w)"
  using assms
proof (induction docs arbitrary: used hs w db)
  case Nil
  then show ?case using Nil.prems(4)[of "[]" "[]" used hs w] by (simp add: added_def)
next
  case (Cons doc docs)
  obtain name body where doc: "doc = (name, body)" by (cases doc)
  from Cons.prems(1) have ready: "documents_setup X env emb (body # map snd docs) used hs w" by (simp only: doc list.map snd_conv)
  from run_one_document[OF ready Cons.prems(2,3), of name]
  obtain d cs i n w' used' hs' where one:
      "run_job (spi_client X) env (job_of (Text name body) ns) emb (mock_llm mock_new) (open_tx db0 db, w)
        = (Inr (Completed i n), (open_tx db0 (with_document d cs db), w'))"
      "added ns [(name, body)] [d] cs" "documents_setup X env emb (map snd docs) used' hs' w'"
      "session_ok used' hs' ns (with_document d cs db)"
    by (elim exE conjE)
  have "run_all X env emb ns docs k (open_tx db0 (with_document d cs db), w')"
  proof (rule Cons.IH[OF one(3,4) Cons.prems(3)])
    fix ds' cs' v used'' hs''
    let ?db = "with_document d cs db" and ?db' = "db\<lparr>db_documents := db_documents db @ d # ds', db_chunks := db_chunks db @ cs @ cs'\<rparr>"
    assume rest: "added ns docs ds' cs'" and ok: "session_ok used'' hs'' ns
      (?db\<lparr>db_documents := db_documents ?db @ ds', db_chunks := db_chunks ?db @ cs'\<rparr>)"
    have same: "?db\<lparr>db_documents := db_documents ?db @ ds', db_chunks := db_chunks ?db @ cs'\<rparr> = ?db'"
      by (simp add: with_document_def)
    have "added ns (doc # docs) (d # ds') (cs @ cs')" using one(2) rest by (auto simp: added_def doc)
    from Cons.prems(4)[OF this] ok
    show "k (open_tx db0 (?db\<lparr>db_documents := db_documents ?db @ ds', db_chunks := db_chunks ?db @ cs'\<rparr>), v)"
      unfolding same by simp
  qed
  then show ?case by (simp add: doc run_in_test_def one(1))
qed

lemma namespace_session: "session_ok {} {} ns (create_namespace ns installed_db)"
  using session_ready[where ns = ns and js = "[]"] by (simp add: session_ok_def namespace_with_jobs)

definition e2e_ingest_then_query_via_run_job where
  "e2e_ingest_then_query_via_run_job J X Y env emb embed_fn w \<longleftrightarrow>
     run_all X env emb ''e2e_bgw_ns''
       [(''doc0'', ''the auth module verifies user credentials''), (''doc1'', ''billing service charges customers monthly''),
        (''doc2'', ''search service ranks documents by relevance''),
        (''doc3'', ''notification service emails alerts to users''),
        (''doc4'', ''auth module also handles password resets'')]
       (\<lambda>sw. docs_in ''e2e_bgw_ns'' sw = 5
          \<and> runs (pgrg_query J Y embed_fn (px_render X) ''auth module'' None 5 ''e2e_bgw_ns'' 1 None ''hybrid'' (tx_work (fst sw)))
              (\<lambda>out. 1 \<le> length out))
       (tx_begin [] (create_namespace ''e2e_bgw_ns'' installed_db), w)"

lemma added_length: "added ns docs ds cs \<Longrightarrow> length ds = length docs"
  unfolding added_def by (metis length_map)

lemma five_documents_test:
  fixes w :: 'w
  assumes "documents_setup X env emb [''the auth module verifies user credentials'', ''billing service charges customers monthly'',
      ''search service ranks documents by relevance'', ''notification service emails alerts to users'',
      ''auth module also handles password resets''] {} {} w"
    and "retr_ok Y" and "embed_fn ''auth module'' = Inr v"
  shows "e2e_ingest_then_query_via_run_job J X Y env emb embed_fn w"
  unfolding e2e_ingest_then_query_via_run_job_def tx_begin_open
proof (rule run_all_documents[OF _ namespace_session])
  let ?ns = "''e2e_bgw_ns''" let ?db = "create_namespace ?ns installed_db"
  show "db_ok ?db" using namespace_session by (simp add: session_ok_def)
  fix ds :: "doc_row list" and cs :: "chunk_row list" and w' :: 'w and used' hs'
  let ?db' = "?db\<lparr>db_documents := db_documents ?db @ ds, db_chunks := db_chunks ?db @ cs\<rparr>"
  let ?docs = "[(''doc0'', ''the auth module verifies user credentials''), (''doc1'', ''billing service charges customers monthly''),
    (''doc2'', ''search service ranks documents by relevance''), (''doc3'', ''notification service emails alerts to users''),
    (''doc4'', ''auth module also handles password resets'')]"
  assume add: "added ?ns ?docs ds cs" and ok: "session_ok used' hs' ?ns ?db'"
  have docs: "docs_in ?ns (open_tx ?db ?db', w') = 5"
    using added_length[OF add] add by (simp add: docs_in_def added_def filter_id_conv list_all_iff)
  obtain c where c: "c \<in> set cs" using add by (cases cs) (auto simp: added_def)
  have "runs (pgrg_query J Y embed_fn (px_render X) ''auth module'' None 5 ?ns 1 None ''hybrid'' ?db') (\<lambda>out. 1 \<le> length out)"
    by (rule query_some[where m = Hybrid and c = c and v = v])
      (use assms(2,3) ok c add in \<open>simp_all add: hybrid session_ok_def db_ok_def added_def list_all_iff\<close>)
  with docs show "docs_in ?ns (open_tx ?db ?db', w') = 5
    \<and> runs (pgrg_query J Y embed_fn (px_render X) ''auth module'' None 5 ?ns 1 None ''hybrid'' (tx_work (fst (open_tx ?db ?db', w'))))
        (\<lambda>out. 1 \<le> length out)"
    by simp
qed (use assms(1) in simp)

section \<open>Asking a stub provider\<close>

text \<open>
  \<open>pgrg.ask\<close> with a provider of the kind \<open>mock\<close>: where the namespace has a few chunks, none too long for the
  default budget, and sets no budget of its own, the answer is the stub.
\<close>

lemma ask_rows_some:
  assumes "rows \<noteq> []" and "\<forall>r \<in> set rows. qr_chunk_id r \<in> cw_id ` set (db_chunks db)"
  shows "ask_rows db rows \<noteq> []"
proof -
  obtain r rs where rows: "rows = r # rs" using assms(1) by (cases rows) auto
  with assms(2) obtain ch where "ch \<in> set (db_chunks db)" "cw_id ch = qr_chunk_id r" by auto
  then have "filter (\<lambda>ch. cw_id ch = qr_chunk_id r) (db_chunks db) \<noteq> []" by (metis (mono_tags, lifting) filter_empty_conv)
  then show ?thesis by (simp add: ask_rows_def rows stable_sort_empty)
qed

lemma ask_stub:
  fixes E :: "('r, 'v, 'k, 'h, 'w) ask_env"
  assumes Y: "retr_ok (ae_retr E)" and d: "distinct (map cw_id (db_chunks db))"
    and v: "pgrg_embed E q = Inr v" and c: "c \<in> set (db_chunks db)" "cw_namespace c = ns"
    and small: "\<forall>c \<in> set (db_chunks db). cw_namespace c = ns \<longrightarrow> sint (cw_token_count c) \<le> 4000"
    and k: "1 \<le> sint top_k" and budget: "ask_budget E ns db = Inr None"
    and row: "sql_provider_row name db = Some (''mock'', model, None, Some stub)" "\<not> is_encrypted stub"
  obtains req built latency where
    "fst (pgrg_ask E q None top_k ns hops (Some name) db w) = Inr
       \<lparr>aa_answer = stub,
        aa_citations = map (\<lambda>c. (ci_chunk_id c, ci_document_id c, ci_ord c)) (extract_citations (ae_captures E) stub built),
        aa_signals = ask_signals (ae_json E) req built
          \<lparr>co_text = stub, co_prompt_tokens = 0, co_completion_tokens = 0\<rparr> latency,
        aa_mode_used = ''hybrid''\<rparr>"
    "ar_provider req = name" "ar_model req = provider_model_for db name" "latency \<le> u64_max"
    "1 \<le> length (bp_id_map built)" "set (bp_id_map built) \<subseteq> cw_id ` set (db_chunks db)"
proof -
  let ?X = "ae_retr E" and ?J = "ae_json E"
  have "runs (pgrg_query ?J ?X (pgrg_embed E) (ae_render E) q None top_k ns hops None ''hybrid'' db) (\<lambda>out. 1 \<le> length out)"
    by (rule query_some[where m = Hybrid and c = c and v = v and embed_fn = "pgrg_embed E", OF Y d hybrid v c k])
  then obtain rows where rows: "pgrg_query ?J ?X (pgrg_embed E) (ae_render E) q None top_k ns hops None ''hybrid'' db = Inr rows"
      "rows \<noteq> []"
    by (cases "pgrg_query ?J ?X (pgrg_embed E) (ae_render E) q None top_k ns hops None ''hybrid'' db") (auto simp: runs_def Suc_le_length_iff)
  have run: "run_query ?X Hybrid q v None (sint top_k) ns hops (query_weights ?J None) db = Inr rows"
    using rows(1) v by (simp add: pgrg_query_def hybrid Let_def map_sum_id_Inr)
  have visible: "visible_chunk ?X None ns db pc" if "pc \<in> set (ask_rows db rows)" for pc
    by (rule ask_rows_visible[OF Y d run that])
  have "ask_rows db rows \<noteq> []"
    by (rule ask_rows_some[OF rows(2)]) (use run_query_visible[OF Y d run] in blast)
  then obtain p ps where chunks: "ask_rows db rows = p # ps" by (cases "ask_rows db rows") auto
  have "sint (pc_token_count p) \<le> 4000"
    using visible[of p] small by (auto simp: chunks visible_chunk_def)
  then have first: "\<not> (4000 :: i32) <s pc_token_count p" "pc_token_count p <=s (4000 :: i32)" by (simp_all add: sless_i32)
  obtain inc t n where sel: "select_chunks 4000 0 (p # ps) = (inc, t, n)" by (metis surj_pair)
  obtain inc' where inc: "inc = p # inc'" using select_chunks_first[OF sel first(2)] by blast
  define req where "req = \<lparr>ar_question = q, ar_chunks = p # ps, ar_provider = name,
    ar_model = provider_model_for db name, ar_token_budget = 4000\<rparr>"
  define built where "built = \<lparr>bp_prompt_text = render_prompt q (map pc_text inc), bp_id_map = map pc_chunk_id inc,
    bp_doc_map = map pc_document_id inc, bp_ord_map = map pc_ord inc, bp_prompt_tokens = t, bp_dropped_count = n\<rparr>"
  have prompt: "build_ask_prompt q (p # ps) 4000 = Inr built"
    using first(1) sel by (simp add: build_ask_prompt_def built_def sless_i32)
  have provider: "spi_build_provider_impl (ae_crypto E) (ae_files E) (ae_de_extraction E) (ae_key_path E) db name w
      = (Inr (ImplMock (with_stub_answer mock_new stub)), w)"
    using row by (simp add: spi_build_provider_impl_def plaintext_credential_def dispatch_provider_def)
  define latency where "latency = latency_millis (elapsed (ae_clock E) (ck_now (ae_clock E) w) w)"
  have asked: "ask ?J (ae_captures E) (ae_clock E) req (mock_llm (with_stub_answer mock_new stub)) w
      = (Inr \<lparr>as_answer = stub, as_citations = extract_citations (ae_captures E) stub built,
          as_signals = ask_signals ?J req built \<lparr>co_text = stub, co_prompt_tokens = 0, co_completion_tokens = 0\<rparr> latency,
          as_mode_used = ''hybrid''\<rparr>, w)"
    by (simp add: ask_def req_def[symmetric] sr_bind_def sr_apply mock_llm_def mock_complete_def with_stub_answer_def
        mock_new_def latency_def) (simp add: req_def prompt)
  have "fst (pgrg_ask E q None top_k ns hops (Some name) db w) = Inr
       \<lparr>aa_answer = stub,
        aa_citations = map (\<lambda>c. (ci_chunk_id c, ci_document_id c, ci_ord c)) (extract_citations (ae_captures E) stub built),
        aa_signals = ask_signals ?J req built \<lparr>co_text = stub, co_prompt_tokens = 0, co_completion_tokens = 0\<rparr> latency,
        aa_mode_used = ''hybrid''\<rparr>"
    using asked by (simp add: pgrg_ask_def resolve_provider_def rows(1) chunks budget provider answer_of_def
        req_def[symmetric] unwrap_or_def)
  moreover have "set (bp_id_map built) \<subseteq> cw_id ` set (db_chunks db)"
  proof -
    have "set inc \<subseteq> set (p # ps)" using select_chunks_shape[OF sel] by (auto dest: subseq_set)
    then show ?thesis using visible unfolding chunks built_def visible_chunk_def by fastforce
  qed
  moreover have "latency \<le> u64_max" by (simp add: latency_def latency_millis_def)
  ultimately show thesis
    by (intro that[of built req latency]) (simp_all add: req_def built_def inc)
qed

lemma cited_ids: "c \<in> set (extract_citations captures answer built) \<Longrightarrow> ci_chunk_id c \<in> set (bp_id_map built)"
  using collect_citations_entry unfolding extract_citations_def valid_n_def
  by (metis One_nat_def Suc_le_eq Suc_pred nth_mem less_eq_Suc_le)

lemma cites_first:
  "captures answer = ''1'' # ns \<Longrightarrow> 1 \<le> length (bp_id_map built) \<Longrightarrow> extract_citations captures answer built \<noteq> []"
  by (simp add: extract_citations_def parse_usize_def is_digit_def digits_val_def digit_val_def)

text \<open>The session of the two tests: a namespace, then a provider of the kind \<open>mock\<close>.\<close>

definition with_stub_provider where
  "with_stub_provider E name model stub ns w k \<longleftrightarrow>
     runs (fst (provider_create (ae_crypto E) (ae_files E) None name ''llm'' ''mock'' None (Some model) (Some stub) (JObj [])
       (create_namespace ns installed_db) w)) k"

definition e2e_three_statement_demo_with_mock_provider where
  "e2e_three_statement_demo_with_mock_provider X E env emb w \<longleftrightarrow>
     with_stub_provider E ''e2e-demo-mock'' ''mock-v1''
       ''Auth verifies user credentials [1]. Tokens expire after 24 hours [2].'' ''e2e_demo_ns'' w (\<lambda>db.
     run_all X env emb ''e2e_demo_ns''
       [(''auth-doc-1'', ''the auth module verifies user credentials''),
        (''token-doc-1'', ''session tokens expire after 24 hours of inactivity'')]
       (\<lambda>sw. length (filter (\<lambda>d. dr_namespace d = ''e2e_demo_ns'' \<and> dr_source d \<in> {''auth-doc-1'', ''token-doc-1''})
            (db_documents (tx_work (fst sw)))) = 2
        \<and> runs (fst (pgrg_ask E ''what does the auth module do?'' None 10 ''e2e_demo_ns'' 1 (Some ''e2e-demo-mock'')
              (tx_work (fst sw)) (snd sw))) (\<lambda>r.
            aa_answer r \<noteq> [] \<and> aa_citations r \<noteq> []
            \<and> list_all (\<lambda>(cid, _, _). length (filter (\<lambda>c. cw_id c = cid) (db_chunks (tx_work (fst sw)))) = 1) (aa_citations r)
            \<and> aa_mode_used r = ''hybrid''))
       (tx_begin [] db, w))"

definition ask_signals_contains_llm_attribution where
  "ask_signals_contains_llm_attribution X E env emb w \<longleftrightarrow>
     with_stub_provider E ''signals-mock-p'' ''mock-v18'' ''an answer [1].'' ''signals_ns'' w (\<lambda>db.
     run_all X env emb ''signals_ns'' [(''signals-doc-x'', ''short fixture text for signals test'')]
       (\<lambda>sw. runs (fst (pgrg_ask E ''test query?'' None 5 ''signals_ns'' 1 (Some ''signals-mock-p'') (tx_work (fst sw)) (snd sw)))
         (\<lambda>r. let J = ae_json E; llm = js_key J (aa_signals r) ''llm'' in
            list_all (\<lambda>key. js_key J llm key \<noteq> js_null J)
              [''provider'', ''model'', ''latency_ms'', ''prompt_tokens'', ''completion_tokens'']
            \<and> js_as_str J (js_key J llm ''provider'') = Some ''signals-mock-p''
            \<and> js_as_str J (js_key J llm ''model'') = Some ''mock-v18''
            \<and> js_as_u64 J (js_key J llm ''latency_ms'') \<noteq> None \<and> js_as_u64 J (js_key J llm ''prompt_tokens'') \<noteq> None
            \<and> js_as_u64 J (js_key J llm ''completion_tokens'') \<noteq> None))
       (tx_begin [] db, w))"

text \<open>The tables after the provider was created.\<close>

definition stub_db :: "string \<Rightarrow> string \<Rightarrow> string \<Rightarrow> string \<Rightarrow> database" where
  "stub_db name model stub ns = (create_namespace ns installed_db)\<lparr>db_providers :=
     [\<lparr>pv_name = name, pv_kind = ''llm'', pv_provider = ''mock'', pv_base_url = None, pv_model = Some model,
       pv_credential = Some stub, pv_config = JObj []\<rparr>]\<rparr>"

lemma with_stub_provider_iff:
  "with_stub_provider E name model stub ns w k \<longleftrightarrow> k (stub_db name model stub ns)"
proof -
  have "db_providers (create_namespace ns installed_db) = []"
    by (simp add: create_namespace_def namespace_create_def sql_upsert_namespace_def installed_db_def Let_def)
  then show ?thesis
    by (simp add: with_stub_provider_def stub_db_def provider_create_def stored_credential_def load_master_key_def
        sql_upsert_provider_def)
qed

lemma stub_session: "session_ok {} {} ns (stub_db name model stub ns)" "db_ok (stub_db name model stub ns)"
proof -
  show "session_ok {} {} ns (stub_db name model stub ns)"
    using namespace_session[of ns] by (simp add: session_ok_def stub_db_def db_ok_def)
  then show "db_ok (stub_db name model stub ns)" by (simp add: session_ok_def)
qed

text \<open>What \<open>ask_stub\<close> needs, in the session of a test after its documents.\<close>

lemma stub_session_ready:
  assumes "db = (stub_db name model stub ns)\<lparr>db_documents := ds, db_chunks := cs\<rparr>"
  shows "ask_budget E ns db = Inr None" "sql_provider_row name db = Some (''mock'', model, None, Some stub)"
    "provider_model_for db name = model"
proof -
  have "nr_settings n = JObj []" if "n \<in> set (db_namespaces (create_namespace ns installed_db))" for n
    using that by (auto simp: create_namespace_def namespace_create_def sql_upsert_namespace_def installed_db_def Let_def
        split: if_splits)
  then have "nr_settings n = JObj []" if "find (\<lambda>n. nr_name n = ns) (db_namespaces db) = Some n" for n
    using that by (auto simp: assms stub_db_def find_Some_iff)
  then show "ask_budget E ns db = Inr None"
    by (cases "find (\<lambda>n. nr_name n = ns) (db_namespaces db)") (simp_all add: ask_budget_def jsonb_get_text_def)
  show "sql_provider_row name db = Some (''mock'', model, None, Some stub)" "provider_model_for db name = model"
    by (simp_all add: assms stub_db_def sql_provider_row_def provider_model_for_def)
qed

lemma added_in: "added ns docs ds cs \<Longrightarrow> docs \<noteq> [] \<Longrightarrow> \<exists>c \<in> set cs. cw_namespace c = ns"
  by (cases cs) (auto simp: added_def)

lemma stub_db_empty [simp]: "db_documents (stub_db name model stub ns) = []" "db_chunks (stub_db name model stub ns) = []"
  by (simp_all add: stub_db_def)

lemma once: "distinct (map f xs) \<Longrightarrow> i \<in> f ` set xs \<Longrightarrow> length (filter (\<lambda>x. f x = i) xs) = 1"
proof (induction xs)
  case (Cons x xs)
  then show ?case by (cases "f x = i") (auto simp: filter_empty_conv image_iff)
qed simp

lemma demo_test:
  fixes E :: "('r, 'v, 'k, 'h, 'w) ask_env" and w :: 'w
  assumes "documents_setup X env emb [''the auth module verifies user credentials'',
      ''session tokens expire after 24 hours of inactivity''] {} {} w"
    and "retr_ok (ae_retr E)" and "pgrg_embed E ''what does the auth module do?'' = Inr v"
    and "ae_captures E ''Auth verifies user credentials [1]. Tokens expire after 24 hours [2].'' = [''1'', ''2'']"
  shows "e2e_three_statement_demo_with_mock_provider X E env emb w"
  unfolding e2e_three_statement_demo_with_mock_provider_def with_stub_provider_iff tx_begin_open
proof (rule run_all_documents[OF _ stub_session])
  let ?ns = "''e2e_demo_ns''" and ?name = "''e2e-demo-mock''" and ?q = "''what does the auth module do?''"
  let ?stub = "''Auth verifies user credentials [1]. Tokens expire after 24 hours [2].''"
  let ?docs = "[(''auth-doc-1'', ''the auth module verifies user credentials''),
    (''token-doc-1'', ''session tokens expire after 24 hours of inactivity'')]"
  let ?start = "stub_db ?name ''mock-v1'' ?stub ?ns"
  fix ds :: "doc_row list" and cs :: "chunk_row list" and w' :: 'w and used' hs'
  let ?db = "?start\<lparr>db_documents := db_documents ?start @ ds, db_chunks := db_chunks ?start @ cs\<rparr>"
  assume add: "added ?ns ?docs ds cs" and ok: "session_ok used' hs' ?ns ?db"
  obtain c where c: "c \<in> set cs" "cw_namespace c = ?ns" using added_in[OF add] by auto
  have d: "distinct (map cw_id (db_chunks ?db))" using ok by (simp add: session_ok_def db_ok_def)
  have ready: "ask_budget E ?ns ?db = Inr None" "sql_provider_row ?name ?db = Some (''mock'', ''mock-v1'', None, Some ?stub)"
    using stub_session_ready[OF refl, where ds = ds and cs = cs] by simp_all
  have plain: "\<not> is_encrypted ?stub" by (simp add: is_encrypted_def starts_with_def ENV_PREFIX_def)
  have small: "\<forall>c \<in> set (db_chunks ?db). cw_namespace c = ?ns \<longrightarrow> sint (cw_token_count c) \<le> 4000"
    using add by (simp add: added_def list_all_iff)
  have docs: "length (filter (\<lambda>d. dr_namespace d = ?ns \<and> dr_source d \<in> {''auth-doc-1'', ''token-doc-1''}) ds) = 2"
    using add by (auto simp: added_def map_eq_Cons_conv)
  have c': "c \<in> set (db_chunks ?db)" using c(1) by simp
  have k: "1 \<le> sint (10 :: i32)" by simp
  have work: "tx_work (fst (open_tx ?start ?db, w')) = ?db" "snd (open_tx ?start ?db, w') = w'" by simp_all
  obtain req :: ask_request and built latency where asked:
      "fst (pgrg_ask E ?q None 10 ?ns 1 (Some ?name) ?db w') = Inr
         \<lparr>aa_answer = ?stub,
          aa_citations = map (\<lambda>c. (ci_chunk_id c, ci_document_id c, ci_ord c)) (extract_citations (ae_captures E) ?stub built),
          aa_signals = ask_signals (ae_json E) req built \<lparr>co_text = ?stub, co_prompt_tokens = 0, co_completion_tokens = 0\<rparr> latency,
          aa_mode_used = ''hybrid''\<rparr>"
      "1 \<le> length (bp_id_map built)" "set (bp_id_map built) \<subseteq> cw_id ` set (db_chunks ?db)"
    by (rule ask_stub[OF assms(2) d assms(3) c' c(2) small k ready plain])
  have "length (filter (\<lambda>x. cw_id x = ci_chunk_id ci) (db_chunks ?db)) = 1"
    if "ci \<in> set (extract_citations (ae_captures E) ?stub built)" for ci
    using once[OF d] cited_ids[OF that] asked(3) by blast
  moreover have "extract_citations (ae_captures E) ?stub built \<noteq> []" 
    by (rule cites_first[where captures = "ae_captures E", OF assms(4) asked(2)])
  ultimately show "length (filter (\<lambda>d. dr_namespace d = ?ns \<and> dr_source d \<in> {''auth-doc-1'', ''token-doc-1''})
        (db_documents (tx_work (fst (open_tx ?start ?db, w'))))) = 2
    \<and> runs (fst (pgrg_ask E ?q None 10 ?ns 1 (Some ?name) (tx_work (fst (open_tx ?start ?db, w'))) (snd (open_tx ?start ?db, w')))) (\<lambda>r.
        aa_answer r \<noteq> [] \<and> aa_citations r \<noteq> []
        \<and> list_all (\<lambda>(cid, _, _). length (filter (\<lambda>c. cw_id c = cid) (db_chunks (tx_work (fst (open_tx ?start ?db, w')))))
            = 1) (aa_citations r)
        \<and> aa_mode_used r = ''hybrid'')"
    unfolding work asked(1) using docs by (simp add: list_all_iff)
qed (use assms(1) in simp)

lemma signals_of_llm:
  assumes "json_laws J" and "latency \<le> u64_max"
  shows "js_as_str J (js_key J (js_key J (ask_signals J req built compl latency) ''llm'') ''provider'') = Some (ar_provider req)"
    and "js_as_str J (js_key J (js_key J (ask_signals J req built compl latency) ''llm'') ''model'') = Some (ar_model req)"
    and "js_as_u64 J (js_key J (js_key J (ask_signals J req built compl latency) ''llm'') ''latency_ms'') = Some latency"
    and "js_as_u64 J (js_key J (js_key J (ask_signals J req built compl latency) ''llm'') ''prompt_tokens'')
      = Some (unat (co_prompt_tokens compl))"
    and "js_as_u64 J (js_key J (js_key J (ask_signals J req built compl latency) ''llm'') ''completion_tokens'')
      = Some (unat (co_completion_tokens compl))"
proof -
  have tokens: "js_as_u64 J (js_int J (uint n)) = Some (unat n)" for n :: "32 word"
  proof -
    have "unat n < 2 ^ LENGTH(32)" by (rule unsigned_less)
    then have "unat n < 2 ^ 64" by simp
    from json_as(7)[OF assms(1) this] show ?thesis unfolding uint_nat .
  qed
  have latency: "js_as_u64 J (js_int J (int latency)) = Some latency"
    by (rule json_as(7)[OF assms(1)]) (use assms(2) in \<open>simp add: u64_max_def\<close>)
  show "js_as_str J (js_key J (js_key J (ask_signals J req built compl latency) ''llm'') ''provider'') = Some (ar_provider req)"
    "js_as_str J (js_key J (js_key J (ask_signals J req built compl latency) ''llm'') ''model'') = Some (ar_model req)"
    "js_as_u64 J (js_key J (js_key J (ask_signals J req built compl latency) ''llm'') ''latency_ms'') = Some latency"
    "js_as_u64 J (js_key J (js_key J (ask_signals J req built compl latency) ''llm'') ''prompt_tokens'')
      = Some (unat (co_prompt_tokens compl))"
    "js_as_u64 J (js_key J (js_key J (ask_signals J req built compl latency) ''llm'') ''completion_tokens'')
      = Some (unat (co_completion_tokens compl))"
    by (simp_all add: ask_signals_def json_key[OF assms(1)] json_as[OF assms(1)] latency tokens)
qed

lemma signals_test:
  fixes E :: "('r, 'v, 'k, 'h, 'w) ask_env" and w :: 'w
  assumes "documents_setup X env emb [''short fixture text for signals test''] {} {} w"
    and "retr_ok (ae_retr E)" and "pgrg_embed E ''test query?'' = Inr v" and laws: "json_laws (ae_json E)"
  shows "ask_signals_contains_llm_attribution X E env emb w"
  unfolding ask_signals_contains_llm_attribution_def with_stub_provider_iff tx_begin_open
proof (rule run_all_documents[OF _ stub_session])
  let ?ns = "''signals_ns''" and ?name = "''signals-mock-p''" and ?q = "''test query?''" and ?stub = "''an answer [1].''"
  let ?docs = "[(''signals-doc-x'', ''short fixture text for signals test'')]"
  let ?start = "stub_db ?name ''mock-v18'' ?stub ?ns" and ?J = "ae_json E"
  fix ds :: "doc_row list" and cs :: "chunk_row list" and w' :: 'w and used' hs'
  let ?db = "?start\<lparr>db_documents := db_documents ?start @ ds, db_chunks := db_chunks ?start @ cs\<rparr>"
  assume add: "added ?ns ?docs ds cs" and ok: "session_ok used' hs' ?ns ?db"
  obtain c where c: "c \<in> set cs" "cw_namespace c = ?ns" using added_in[OF add] by auto
  have d: "distinct (map cw_id (db_chunks ?db))" using ok by (simp add: session_ok_def db_ok_def)
  have ready: "ask_budget E ?ns ?db = Inr None" "sql_provider_row ?name ?db = Some (''mock'', ''mock-v18'', None, Some ?stub)"
      "provider_model_for ?db ?name = ''mock-v18''"
    using stub_session_ready[OF refl, where ds = ds and cs = cs] by simp_all
  have plain: "\<not> is_encrypted ?stub" by (simp add: is_encrypted_def starts_with_def ENV_PREFIX_def)
  have small: "\<forall>c \<in> set (db_chunks ?db). cw_namespace c = ?ns \<longrightarrow> sint (cw_token_count c) \<le> 4000"
    using add by (simp add: added_def list_all_iff)
  have c': "c \<in> set (db_chunks ?db)" using c(1) by simp
  have k: "1 \<le> sint (5 :: i32)" by simp
  have work: "tx_work (fst (open_tx ?start ?db, w')) = ?db" "snd (open_tx ?start ?db, w') = w'" by simp_all
  obtain req :: ask_request and built latency where asked:
      "fst (pgrg_ask E ?q None 5 ?ns 1 (Some ?name) ?db w') = Inr
         \<lparr>aa_answer = ?stub,
          aa_citations = map (\<lambda>c. (ci_chunk_id c, ci_document_id c, ci_ord c)) (extract_citations (ae_captures E) ?stub built),
          aa_signals = ask_signals ?J req built \<lparr>co_text = ?stub, co_prompt_tokens = 0, co_completion_tokens = 0\<rparr> latency,
          aa_mode_used = ''hybrid''\<rparr>"
      "ar_provider req = ?name" "ar_model req = provider_model_for ?db ?name" "latency \<le> u64_max"
    by (rule ask_stub[OF assms(2) d assms(3) c' c(2) small k ready(1,2) plain])
  define llm where "llm = js_key ?J (ask_signals ?J req built \<lparr>co_text = ?stub, co_prompt_tokens = 0, co_completion_tokens = 0\<rparr>
    latency) ''llm''"
  have llm: "js_as_str ?J (js_key ?J llm ''provider'') = Some ?name" "js_as_str ?J (js_key ?J llm ''model'') = Some ''mock-v18''"
      "js_as_u64 ?J (js_key ?J llm ''latency_ms'') = Some latency" "js_as_u64 ?J (js_key ?J llm ''prompt_tokens'') = Some 0"
      "js_as_u64 ?J (js_key ?J llm ''completion_tokens'') = Some 0"
    unfolding llm_def using signals_of_llm[OF laws asked(4)] asked(2,3) ready(3) by simp_all
  have there: "js_key ?J llm key \<noteq> js_null ?J"
    if "key \<in> {''provider'', ''model'', ''latency_ms'', ''prompt_tokens'', ''completion_tokens''}" for key
  proof
    assume "js_key ?J llm key = js_null ?J"
    then have "js_as_str ?J (js_key ?J llm key) = None" "js_as_u64 ?J (js_key ?J llm key) = None"
      using json_as(2,8)[OF laws] by simp_all
    with that llm show False by auto
  qed
  show "runs (fst (pgrg_ask E ?q None 5 ?ns 1 (Some ?name) (tx_work (fst (open_tx ?start ?db, w'))) (snd (open_tx ?start ?db, w'))))
    (\<lambda>r. let J = ?J; llm = js_key J (aa_signals r) ''llm'' in
        list_all (\<lambda>key. js_key J llm key \<noteq> js_null J)
          [''provider'', ''model'', ''latency_ms'', ''prompt_tokens'', ''completion_tokens'']
        \<and> js_as_str J (js_key J llm ''provider'') = Some ?name \<and> js_as_str J (js_key J llm ''model'') = Some ''mock-v18''
        \<and> js_as_u64 J (js_key J llm ''latency_ms'') \<noteq> None \<and> js_as_u64 J (js_key J llm ''prompt_tokens'') \<noteq> None
        \<and> js_as_u64 J (js_key J llm ''completion_tokens'') \<noteq> None)"
    unfolding work asked(1) using llm there by (simp add: Let_def llm_def)
qed (use assms(1) in simp)

end
