(* ===== verification/Spec2Isabelle.thy ===== *)
theory Spec2Isabelle
  imports Prelude RustStr IEEE CoreTypes Rrf Json Llm LlmProviders Ask Credentials Chunking Embedding
    FloatText PgClient Resolve RunJob PgDatabase PgIngest Jobs Providers Worker JobQueue Retrieval AskSurfaces
    Admin Migrations Fixture Drain Onnx Startup ParityConstants EndToEnd PgTests PgQueryTests
    UnitTests AskTests
begin

text \<open>
  A verification development of pg-raggraph: retrieval-augmented generation with an entity graph, inside
  PostgreSQL.

  \<^bold>\<open>The program.\<close> It is three crates. \<^verbatim>\<open>pg_raggraph_core\<close> is the logic that needs no server: chunking,
  embedding, extraction by a language model, entity resolution, the ingest pipeline, rank fusion, the
  retrieval statement, the grounded prompt, credentials. \<^verbatim>\<open>pg_raggraph\<close> is the extension: SQL functions
  in the schema \<open>pgrg\<close>, settings, and background workers that take jobs from \<open>pgrg.ingest_jobs\<close> over SPI.
  \<^verbatim>\<open>pg_raggraph_sidecar\<close> is a process that does the workers' part over a connection, and serves
  \<open>POST /v1/ask\<close>. The flow is: \<open>pgrg.ingest_text\<close> puts a row in the queue; a worker of either kind claims
  it (\<open>FOR UPDATE SKIP LOCKED\<close>), rebuilds the request and runs \<open>run_job\<close> over its implementation of the
  trait \<open>PgClient\<close>, in a transaction; it marks the row; a reaper puts rows back that stay running. Then
  \<open>pgrg.query\<close> ranks the chunks by three lanes (vector, text, graph), and \<open>pgrg.ask\<close> and the endpoint
  turn the best of them into a prompt, and the answer into citations.

  \<^bold>\<open>How code becomes definitions.\<close> A struct is a \<open>record\<close>, an enum a \<open>datatype\<close>, a trait a record of its
  methods. An operation that can fail gives a sum with the error on the left; one that changes something
  takes the state and returns it (\<open>sr\<close> in \<open>Prelude\<close> is the type of such steps over \<open>CoreError\<close>). Tables
  are a record of lists of rows, in the order of insertion, and a statement is an operation on it. Strings
  are their UTF-8 bytes. Integers have their width where it matters (\<open>i32\<close>, \<open>u32\<close>, \<open>u64\<close> as words),
  \<open>usize\<close> is \<open>nat\<close>, \<open>f32\<close> and \<open>f64\<close> are the values and the rounding of IEEE 754, time is an integer of
  microseconds. Every definition computes, so the witnesses run the program on a concrete input.

  \<^bold>\<open>Foundations.\<close>
  \<^item> \<open>Prelude\<close>: the errors of \<^verbatim>\<open>error.rs\<close>, results, the state-and-result steps with the collection
    \<open>res_simps\<close> and their elimination rules, decimal printing, and the stable sort; the locale \<open>sort_order\<close>
    has its laws for a preorder that is total on a set, because a comparison of floats is total only
    without NaN. It is interpreted on scores (\<open>IEEE\<close>, \<open>Rrf\<close>, \<open>Retrieval\<close>) and on the age of a job
    (\<open>Drain\<close>).
  \<^item> \<open>RustStr\<close>: what the program uses of \<open>str\<close>. \<open>IEEE\<close>: floating point, with monotonicity of rounding.
    \<open>FloatText\<close>: the shortest decimal of a float, its reading, and the pgvector literals that five files
    each print and parse; a literal reads back exactly.
  \<^item> \<open>Json\<close>: \<open>serde_json\<close> as the record \<open>json_api\<close> over an abstract type of values, with its documented
    laws \<open>json_laws\<close> and an instance \<open>jv_api\<close> that meets them.

  \<^bold>\<open>The core crate\<close> (\<^verbatim>\<open>pg_raggraph_core/src\<close>).
  \<^item> \<open>CoreTypes\<close> (\<^verbatim>\<open>types.rs\<close>, \<^verbatim>\<open>retrieval/mode.rs\<close>, \<^verbatim>\<open>ingest/profile.rs\<close>, \<^verbatim>\<open>ingest/profile_resolve.rs\<close>,
    \<^verbatim>\<open>chunking/strategy.rs\<close>): the enumerations with a label, instances of \<open>enum\<close>; the locale
    \<open>labelled_enum\<close> says that labels and parsing are inverse, and is interpreted on all four.
  \<^item> \<open>Chunking\<close> (\<^verbatim>\<open>chunking/mod.rs\<close>), \<open>Embedding\<close> (\<^verbatim>\<open>embedding/mod.rs\<close>, \<^verbatim>\<open>ingest/content_hash.rs\<close>) and
    \<open>Onnx\<close> (\<^verbatim>\<open>embedding/onnx.rs\<close>): the locale \<open>embedder_contract\<close> (an embedding has the dimension, a batch
    is its texts one by one) holds of the deterministic embedder, and of an
    ONNX model that has loaded.
  \<^item> \<open>Llm\<close> (\<^verbatim>\<open>llm/mod.rs\<close>, \<^verbatim>\<open>llm/mock.rs\<close>, \<^verbatim>\<open>llm/http.rs\<close>, \<^verbatim>\<open>llm/retry.rs\<close>), \<open>LlmProviders\<close>
    (\<^verbatim>\<open>llm/openai.rs\<close>, \<^verbatim>\<open>llm/ollama.rs\<close>, \<^verbatim>\<open>llm/anthropic.rs\<close>): the locale \<open>llm_contract\<close> (a provider fails
    only with \<open>Http\<close> or \<open>Llm\<close>) holds of the mock and the three network providers; which errors are retried,
    how often, and round trips of each reply format.
  \<^item> \<open>Ask\<close> (\<^verbatim>\<open>llm/prompt.rs\<close>, \<^verbatim>\<open>llm/ask.rs\<close>, \<^verbatim>\<open>llm/resolve.rs\<close>): prompt, budget, citations.
  \<^item> \<open>Credentials\<close> (\<^verbatim>\<open>credentials/\<close>, and \<^verbatim>\<open>db.rs\<close> of the sidecar): envelopes, key file, redaction.
  \<^item> \<open>PgClient\<close> (\<^verbatim>\<open>ingest/pg_client.rs\<close>), \<open>Resolve\<close> (\<^verbatim>\<open>ingest/resolve.rs\<close>, \<^verbatim>\<open>parity_constants.rs\<close>),
    \<open>RunJob\<close> (\<^verbatim>\<open>ingest/run.rs\<close>, \<^verbatim>\<open>ingest/types.rs\<close>): the pipeline is proved over any client that meets
    the locale \<open>tx_client\<close> (only \<open>commit\<close> changes what is visible), and keeps what the client keeps
    (\<open>pg_invariant\<close>, and its weaker form \<open>pg_ok_invariant\<close> for operations that succeed).
    \<open>tx_client\<close> is interpreted on \<open>FakePgClient\<close> and on both SQL clients.
  \<^item> \<open>Rrf\<close> (\<^verbatim>\<open>retrieval/rrf.rs\<close>) and \<open>Fixture\<close> (\<^verbatim>\<open>retrieval/fixture.rs\<close>, and \<^verbatim>\<open>ingest_extracted.rs\<close> of the
    extension). \<open>ParityConstants\<close>: the build script \<^verbatim>\<open>build.rs\<close>, which reads the constants of the sibling
    implementation; what it writes is what \<open>Resolve\<close> uses.

  \<^bold>\<open>Database, extension, sidecar.\<close>
  \<^item> \<open>PgDatabase\<close> (\<^verbatim>\<open>sql/001_tables.sql\<close>, \<^verbatim>\<open>bgw/spi_client.rs\<close>, \<^verbatim>\<open>pg_client.rs\<close>): the tables, the statements
    of the two clients with keys, references and the abort of a transaction. \<open>PgIngest\<close>: the constraints
    \<open>db_ok\<close> are kept by an ingest, and a content that another namespace holds is never stored.
  \<^item> \<open>Jobs\<close> (\<^verbatim>\<open>jobloop.rs\<close>, \<^verbatim>\<open>main.rs\<close>, \<^verbatim>\<open>ingest.rs\<close>): claim, marks, sweeps, backoff, the poll cycle
    \<open>process_one\<close> with the faults of its connections, the enqueue functions. \<open>Worker\<close> (\<^verbatim>\<open>bgw/queue.rs\<close>,
    \<^verbatim>\<open>bgw/worker.rs\<close>, \<^verbatim>\<open>bgw/reaper.rs\<close>): the cycle of the background worker and its agreement with the
    sidecar's.
  \<^item> \<open>JobQueue\<close>: the queue as a step relation \<open>queue_step\<close> (any number of workers, the reaper, new jobs,
    crashes, the clock) with its invariants by rule induction; \<open>process_one\<close> is a run of it. \<open>Drain\<close>:
    a worker that keeps polling settles every job, oldest first.
  \<^item> \<open>Retrieval\<close> (\<^verbatim>\<open>retrieval/query_sql.rs\<close>, \<^verbatim>\<open>retrieval.rs\<close>): the statement as a text, and its effect lane
    by lane. \<open>walk\<close> is the recursive part: it reaches exactly the entities within the bound of hops.
  \<^item> \<open>Providers\<close> (both \<^verbatim>\<open>provider_factory.rs\<close>), \<open>AskSurfaces\<close> (\<^verbatim>\<open>ask.rs\<close>, \<^verbatim>\<open>http.rs\<close>, \<^verbatim>\<open>embedding.rs\<close>): the
    two ways to ask and where they differ. \<open>Admin\<close> (\<^verbatim>\<open>admin.rs\<close>, \<^verbatim>\<open>ingest_profile.rs\<close>).
  \<^item> \<open>Migrations\<close> (\<^verbatim>\<open>bootstrap.rs\<close>, the files of \<^verbatim>\<open>pg_raggraph/sql\<close>), \<open>Startup\<close> (\<^verbatim>\<open>gucs.rs\<close>, \<^verbatim>\<open>lib.rs\<close>,
    \<^verbatim>\<open>bgw/launcher.rs\<close>, \<^verbatim>\<open>bgw/embedder_cache.rs\<close>, \<^verbatim>\<open>config.rs\<close>, \<^verbatim>\<open>embedder.rs\<close>, \<^verbatim>\<open>main.rs\<close>).
  \<^item> \<open>EndToEnd\<close>: all of it together, from \<open>pgrg.ingest_text\<close> through a poll to \<open>pgrg.query\<close>.
  \<^item> \<open>PgTests\<close>, \<open>PgQueryTests\<close>, \<open>UnitTests\<close>, \<open>AskTests\<close>: tests of the repository as definitions under
    their own names, each with the lemma that the model passes it. They tie the model to what the authors
    check. The first two replay tests of the extension (\<^verbatim>\<open>pg_raggraph/src/lib.rs\<close>, on a real server);
    \<open>UnitTests\<close> adds unit tests of \<^verbatim>\<open>http.rs\<close>, \<^verbatim>\<open>provider_factory.rs\<close> and \<^verbatim>\<open>ingest/resolve.rs\<close>, the schema
    and scores computed by hand; \<open>AskTests\<close> has those that ingest several documents and then query or ask.

  \<^bold>\<open>Loops.\<close> Recursion over a list is structural. The walk of the graph lane ends because the distance of
  its rows grows and the statement bounds it (\<open>walk_measure\<close>); \<open>uchars\<close>, \<open>is_utf8\<close>, \<open>bit_len\<close>, \<open>isqrt\<close>
  and \<open>strip_zeros\<close> have measures too. The retry loop counts \<open>max_attempts\<close> down, as the code does. The
  loop of the deterministic embedder would not end if the hash gave no bytes: \<open>expand\<close> is a partial
  function, and \<open>expand_terminates\<close> shows that it returns when the hash gives 32. A worker's loop does not
  end by design: the model is one cycle of it, and \<open>Drain\<close> says how many cycles empty a queue. No
  definition runs on fuel.

  \<^bold>\<open>Parameters.\<close> What is not part of the repository is an argument: SHA-256 and the cipher, base64 and
  randomness (\<open>crypto_api\<close>), files (\<open>file_api\<close>), the HTTP transport, the clock (\<open>transport\<close>, \<open>clock\<close>),
  the chunkers of \<open>chunkshop\<close>, the tokenizer and the runtime of ONNX models (\<open>onnx_api\<close>), the regular
  expression of citations, the command line parser (\<open>clap\<close>), the order of a hash map, the derived
  deserialiser of an extraction. Of PostgreSQL and its extensions these are arguments: the text forms of a vector,
  \<open>similarity\<close>, the order of a scan, the wording of errors (\<open>pg_ext\<close>), distance, text search, containment
  and the order of rows that no \<open>ORDER BY\<close> fixes (\<open>retr_ext\<close>). What a proof needs of an argument is a
  named hypothesis (\<open>json_laws\<close>, \<open>retr_ok\<close>, a length of 32), and the witness of the theorem has a function
  that meets it. What a statement does to the tables follows the documentation of PostgreSQL, and each
  transaction is one step of the queue: its isolation is taken for granted.

  \<^bold>\<open>Not modelled.\<close> Logging and metrics; spawning of tasks, timers, signals, latches and registration with
  the postmaster; binding the socket and the extractor of the web framework; rows that an approximate
  HNSW scan may miss; the columns \<open>metadata\<close>, \<open>properties\<close> and \<open>classification\<close> (the filter of a query sees
  them through the parameter \<open>rx_contains\<close>) and timestamps of documents; generated bindings. Of the
  tests, those that assert facts of the server (catalog columns, index plans, elapsed time), need a
  checked-in file or the content of a ciphertext, or count what an external chunker yields are left out, and
  so are the directories \<^verbatim>\<open>tests\<close> of the crates, most of which the lemmas on the same functions subsume.
\<close>

end
